(* ===== verification/Prelude.thy ===== *)
theory Prelude
  imports Main "HOL-Library.Word" "HOL-Library.Multiset"
begin

unbundle bit_operations_syntax

text \<open>
  Shared vocabulary of the development.  Machine integers whose bits or whose
  wrap-around matter are words of their width (\<open>u8\<close>, \<open>u16\<close>, \<open>u32\<close>, \<open>u64\<close>);
  Rust's \<open>usize\<close> counts and addresses are \<^typ>\<open>nat\<close>, with the checked,
  saturating and masking operations of the standard library written out here
  at 64 bits.  \<open>Result\<close> is the sum type, \<open>Err\<close> on the left.  The list
  operations are the ones the kernel uses on \<open>Vec\<close> and slices:
  \<open>get\<close>, \<open>iter().position\<close>, \<open>iter_mut().find\<close>, \<open>remove\<close>, \<open>swap_remove\<close>.
\<close>

section \<open>Types and collections\<close>

type_synonym u8 = "8 word"
type_synonym u16 = "16 word"
type_synonym u32 = "32 word"
type_synonym u64 = "64 word"
type_synonym usize = nat
type_synonym bytes = "u8 list"
type_synonym ('e, 'a) result = "'e + 'a"

abbreviation Err :: "'e \<Rightarrow> ('e, 'a) result" where "Err \<equiv> Inl"
abbreviation Ok :: "'a \<Rightarrow> ('e, 'a) result" where "Ok \<equiv> Inr"

named_theorems rust_ops \<open>characterisations of standard-library operations\<close>
named_theorems list_ops \<open>characterisations of the Vec and slice operations\<close>

section \<open>Definitions\<close>

subsection \<open>usize arithmetic\<close>

definition USIZE_MAX :: usize where
  "USIZE_MAX = 2 ^ 64 - 1"

definition ISIZE_MAX :: usize where
  "ISIZE_MAX = 2 ^ 63 - 1"

definition checked_add :: "usize \<Rightarrow> usize \<Rightarrow> usize option" where
  "checked_add a b = (if a + b \<le> USIZE_MAX then Some (a + b) else None)"

definition checked_sub :: "usize \<Rightarrow> usize \<Rightarrow> usize option" where
  "checked_sub a b = (if b \<le> a then Some (a - b) else None)"

definition saturating_add :: "usize \<Rightarrow> usize \<Rightarrow> usize" where
  "saturating_add a b = min (a + b) USIZE_MAX"

text \<open>\<open>a.saturating_sub(b)\<close> on an unsigned integer is truncated subtraction.\<close>

definition saturating_sub :: "usize \<Rightarrow> usize \<Rightarrow> usize" where
  "saturating_sub a b = a - b"

text \<open>
  \<open>align_down\<close> and \<open>align_up\<close> are the masking expressions of the source,
  evaluated on 64-bit words.
\<close>

definition align_down :: "usize \<Rightarrow> usize \<Rightarrow> usize" where
  "align_down value align = unat ((word_of_nat value :: u64) AND NOT (word_of_nat align - 1))"

definition align_up :: "usize \<Rightarrow> usize \<Rightarrow> usize" where
  "align_up value align =
     unat ((word_of_nat value + word_of_nat align - 1 :: u64) AND NOT (word_of_nat align - 1))"

definition checked_align_up :: "usize \<Rightarrow> usize \<Rightarrow> usize option" where
  "checked_align_up addr align =
     map_option (\<lambda>value. unat ((word_of_nat value :: u64) AND NOT (word_of_nat align - 1)))
       (checked_add addr (align - 1))"

definition saturating_mul :: "nat \<Rightarrow> nat \<Rightarrow> nat" where
  "saturating_mul a b = (if a * b \<le> USIZE_MAX then a * b else USIZE_MAX)"

subsection \<open>Vectors and slices\<close>

definition nth_opt :: "'a list \<Rightarrow> usize \<Rightarrow> 'a option" where
  "nth_opt xs i = (if i < length xs then Some (xs ! i) else None)"

fun position :: "('a \<Rightarrow> bool) \<Rightarrow> 'a list \<Rightarrow> usize option" where
  "position P [] = None"
| "position P (x # xs) = (if P x then Some 0 else map_option Suc (position P xs))"

fun update_first :: "('a \<Rightarrow> bool) \<Rightarrow> ('a \<Rightarrow> 'a) \<Rightarrow> 'a list \<Rightarrow> 'a list" where
  "update_first P f [] = []"
| "update_first P f (x # xs) = (if P x then f x # xs else x # update_first P f xs)"

definition remove_at :: "usize \<Rightarrow> 'a list \<Rightarrow> 'a list" where
  "remove_at i xs = take i xs @ drop (Suc i) xs"

definition swap_remove :: "usize \<Rightarrow> 'a list \<Rightarrow> 'a list" where
  "swap_remove i xs = butlast (xs[i := last xs])"

text \<open>\<open>slice_get xs a b\<close> is \<open>xs.get(a..b)\<close>.\<close>

definition slice_get :: "'a list \<Rightarrow> usize \<Rightarrow> usize \<Rightarrow> 'a list option" where
  "slice_get xs a b = (if a \<le> b \<and> b \<le> length xs then Some (take (b - a) (drop a xs)) else None)"

text \<open>\<open>copy_from_slice\<close> into \<open>data[offset..offset + input.len()]\<close>.\<close>

definition copy_into :: "bytes \<Rightarrow> usize \<Rightarrow> bytes \<Rightarrow> bytes" where
  "copy_into data off input = take off data @ input @ drop (off + length input) data"

subsection \<open>Byte order\<close>

definition u16_to_be :: "u16 \<Rightarrow> bytes" where
  "u16_to_be w = [ucast (drop_bit 8 w), ucast w]"

definition u16_from_be :: "u8 \<Rightarrow> u8 \<Rightarrow> u16" where
  "u16_from_be a b = push_bit 8 (ucast a) OR ucast b"

definition u32_to_be :: "u32 \<Rightarrow> bytes" where
  "u32_to_be w = [ucast (drop_bit 24 w), ucast (drop_bit 16 w), ucast (drop_bit 8 w), ucast w]"

definition u32_from_be :: "u8 \<Rightarrow> u8 \<Rightarrow> u8 \<Rightarrow> u8 \<Rightarrow> u32" where
  "u32_from_be a b c d =
     push_bit 24 (ucast a) OR push_bit 16 (ucast b) OR push_bit 8 (ucast c) OR ucast d"

definition u32_to_le :: "u32 \<Rightarrow> bytes" where
  "u32_to_le w = [ucast w, ucast (drop_bit 8 w), ucast (drop_bit 16 w), ucast (drop_bit 24 w)]"

definition u16_to_le :: "u16 \<Rightarrow> bytes" where
  "u16_to_le w = [ucast w, ucast (drop_bit 8 w)]"

definition u16_from_le :: "u8 \<Rightarrow> u8 \<Rightarrow> u16" where
  "u16_from_le a b = u16_from_be b a"

definition u32_from_le :: "u8 \<Rightarrow> u8 \<Rightarrow> u8 \<Rightarrow> u8 \<Rightarrow> u32" where
  "u32_from_le a b c d = u32_from_be d c b a"

definition u64_from_le :: "bytes \<Rightarrow> u64" where
  "u64_from_le bs = foldr (\<lambda>b acc. push_bit 8 acc OR ucast b) bs 0"

subsection \<open>Bit counting and UTF-8\<close>

definition trailing_zeros :: "u64 \<Rightarrow> nat" where
  "trailing_zeros w = (case position (bit w) [0..<64] of Some i \<Rightarrow> i | None \<Rightarrow> 64)"

text \<open>\<open>utf8_valid\<close> is the well-formedness test of \<open>str::from_utf8\<close>.\<close>

definition in_range :: "nat \<Rightarrow> nat \<Rightarrow> u8 \<Rightarrow> bool" where
  "in_range lo hi b \<longleftrightarrow> lo \<le> unat b \<and> unat b \<le> hi"

fun utf8_valid :: "bytes \<Rightarrow> bool" where
  "utf8_valid [] = True"
| "utf8_valid (a # bs) =
     (if in_range 0 127 a then utf8_valid bs
      else case bs of
        [] \<Rightarrow> False
      | b # cs \<Rightarrow>
          if in_range 194 223 a then in_range 128 191 b \<and> utf8_valid cs
          else case cs of
            [] \<Rightarrow> False
          | c # ds \<Rightarrow>
              if in_range 224 239 a
              then in_range (if a = 224 then 160 else 128) (if a = 237 then 159 else 191) b
                \<and> in_range 128 191 c \<and> utf8_valid ds
              else case ds of
                [] \<Rightarrow> False
              | d # es \<Rightarrow>
                  in_range 240 244 a
                  \<and> in_range (if a = 240 then 144 else 128) (if a = 244 then 143 else 191) b
                  \<and> in_range 128 191 c \<and> in_range 128 191 d \<and> utf8_valid es)"

definition from_utf8 :: "bytes \<Rightarrow> bytes option" where
  "from_utf8 bs = (if utf8_valid bs then Some bs else None)"

section \<open>Lemmas\<close>

subsection \<open>usize arithmetic\<close>

lemma checked_add_Some [rust_ops]:
  "checked_add a b = Some c \<longleftrightarrow> c = a + b \<and> a + b \<le> USIZE_MAX"
  by (auto simp: checked_add_def)

lemma checked_add_None [rust_ops]: "checked_add a b = None \<longleftrightarrow> USIZE_MAX < a + b"
  by (auto simp: checked_add_def)

lemma checked_sub_Some [rust_ops]: "checked_sub a b = Some c \<longleftrightarrow> b \<le> a \<and> c = a - b"
  by (auto simp: checked_sub_def)

lemma saturating_add_le [rust_ops]: "a + b \<le> USIZE_MAX \<Longrightarrow> saturating_add a b = a + b"
  by (simp add: saturating_add_def)

lemma word_and_not_mask: "(w :: 'a::len word) AND NOT (mask k) = push_bit k (drop_bit k w)"
  by (rule bit_word_eqI) (auto simp: bit_simps)

lemma mask_word_of_nat: "k < 64 \<Longrightarrow> (word_of_nat (2 ^ k) :: u64) - 1 = mask k"
  by (simp add: mask_eq_exp_minus_1)

lemma unat_push_drop: "unat (push_bit k (drop_bit k (w :: u64))) = unat w div 2 ^ k * 2 ^ k"
proof -
  have "push_bit k (drop_bit k w) = w - take_bit k w"
    by (metis add_diff_cancel_right' bits_ident)
  moreover have "take_bit k w \<le> w"
    by (simp add: word_le_nat_alt unsigned_take_bit_eq)
  moreover have "unat (take_bit k w) = unat w mod 2 ^ k"
    by (subst unsigned_take_bit_eq) (rule take_bit_eq_mod)
  ultimately have "unat (push_bit k (drop_bit k w)) = unat w - unat w mod 2 ^ k"
    by (simp only: unat_sub)
  then show ?thesis
    by (simp add: minus_mod_eq_div_mult)
qed

lemma unat_word_of_nat_u64: "v \<le> USIZE_MAX \<Longrightarrow> unat (word_of_nat v :: u64) = v"
  by (simp add: unat_of_nat take_bit_eq_mod USIZE_MAX_def)

lemma unat_le_USIZE_MAX: "unat (w :: u64) \<le> USIZE_MAX"
  using unsigned_less [of w, where 'a = nat] by (simp add: USIZE_MAX_def)

lemma unat_u32_less: "unat (w :: u32) < 4294967296"
  using unsigned_less [of w, where 'a = nat] by simp

lemma align_down_pow2 [rust_ops]:
  assumes "k < 64" and "v \<le> USIZE_MAX"
  shows "align_down v (2 ^ k) = v div 2 ^ k * 2 ^ k"
  using assms
  by (simp only: align_down_def mask_word_of_nat word_and_not_mask unat_push_drop
      unat_word_of_nat_u64)

lemma align_up_pow2 [rust_ops]:
  assumes "k < 64" and "v + 2 ^ k - 1 \<le> USIZE_MAX"
  shows "align_up v (2 ^ k) = (v + 2 ^ k - 1) div 2 ^ k * 2 ^ k"
proof -
  have "(word_of_nat v + word_of_nat (2 ^ k) - 1 :: u64) = word_of_nat (v + 2 ^ k - 1)"
    by (subst of_nat_diff) (simp_all add: trans_le_add2)
  then show ?thesis
    using assms
    by (simp only: align_up_def mask_word_of_nat word_and_not_mask unat_push_drop
        unat_word_of_nat_u64)
qed

lemma checked_align_up_pow2 [rust_ops]:
  assumes "k < 64"
  shows "checked_align_up v (2 ^ k) =
    (if v + 2 ^ k - 1 \<le> USIZE_MAX then Some ((v + 2 ^ k - 1) div 2 ^ k * 2 ^ k) else None)"
proof -
  have "v + (2 ^ k - 1) = v + 2 ^ k - 1"
    by simp
  then show ?thesis
    using assms
    by (auto simp: checked_align_up_def checked_add_def mask_word_of_nat word_and_not_mask
        unat_push_drop unat_word_of_nat_u64 simp del: of_nat_power)
qed

lemma align_up_bounds:
  fixes v n :: nat
  assumes "0 < n"
  shows "v \<le> (v + n - 1) div n * n" and "(v + n - 1) div n * n < v + n"
proof -
  have eq: "(v + n - 1) div n * n + (v + n - 1) mod n = v + n - 1"
    by simp
  have "(v + n - 1) mod n < n"
    using assms by simp
  with eq assms show "v \<le> (v + n - 1) div n * n" and "(v + n - 1) div n * n < v + n"
    by linarith+
qed

lemma div_ceil_le: "(v + n - 1) div n \<le> k \<longleftrightarrow> v \<le> k * n" if "0 < n" for v n k :: nat
  using that by (simp add: less_Suc_eq_le [symmetric] div_less_iff_less_mult) linarith

subsection \<open>Vectors and slices\<close>

lemma nth_opt_Some [list_ops]: "nth_opt xs i = Some x \<longleftrightarrow> i < length xs \<and> xs ! i = x"
  by (auto simp: nth_opt_def)

lemma nth_opt_None [list_ops]: "nth_opt xs i = None \<longleftrightarrow> length xs \<le> i"
  by (auto simp: nth_opt_def)

lemma nth_update_if [list_ops]: "j < length xs \<Longrightarrow> xs[i := x] ! j = (if i = j then x else xs ! j)"
  by (auto simp: nth_list_update)

lemma position_Some:
  "position P xs = Some i \<Longrightarrow> i < length xs \<and> P (xs ! i) \<and> (\<forall>j < i. \<not> P (xs ! j))"
proof (induction xs arbitrary: i)
  case Nil
  then show ?case by simp
next
  case (Cons x xs)
  show ?case
  proof (cases "P x")
    case True
    with Cons.prems show ?thesis by auto
  next
    case False
    with Cons.prems obtain k where k: "position P xs = Some k" and i: "i = Suc k"
      by auto
    from Cons.IH [OF k] i False show ?thesis
      by (auto simp: less_Suc_eq_0_disj)
  qed
qed

lemma position_None [list_ops]: "position P xs = None \<longleftrightarrow> (\<forall>x\<in>set xs. \<not> P x)"
  by (induction xs) auto

lemma position_exI: "x \<in> set xs \<Longrightarrow> P x \<Longrightarrow> \<exists>i. position P xs = Some i"
  by (metis position_None not_None_eq)

lemma trailing_zeros_lowest:
  assumes "w \<noteq> 0"
  shows "trailing_zeros w < 64" and "bit w (trailing_zeros w)"
    and "\<And>j. j < trailing_zeros w \<Longrightarrow> \<not> bit w j"
proof -
  from assms obtain n where "bit w n" by (metis bit_word_eqI bit_0_eq bot_apply bot_bool_def)
  moreover from this have "n < 64" using bit_imp_le_length [of w n] by simp
  ultimately obtain i where i: "position (bit w) [0..<64] = Some i"
    using position_exI [of n "[0..<64]" "bit w"] by auto
  from position_Some [OF i] i show "trailing_zeros w < 64" and "bit w (trailing_zeros w)"
    and "\<And>j. j < trailing_zeros w \<Longrightarrow> \<not> bit w j"
    by (auto simp: trailing_zeros_def)
qed

lemma position_find: "find P xs = map_option (\<lambda>i. xs ! i) (position P xs)"
  by (induction xs) (auto simp: option.map_comp comp_def)

lemma length_update_first [simp]: "length (update_first P f xs) = length xs"
  by (induction xs) auto

lemma update_first_none: "(\<And>x. x \<in> set xs \<Longrightarrow> \<not> P x) \<Longrightarrow> update_first P f xs = xs"
  by (induction xs) auto

lemma update_first_position:
  "update_first P f xs = (case position P xs of None \<Rightarrow> xs | Some i \<Rightarrow> xs[i := f (xs ! i)])"
  by (induction xs) (auto split: option.splits)

lemma map_update_first:
  "(\<And>x. x \<in> set xs \<Longrightarrow> P x \<Longrightarrow> g (f x) = g x) \<Longrightarrow> map g (update_first P f xs) = map g xs"
  by (induction xs) auto

lemma update_first_comp:
  "(\<And>x. P x \<Longrightarrow> P (g x)) \<Longrightarrow> update_first P f (update_first P g xs) = update_first P (f \<circ> g) xs"
  by (induction xs) auto

lemma set_update_first:
  "y \<in> set (update_first P f xs) \<Longrightarrow> y \<in> set xs \<or> (\<exists>x\<in>set xs. P x \<and> y = f x)"
  by (induction xs) (auto split: if_splits)

lemma length_remove_at [simp]: "i < length xs \<Longrightarrow> length (remove_at i xs) = length xs - 1"
  by (simp add: remove_at_def)

lemma length_swap_remove [simp]: "i < length xs \<Longrightarrow> length (swap_remove i xs) = length xs - 1"
  by (simp add: swap_remove_def)

lemma mset_swap_remove:
  assumes "i < length xs"
  shows "mset (swap_remove i xs) = mset xs - {#xs ! i#}"
proof (cases xs rule: rev_cases)
  case Nil
  with assms show ?thesis by simp
next
  case (snoc ys x)
  show ?thesis
  proof (cases "i = length ys")
    case True
    with snoc show ?thesis by (simp add: swap_remove_def)
  next
    case False
    with assms snoc have i: "i < length ys" by simp
    then have "ys ! i \<in># mset ys" by simp
    with i snoc show ?thesis
      by (simp add: swap_remove_def list_update_append nth_append mset_update)
  qed
qed


subsection \<open>Tables keyed by a field\<close>

text \<open>
  Vectors searched with \<open>find(|e| e.key == k)\<close> behave as finite maps as long as
  their keys are distinct.
\<close>

lemma find_key:
  "distinct (map key xs) \<Longrightarrow> find (\<lambda>e. key e = k) xs = Some x \<longleftrightarrow> x \<in> set xs \<and> key x = k"
  by (induction xs) (auto simp: rev_image_eqI)

lemma find_None_key [list_ops]: "find (\<lambda>e. key e = k) xs = None \<longleftrightarrow> k \<notin> key ` set xs"
  by (auto simp: find_None_iff)

lemma find_key_SomeD: "find (\<lambda>e. key e = k) xs = Some x \<Longrightarrow> x \<in> set xs \<and> key x = k"
  by (induction xs) (auto split: if_splits)

lemma find_key_eqI:
  assumes "distinct (map key xs)" and "distinct (map key ys)" and "set xs = set ys"
  shows "find (\<lambda>e. key e = k) xs = find (\<lambda>e. key e = k) ys"
  using find_key [OF assms(1), of k] find_key [OF assms(2), of k] assms(3)
  by (metis not_None_eq)

lemma find_update_first [list_ops]:
  assumes "\<And>x. key (f x) = key x"
  shows "find (\<lambda>e. key e = k) (update_first (\<lambda>e. key e = k') f xs) =
    (if k = k' then map_option f (find (\<lambda>e. key e = k) xs) else find (\<lambda>e. key e = k) xs)"
  using assms by (induction xs) auto

lemma find_snoc [list_ops]:
  "find P (xs @ [x]) = (case find P xs of Some y \<Rightarrow> Some y | None \<Rightarrow> if P x then Some x else None)"
  by (induction xs) auto

lemma set_swap_remove: "i < length xs \<Longrightarrow> set (swap_remove i xs) \<subseteq> set xs"
  by (metis mset_swap_remove in_diffD set_mset_mset subsetI)

lemma mset_swap_remove_remove1: "i < length xs \<Longrightarrow> mset (swap_remove i xs) = mset (remove1 (xs ! i) xs)"
  by (simp add: mset_swap_remove)

lemma set_swap_remove_distinct:
  "i < length xs \<Longrightarrow> distinct xs \<Longrightarrow> set (swap_remove i xs) = set xs - {xs ! i}"
  using mset_swap_remove_remove1 [of i xs] by (metis mset_eq_setD set_remove1_eq)

lemma distinct_key_swap_remove:
  assumes "i < length xs" and "distinct (map key xs)"
  shows "distinct (map key (swap_remove i xs))"
proof -
  have "distinct (map key (remove1 (xs ! i) xs))"
    using assms(2) by (auto simp: distinct_map intro: inj_on_subset set_remove1_subset [THEN subsetD])
  then show ?thesis
    using mset_swap_remove_remove1 [OF assms(1)] by (metis mset_eq_imp_distinct_iff mset_map)
qed

lemma find_swap_remove:
  assumes d: "distinct (map key xs)" and i: "i < length xs"
  shows "find (\<lambda>e. key e = k) (swap_remove i xs) =
    (if k = key (xs ! i) then None else find (\<lambda>e. key e = k) xs)"
proof -
  have s: "set (swap_remove i xs) = set xs - {xs ! i}"
    using d i by (simp add: set_swap_remove_distinct distinct_map)
  note d' = distinct_key_swap_remove [OF i d]
  have inj: "x = xs ! i" if "x \<in> set xs" "key x = key (xs ! i)" for x
    using that d i by (meson distinct_map inj_onD nth_mem)
  show ?thesis
  proof (cases "find (\<lambda>e. key e = k) (swap_remove i xs)")
    case None
    then have "k \<notin> key ` (set xs - {xs ! i})" by (simp add: find_None_key s)
    then have "k \<noteq> key (xs ! i) \<Longrightarrow> find (\<lambda>e. key e = k) xs = None"
      by (auto simp: find_None_key)
    with None show ?thesis by simp
  next
    case (Some x)
    then have "x \<in> set xs" "x \<noteq> xs ! i" "key x = k"
      using s find_key [OF d'] by auto
    then show ?thesis using Some inj find_key [OF d, of k x] by auto
  qed
qed

lemma set_swap_removeD: "x \<in> set (swap_remove i xs) \<Longrightarrow> i < length xs \<Longrightarrow> x \<in> set xs"
  using set_swap_remove by blast

lemma nth_swap_remove: "j < i \<Longrightarrow> i < length xs \<Longrightarrow> swap_remove i xs ! j = xs ! j"
  by (simp add: swap_remove_def nth_butlast)

lemma find_filter_key:
  assumes "distinct (map key xs)"
  shows "find (\<lambda>e. key e = k) (filter P xs) =
    (case find (\<lambda>e. key e = k) xs of Some e \<Rightarrow> if P e then Some e else None | None \<Rightarrow> None)"
  using assms
proof (induction xs)
  case (Cons x xs)
  have "find (\<lambda>e. key e = key x) xs = None" using Cons.prems by (simp add: find_None_key)
  with Cons show ?case by auto
qed simp

lemma and_push_bit_1: "n < 64 \<Longrightarrow> w AND push_bit n 1 \<noteq> 0 \<longleftrightarrow> bit w n" for w :: u64
  by (metis and_exp_eq_0_iff_not_bit push_bit_of_1)

lemma length_filter_update:
  "i < length xs \<Longrightarrow>
   length (filter P (xs[i := x])) + (if P (xs ! i) then 1 else 0) =
   length (filter P xs) + (if P x then 1 else 0)"
proof (induction xs arbitrary: i)
  case (Cons y ys)
  then show ?case by (cases i) auto
qed simp

lemma filter_update_same:
  assumes "i < length xs" and "P x \<longleftrightarrow> P (xs ! i)"
  shows "length (filter P (xs[i := x])) = length (filter P xs)"
  using length_filter_update [OF assms(1), of P x] assms(2) by (simp split: if_splits)

subsection \<open>Byte order\<close>

lemma u16_from_to_be [simp]: "u16_from_be (ucast (drop_bit 8 w)) (ucast (w :: u16)) = w"
  by (rule bit_word_eqI) (auto simp: u16_from_be_def bit_simps)

lemma u32_from_to_be [simp]:
  "u32_from_be (ucast (drop_bit 24 w)) (ucast (drop_bit 16 w)) (ucast (drop_bit 8 w)) (ucast (w :: u32)) = w"
proof (rule bit_word_eqI)
  fix n :: nat
  assume "n < LENGTH(32)"
  then show "bit (u32_from_be (ucast (drop_bit 24 w)) (ucast (drop_bit 16 w)) (ucast (drop_bit 8 w))
      (ucast w)) n = bit w n"
    by (cases "n < 8"; cases "n < 16"; cases "n < 24") (auto simp: u32_from_be_def bit_simps)
qed

lemma u16_from_to_le [simp]: "u16_from_le (ucast w) (ucast (drop_bit 8 (w :: u16))) = w"
  by (simp add: u16_from_le_def)

lemma u32_from_to_le [simp]:
  "u32_from_le (ucast w) (ucast (drop_bit 8 w)) (ucast (drop_bit 16 w)) (ucast (drop_bit 24 (w :: u32))) = w"
  by (simp add: u32_from_le_def)

subsection \<open>Copying into a slice\<close>

lemma length_copy_into [simp]: "off + length input \<le> length data \<Longrightarrow> length (copy_into data off input) = length data"
  by (simp add: copy_into_def)

lemma nth_copy_into:
  "off + length input \<le> length data \<Longrightarrow> i < length data \<Longrightarrow>
   copy_into data off input ! i = (if off \<le> i \<and> i < off + length input then input ! (i - off) else data ! i)"
  by (auto simp: copy_into_def nth_append min_def)

end
