(* ===== verification/Security.thy ===== *)
theory Security
  imports Prelude
begin

text \<open>
  Credentials and discretionary access control (\<open>kernel/src/security/mod.rs\<close>).
  \<open>can_access\<close> is the single permission decision of the kernel: the VFS calls
  it for every path component and every open.  The lemmas show that the
  shift-and-mask code computes the POSIX rule: exactly one of the three
  permission classes applies, and its three mode bits decide.
\<close>

section \<open>Definitions\<close>

type_synonym UserId = u32
type_synonym GroupId = u32

definition ROOT_UID :: UserId where "ROOT_UID = 0"
definition ROOT_GID :: GroupId where "ROOT_GID = 0"

record Credentials =
  uid :: UserId
  gid :: GroupId
  euid :: UserId
  egid :: GroupId
  suid :: UserId
  sgid :: GroupId
  groups :: "GroupId list"
  group_count :: usize

datatype FileMode = FileMode u16

record FileMetadata =
  owner :: UserId
  group :: GroupId
  mode :: FileMode

datatype Access = Read | Write | Execute

definition Credentials_root :: Credentials where
  "Credentials_root =
     \<lparr>uid = ROOT_UID, gid = ROOT_GID, euid = ROOT_UID, egid = ROOT_GID,
      suid = ROOT_UID, sgid = ROOT_GID, groups = [ROOT_GID, 0, 0, 0, 0, 0, 0, 0],
      group_count = 1\<rparr>"

definition Credentials_user :: "UserId \<Rightarrow> GroupId \<Rightarrow> Credentials" where
  "Credentials_user u g =
     \<lparr>uid = u, gid = g, euid = u, egid = g, suid = u, sgid = g,
      groups = [g, 0, 0, 0, 0, 0, 0, 0], group_count = 1\<rparr>"

definition is_superuser :: "Credentials \<Rightarrow> bool" where
  "is_superuser c \<longleftrightarrow> euid c = ROOT_UID"

definition in_group :: "Credentials \<Rightarrow> GroupId \<Rightarrow> bool" where
  "in_group c g =
     (if egid c = g then True
      else list_ex (\<lambda>candidate. candidate = g)
             (take (min (group_count c) (length (groups c))) (groups c)))"

fun FileMode_bit :: "FileMode \<Rightarrow> Access \<Rightarrow> nat \<Rightarrow> bool" where
  "FileMode_bit (FileMode bits) access shift =
     (let b = (case access of Read \<Rightarrow> 4 | Write \<Rightarrow> 2 | Execute \<Rightarrow> 1)
      in bits AND push_bit shift b \<noteq> 0)"

definition FileMetadata_new :: "UserId \<Rightarrow> GroupId \<Rightarrow> u16 \<Rightarrow> FileMetadata" where
  "FileMetadata_new o' g m = \<lparr>owner = o', group = g, mode = FileMode m\<rparr>"

definition can_access :: "FileMetadata \<Rightarrow> Credentials \<Rightarrow> Access \<Rightarrow> bool" where
  "can_access m creds access =
     (if is_superuser creds then True
      else if euid creds = owner m then FileMode_bit (mode m) access 6
      else if in_group creds (group m) then FileMode_bit (mode m) access 3
      else FileMode_bit (mode m) access 0)"

text \<open>
  The rule the code implements, stated over the bit positions of the mode
  word: the class of the caller selects a group of three bits.
\<close>

datatype PermClass = OwnerClass | GroupClass | OtherClass

definition perm_class :: "FileMetadata \<Rightarrow> Credentials \<Rightarrow> PermClass" where
  "perm_class m c =
     (if euid c = owner m then OwnerClass
      else if egid c = group m \<or> group m \<in> set (take (group_count c) (groups c)) then GroupClass
      else OtherClass)"

fun perm_bit :: "PermClass \<Rightarrow> Access \<Rightarrow> nat" where
  "perm_bit OwnerClass Read = 8"
| "perm_bit OwnerClass Write = 7"
| "perm_bit OwnerClass Execute = 6"
| "perm_bit GroupClass Read = 5"
| "perm_bit GroupClass Write = 4"
| "perm_bit GroupClass Execute = 3"
| "perm_bit OtherClass Read = 2"
| "perm_bit OtherClass Write = 1"
| "perm_bit OtherClass Execute = 0"

fun mode_bits :: "FileMode \<Rightarrow> u16" where
  "mode_bits (FileMode b) = b"

section \<open>Lemmas\<close>

lemma and_exp_nonzero: "(w AND push_bit n 1 \<noteq> 0) = bit w n" for w :: u16
  by (simp add: push_bit_eq_mult bit_iff_and_push_bit_not_eq_0)

lemma FileMode_bit_iff:
  "FileMode_bit fm access shift =
     bit (mode_bits fm) (shift + (case access of Read \<Rightarrow> 2 | Write \<Rightarrow> 1 | Execute \<Rightarrow> 0))"
proof -
  have "(4 :: u16) = push_bit 2 1" and "(2 :: u16) = push_bit 1 1"
    by simp_all
  then show ?thesis
    by (cases fm; cases access)
       (simp_all only: FileMode_bit.simps Let_def Access.case push_bit_push_bit and_exp_nonzero
         mode_bits.simps Access.simps add_0_right)
qed

lemma in_group_iff:
  "in_group c g \<longleftrightarrow> egid c = g \<or> g \<in> set (take (group_count c) (groups c))"
  by (auto simp: in_group_def list_ex_iff min_def split: if_splits)

text \<open>
  C26: the permission check grants an access exactly when the caller is the
  superuser or the mode bit of the caller's permission class is set; in
  particular the owner is never granted an access by the group or other bits.
\<close>

theorem can_access_posix:
  "can_access m c a \<longleftrightarrow>
     euid c = 0 \<or> bit (mode_bits (mode m)) (perm_bit (perm_class m c) a)"
  by (cases a)
     (simp_all add: can_access_def is_superuser_def ROOT_UID_def FileMode_bit_iff
       in_group_iff perm_class_def numeral_2_eq_2)

end
