(* ===== verification/Signals.thy ===== *)
theory Signals
  imports Prelude
begin

text \<open>
  Signal numbers and dispositions (\<open>kernel/src/signal/mod.rs\<close>) together with
  the status encodings the process layer uses for them
  (\<open>kernel/src/process/mod.rs\<close>).  A status is an \<open>i32\<close>, modelled as
  \<^typ>\<open>int\<close>; signal numbers are \<open>u8\<close> values, modelled as \<^typ>\<open>nat\<close>; signal
  sets are 64-bit words.  \<open>send\<close> and \<open>send_pgrp\<close> live with the process table.
\<close>

section \<open>Definitions\<close>

definition DEFAULT_HANDLER :: usize where "DEFAULT_HANDLER = 0"
definition IGNORE_HANDLER :: usize where "IGNORE_HANDLER = 1"

datatype Signal =
    Hup | Term | Kill | Stop | Signal_Int | Ill | Trap | Abrt | Bus | Fpe | Segv | Usr1 | Usr2
  | Pipe | Alarm | Tstp | Ttin | Ttou | Cont | Urg | Xcpu | Xfsz | Vtalrm | Prof | Winch
  | Io | Pwr | Sys | Quit | Child

definition from_number :: "nat \<Rightarrow> Signal option" where
  "from_number n =
     (if n = 1 then Some Hup else if n = 2 then Some Signal_Int else if n = 3 then Some Quit
      else if n = 4 then Some Ill else if n = 5 then Some Trap else if n = 6 then Some Abrt
      else if n = 7 then Some Bus else if n = 8 then Some Fpe else if n = 9 then Some Kill
      else if n = 10 then Some Usr1 else if n = 11 then Some Segv else if n = 12 then Some Usr2
      else if n = 13 then Some Pipe else if n = 14 then Some Alarm else if n = 15 then Some Term
      else if n = 17 then Some Child else if n = 18 then Some Cont else if n = 19 then Some Stop
      else if n = 20 then Some Tstp else if n = 21 then Some Ttin else if n = 22 then Some Ttou
      else if n = 23 then Some Urg else if n = 24 then Some Xcpu else if n = 25 then Some Xfsz
      else if n = 26 then Some Vtalrm else if n = 27 then Some Prof else if n = 28 then Some Winch
      else if n = 29 then Some Io else if n = 30 then Some Pwr else if n = 31 then Some Sys
      else None)"

fun number :: "Signal \<Rightarrow> nat" where
  "number Hup = 1"
| "number Signal_Int = 2"
| "number Quit = 3"
| "number Ill = 4"
| "number Trap = 5"
| "number Abrt = 6"
| "number Bus = 7"
| "number Fpe = 8"
| "number Kill = 9"
| "number Usr1 = 10"
| "number Segv = 11"
| "number Usr2 = 12"
| "number Pipe = 13"
| "number Alarm = 14"
| "number Term = 15"
| "number Child = 17"
| "number Cont = 18"
| "number Stop = 19"
| "number Tstp = 20"
| "number Ttin = 21"
| "number Ttou = 22"
| "number Urg = 23"
| "number Xcpu = 24"
| "number Xfsz = 25"
| "number Vtalrm = 26"
| "number Prof = 27"
| "number Winch = 28"
| "number Io = 29"
| "number Pwr = 30"
| "number Sys = 31"

definition default_status :: "Signal \<Rightarrow> int" where
  "default_status s = 128 + int (number s)"

fun has_stop_default :: "Signal \<Rightarrow> bool" where
  "has_stop_default s = (case s of Stop \<Rightarrow> True | Tstp \<Rightarrow> True | Ttin \<Rightarrow> True | Ttou \<Rightarrow> True | _ \<Rightarrow> False)"

fun has_ignore_default :: "Signal \<Rightarrow> bool" where
  "has_ignore_default s =
     (case s of Child \<Rightarrow> True | Cont \<Rightarrow> True | Urg \<Rightarrow> True | Winch \<Rightarrow> True | _ \<Rightarrow> False)"

subsection \<open>Status encodings of the process layer\<close>

datatype ExitReason = Exited int | Signaled nat

fun legacy_status :: "ExitReason \<Rightarrow> int" where
  "legacy_status (Exited status) = status"
| "legacy_status (Signaled signal) = 128 + int signal"

definition signal_from_legacy_status :: "int \<Rightarrow> nat option" where
  "signal_from_legacy_status status =
     (if status < 128 then None
      else let signal = status - 128 in
           if 1 \<le> signal \<and> signal < 64 then Some (nat signal) else None)"

definition is_uncatchable_signal :: "nat \<Rightarrow> bool" where
  "is_uncatchable_signal signal \<longleftrightarrow> signal = number Kill \<or> signal = number Stop"

definition sanitized_signal_mask :: "u64 \<Rightarrow> u64" where
  "sanitized_signal_mask m =
     m AND NOT (push_bit (number Kill) 1 OR push_bit (number Stop) 1)"

definition stop_signal_from_status :: "int \<Rightarrow> nat option" where
  "stop_signal_from_status status =
     (case Option.bind (signal_from_legacy_status status) from_number of
        None \<Rightarrow> None
      | Some signal \<Rightarrow> if has_stop_default signal then Some (number signal) else None)"

section \<open>Lemmas\<close>

lemma from_number_number [simp]: "from_number (number s) = Some s"
  by (cases s) (simp_all add: from_number_def)

lemma from_number_Some: "from_number n = Some s \<Longrightarrow> number s = n"
  by (auto simp: from_number_def split: if_splits)

lemma number_bounds: "0 < number s" "number s < 32"
  by (cases s; simp)+

lemma number_inject [simp]: "number s = number t \<longleftrightarrow> s = t"
  by (metis from_number_number option.inject)

lemma from_number_eq_Some: "from_number n = Some s \<longleftrightarrow> n = number s"
  using from_number_Some by auto

lemma signal_from_legacy_status_Some:
  "signal_from_legacy_status st = Some n \<longleftrightarrow> 1 \<le> n \<and> n < 64 \<and> st = 128 + int n"
  by (auto simp: signal_from_legacy_status_def Let_def split: if_splits)

lemma signal_from_default_status [simp]:
  "signal_from_legacy_status (default_status s) = Some (number s)"
  using number_bounds [of s] by (simp add: signal_from_legacy_status_Some default_status_def)

lemma signal_from_legacy_signaled:
  "1 \<le> n \<Longrightarrow> n < 64 \<Longrightarrow> signal_from_legacy_status (legacy_status (Signaled n)) = Some n"
  by (simp add: signal_from_legacy_status_Some)

lemma bit_clear_two:
  "bit (m AND NOT (push_bit a 1 OR push_bit b 1)) n \<longleftrightarrow> bit m n \<and> n \<noteq> a \<and> n \<noteq> b" for m :: u64
  by (auto simp: bit_simps dest: bit_imp_le_length)

lemma bit_sanitized_signal_mask:
  "bit (sanitized_signal_mask m) n \<longleftrightarrow> bit m n \<and> \<not> is_uncatchable_signal n"
  unfolding sanitized_signal_mask_def is_uncatchable_signal_def bit_clear_two by simp

lemma sanitized_signal_mask_idem [simp]:
  "sanitized_signal_mask (sanitized_signal_mask m) = sanitized_signal_mask m"
  by (rule bit_word_eqI) (simp add: bit_sanitized_signal_mask)

lemma stop_signal_from_default_status [simp]:
  "stop_signal_from_status (default_status s) =
     (if has_stop_default s then Some (number s) else None)"
  by (simp add: stop_signal_from_status_def)

lemma stop_signal_from_status_Some:
  "stop_signal_from_status st = Some n \<Longrightarrow> n \<in> {19, 20, 21, 22} \<and> st = 128 + int n"
  by (auto simp: stop_signal_from_status_def signal_from_legacy_status_Some from_number_eq_Some
      bind_eq_Some_conv split: option.splits if_splits Signal.splits)

text \<open>
  The numeric interface of signals is a faithful encoding: a number decodes
  to a signal exactly when it is that signal's number, and the wait status
  128 + n of a signal decodes to the same signal through the process layer.
\<close>

theorem signal_number_roundtrip:
  "(from_number n = Some s) = (n = number s) \<and>
   Option.bind (signal_from_legacy_status (default_status s)) from_number = Some s"
  by (simp add: from_number_eq_Some)

end
