(* ===== verification/Multiboot.thy ===== *)
theory Multiboot
  imports Prelude
begin

text \<open>
  The Multiboot2 information block the boot loader hands to the kernel
  (\<open>kernel/src/multiboot.rs\<close>).  Physical memory is a function from addresses
  to bytes; the raw-pointer reads of the source are little-endian reads of it.
  The iterators are state-passing \<open>next\<close> functions; \<open>collect_tags\<close> is the loop
  a caller runs over them, a partial function because a tag size near the top
  of the address space makes the wrapping \<open>align_up\<close> step backwards.
  The lemmas give the bound under which every iteration ends and show that the
  tags found lie inside the block and do not overlap.
\<close>

section \<open>Definitions\<close>

type_synonym phys_mem = "usize \<Rightarrow> u8"

definition TAG_END :: u32 where "TAG_END = 0"
definition TAG_CMDLINE :: u32 where "TAG_CMDLINE = 1"
definition TAG_BOOTLOADER_NAME :: u32 where "TAG_BOOTLOADER_NAME = 2"
definition TAG_MODULE :: u32 where "TAG_MODULE = 3"
definition TAG_MMAP :: u32 where "TAG_MMAP = 6"
definition TAG_FRAMEBUFFER :: u32 where "TAG_FRAMEBUFFER = 8"
definition TAG_ACPI_OLD :: u32 where "TAG_ACPI_OLD = 14"
definition TAG_ACPI_NEW :: u32 where "TAG_ACPI_NEW = 15"
definition MEMORY_AVAILABLE :: u32 where "MEMORY_AVAILABLE = 1"

definition read_u32 :: "phys_mem \<Rightarrow> usize \<Rightarrow> u32" where
  "read_u32 mem a = u32_from_le (mem a) (mem (a + 1)) (mem (a + 2)) (mem (a + 3))"

definition read_u64 :: "phys_mem \<Rightarrow> usize \<Rightarrow> u64" where
  "read_u64 mem a = u64_from_le (map (\<lambda>i. mem (a + i)) [0..<8])"

definition read_slice :: "phys_mem \<Rightarrow> usize \<Rightarrow> usize \<Rightarrow> bytes" where
  "read_slice mem a len = map (\<lambda>i. mem (a + i)) [0..<len]"

record BootInfo =
  bi_addr :: usize
  bi_total_size :: u32

datatype LoadError = NullOrUnaligned | TooSmall

definition BootInfo_load :: "phys_mem \<Rightarrow> usize \<Rightarrow> (LoadError, BootInfo) result" where
  "BootInfo_load mem addr =
     (if addr = 0 \<or> (word_of_nat addr :: u64) AND 7 \<noteq> 0 then Err NullOrUnaligned
      else let total_size = read_u32 mem addr in
           if total_size < 16 then Err TooSmall
           else Ok \<lparr>bi_addr = addr, bi_total_size = total_size\<rparr>)"

definition BootInfo_range :: "BootInfo \<Rightarrow> usize \<times> usize" where
  "BootInfo_range bi = (bi_addr bi, bi_addr bi + unat (bi_total_size bi))"

record Tag =
  tag_typ :: u32
  tag_size :: u32
  tag_addr :: usize

definition payload :: "Tag \<Rightarrow> usize" where
  "payload tag = tag_addr tag + 8"

record TagIter =
  ti_current :: usize
  ti_end :: usize
  ti_done :: bool

definition TagIter_next :: "phys_mem \<Rightarrow> TagIter \<Rightarrow> Tag option \<times> TagIter" where
  "TagIter_next mem it =
     (if ti_done it \<or> ti_current it + 8 > ti_end it then (None, it)
      else
        let addr = ti_current it; typ = read_u32 mem addr; size = read_u32 mem (addr + 4) in
        if typ = TAG_END then (None, it\<lparr>ti_done := True\<rparr>)
        else if size < 8 then (None, it\<lparr>ti_done := True\<rparr>)
        else (Some \<lparr>tag_typ = typ, tag_size = size, tag_addr = addr\<rparr>,
              it\<lparr>ti_current := align_up (addr + unat size) 8\<rparr>))"

partial_function (option) collect_tags :: "phys_mem \<Rightarrow> TagIter \<Rightarrow> Tag list option" where
  "collect_tags mem it =
     (case TagIter_next mem it of
        (None, _) \<Rightarrow> Some []
      | (Some tag, it') \<Rightarrow> Option.bind (collect_tags mem it') (\<lambda>tags. Some (tag # tags)))"

definition BootInfo_tags :: "BootInfo \<Rightarrow> TagIter" where
  "BootInfo_tags bi =
     \<lparr>ti_current = bi_addr bi + 8, ti_end = bi_addr bi + unat (bi_total_size bi),
      ti_done = False\<rparr>"

definition find_tag :: "phys_mem \<Rightarrow> BootInfo \<Rightarrow> u32 \<Rightarrow> Tag option" where
  "find_tag mem bi typ =
     Option.bind (collect_tags mem (BootInfo_tags bi)) (find (\<lambda>tag. tag_typ tag = typ))"

definition read_c_string :: "phys_mem \<Rightarrow> usize \<Rightarrow> usize \<Rightarrow> bytes option" where
  "read_c_string mem addr max_len =
     (let bs = read_slice mem addr max_len in
      case position (\<lambda>byte. byte = 0) bs of None \<Rightarrow> None | Some len \<Rightarrow> from_utf8 (take len bs))"

definition find_string :: "phys_mem \<Rightarrow> BootInfo \<Rightarrow> u32 \<Rightarrow> bytes option" where
  "find_string mem bi typ =
     (case find_tag mem bi typ of
        None \<Rightarrow> None
      | Some tag \<Rightarrow> read_c_string mem (payload tag) (unat (tag_size tag) - 8))"

record MemoryMapEntry =
  base_addr :: u64
  mm_length :: u64
  mm_typ :: u32

definition is_available :: "MemoryMapEntry \<Rightarrow> bool" where
  "is_available e \<longleftrightarrow> mm_typ e = MEMORY_AVAILABLE"

text \<open>
  \<open>MemoryMapIter\<close>: every step advances by \<open>entry_size\<close>, which is at least 24.
\<close>

function memory_map_entries :: "phys_mem \<Rightarrow> usize \<Rightarrow> usize \<Rightarrow> usize \<Rightarrow> MemoryMapEntry list" where
  "memory_map_entries mem current end' entry_size =
     (if entry_size < 24 \<or> current + entry_size > end' then []
      else \<lparr>base_addr = read_u64 mem current, mm_length = read_u64 mem (current + 8),
            mm_typ = read_u32 mem (current + 16)\<rparr>
           # memory_map_entries mem (current + entry_size) end' entry_size)"
  by auto
termination
  by (relation "measure (\<lambda>(_, current, end', _). end' - current)") auto

declare memory_map_entries.simps [simp del]

definition BootInfo_memory_map :: "phys_mem \<Rightarrow> BootInfo \<Rightarrow> MemoryMapEntry list option" where
  "BootInfo_memory_map mem bi =
     (case find_tag mem bi TAG_MMAP of
        None \<Rightarrow> None
      | Some tag \<Rightarrow>
          if tag_size tag < 16 then None
          else let p = payload tag; entry_size = unat (read_u32 mem p) in
               Some (memory_map_entries mem (p + 8) (tag_addr tag + unat (tag_size tag)) entry_size))"

record Module =
  mod_start :: u32
  mod_end :: u32
  mod_command_line :: bytes

definition module_of_tag :: "phys_mem \<Rightarrow> Tag \<Rightarrow> Module option" where
  "module_of_tag mem tag =
     (if tag_typ tag \<noteq> TAG_MODULE \<or> tag_size tag < 16 then None
      else let p = payload tag in
           Some \<lparr>mod_start = read_u32 mem p, mod_end = read_u32 mem (p + 4),
                 mod_command_line =
                   (case read_c_string mem (p + 8) (unat (tag_size tag) - 16) of
                      None \<Rightarrow> [] | Some s \<Rightarrow> s)\<rparr>)"

definition BootInfo_modules :: "phys_mem \<Rightarrow> BootInfo \<Rightarrow> Module list" where
  "BootInfo_modules mem bi =
     (case collect_tags mem (BootInfo_tags bi) of
        None \<Rightarrow> []
      | Some tags \<Rightarrow> List.map_filter (module_of_tag mem) tags)"

definition Module_size :: "Module \<Rightarrow> usize" where
  "Module_size m = saturating_sub (unat (mod_end m)) (unat (mod_start m))"

record FramebufferInfo =
  fb_addr :: u64
  pitch :: u32
  width :: u32
  height :: u32
  bpp :: u8
  buffer_type :: u8
  red_field_position :: u8
  red_mask_size :: u8
  green_field_position :: u8
  green_mask_size :: u8
  blue_field_position :: u8
  blue_mask_size :: u8

definition read_optional_u8 :: "phys_mem \<Rightarrow> Tag \<Rightarrow> usize \<Rightarrow> u8" where
  "read_optional_u8 mem tag payload_offset =
     (let addr = payload tag + payload_offset in
      if addr < tag_addr tag + unat (tag_size tag) then mem addr else 0)"

definition BootInfo_framebuffer :: "phys_mem \<Rightarrow> BootInfo \<Rightarrow> FramebufferInfo option" where
  "BootInfo_framebuffer mem bi =
     (case find_tag mem bi TAG_FRAMEBUFFER of
        None \<Rightarrow> None
      | Some tag \<Rightarrow>
          if tag_size tag < 32 then None
          else let p = payload tag in
               Some \<lparr>fb_addr = read_u64 mem p, pitch = read_u32 mem (p + 8),
                     width = read_u32 mem (p + 12), height = read_u32 mem (p + 16),
                     bpp = mem (p + 20), buffer_type = mem (p + 21),
                     red_field_position = read_optional_u8 mem tag 24,
                     red_mask_size = read_optional_u8 mem tag 25,
                     green_field_position = read_optional_u8 mem tag 26,
                     green_mask_size = read_optional_u8 mem tag 27,
                     blue_field_position = read_optional_u8 mem tag 28,
                     blue_mask_size = read_optional_u8 mem tag 29\<rparr>)"

record AcpiRsdp =
  rsdp_addr :: usize
  rsdp_length :: usize
  rsdp_revision :: u8

definition acpi_rsdp :: "phys_mem \<Rightarrow> BootInfo \<Rightarrow> AcpiRsdp option" where
  "acpi_rsdp mem bi =
     (case (case find_tag mem bi TAG_ACPI_NEW of
              None \<Rightarrow> find_tag mem bi TAG_ACPI_OLD | Some tag \<Rightarrow> Some tag) of
        None \<Rightarrow> None
      | Some tag \<Rightarrow>
          if tag_size tag \<le> 8 then None
          else Some \<lparr>rsdp_addr = payload tag, rsdp_length = unat (tag_size tag) - 8,
                     rsdp_revision = mem (payload tag + 15)\<rparr>)"

text \<open>No address arithmetic of the tag walk wraps when the block ends below this bound.\<close>

definition walk_bound :: usize where
  "walk_bound = 2 ^ 63"

section \<open>Lemmas\<close>

lemma align_up_8:
  "v \<le> walk_bound + 2 ^ 32 \<Longrightarrow> align_up v 8 = (v + 7) div 8 * 8"
  using align_up_pow2 [of 3 v] by (simp add: USIZE_MAX_def walk_bound_def)

lemma TagIter_next_Some:
  assumes "TagIter_next mem it = (Some tag, it')" and "ti_end it \<le> walk_bound"
  shows "tag_addr tag = ti_current it" and "8 \<le> unat (tag_size tag)"
    and "ti_current it + unat (tag_size tag) \<le> ti_current it'"
    and "ti_current it + 8 \<le> ti_end it" and "ti_end it' = ti_end it" and "\<not> ti_done it'"
proof -
  from assms(1) have tag: "tag = \<lparr>tag_typ = read_u32 mem (ti_current it),
      tag_size = read_u32 mem (ti_current it + 4), tag_addr = ti_current it\<rparr>"
    and size: "\<not> tag_size tag < 8"
    and it': "it' = it\<lparr>ti_current := align_up (ti_current it + unat (tag_size tag)) 8\<rparr>"
    and cur: "\<not> ti_done it" "ti_current it + 8 \<le> ti_end it"
    by (auto simp: TagIter_next_def Let_def split: if_splits)
  show "tag_addr tag = ti_current it" using tag by simp
  show size8: "8 \<le> unat (tag_size tag)" using size by (simp add: word_less_nat_alt)
  have "unat (tag_size tag) < 2 ^ 32"
    using unsigned_less [of "tag_size tag"] by simp
  with cur assms(2) have "ti_current it + unat (tag_size tag) \<le> walk_bound + 2 ^ 32"
    by simp
  then show "ti_current it + unat (tag_size tag) \<le> ti_current it'"
    using align_up_bounds(1) [of 8 "ti_current it + unat (tag_size tag)"]
    by (simp add: it' align_up_8)
  show "ti_current it + 8 \<le> ti_end it" "ti_end it' = ti_end it" "\<not> ti_done it'"
    using cur it' by simp_all
qed

lemma collect_tags_None [simp]: "TagIter_next mem it = (None, it') \<Longrightarrow> collect_tags mem it = Some []"
  by (simp add: collect_tags.simps)

lemma collect_tags_Some [simp]:
  "TagIter_next mem it = (Some tag, it') \<Longrightarrow>
   collect_tags mem it = Option.bind (collect_tags mem it') (\<lambda>tags. Some (tag # tags))"
  by (subst collect_tags.simps) simp

lemma collect_tags_spec:
  assumes "ti_end it \<le> walk_bound"
  shows "\<exists>tags. collect_tags mem it = Some tags \<and>
    (\<forall>tag\<in>set tags. ti_current it \<le> tag_addr tag \<and> tag_addr tag + 8 \<le> ti_end it
       \<and> 8 \<le> unat (tag_size tag)) \<and>
    sorted_wrt (\<lambda>t u. tag_addr t + unat (tag_size t) \<le> tag_addr u) tags"
  using assms
proof (induction "ti_end it - ti_current it" arbitrary: it rule: less_induct)
  case less
  obtain r it' where next': "TagIter_next mem it = (r, it')" by fastforce
  show ?case
  proof (cases r)
    case None
    with next' show ?thesis by simp
  next
    case (Some tag)
    note step = TagIter_next_Some [OF next' [unfolded Some] less.prems]
    have "ti_end it' - ti_current it' < ti_end it - ti_current it" using step by simp
    from less.hyps [OF this] less.prems step(5) obtain tags where
      tags: "collect_tags mem it' = Some tags"
      and inside: "\<forall>t\<in>set tags. ti_current it' \<le> tag_addr t \<and> tag_addr t + 8 \<le> ti_end it
        \<and> 8 \<le> unat (tag_size t)"
      and sorted: "sorted_wrt (\<lambda>t u. tag_addr t + unat (tag_size t) \<le> tag_addr u) tags"
      by auto
    have "collect_tags mem it = Some (tag # tags)"
      using next' Some tags by simp
    moreover have "\<forall>t\<in>set tags. tag_addr tag + unat (tag_size tag) \<le> tag_addr t"
      using inside step(1,3) by fastforce
    ultimately show ?thesis
      using inside sorted step by fastforce
  qed
qed



end
