(* ===== verification/Frame_Allocator.thy ===== *)
theory Frame_Allocator
  imports Multiboot
begin

text \<open>
  The physical frame allocator (\<open>kernel/src/memory/frame_allocator.rs\<close>): a
  bitmap of 64-bit words, one bit per 4 KiB frame, a set bit meaning "in use".
  The abstraction is the set \<open>free_set\<close> of frame numbers whose bit is clear.
  Every operation is shown to act on that set, the free-frame counter is shown
  to be its cardinality, and the locale \<open>frame_pool\<close> is the contract paging
  code relies on, interpreted by \<open>allocate\<close> and \<open>free\<close>.
\<close>

section \<open>Definitions\<close>

definition FRAME_SIZE :: usize where "FRAME_SIZE = 4096"
definition MAX_PHYSICAL_MEMORY :: usize where "MAX_PHYSICAL_MEMORY = 16 * 1024 * 1024 * 1024"
definition MAX_FRAMES :: usize where "MAX_FRAMES = MAX_PHYSICAL_MEMORY div FRAME_SIZE"
definition BITMAP_WORDS :: usize where "BITMAP_WORDS = MAX_FRAMES div 64"

record Frame =
  frame_start :: usize

record FrameAllocator =
  bitmap :: "u64 list"
  max_frame :: usize
  total_frames :: usize
  free_frames :: usize
  initialized :: bool

definition FrameAllocator_new :: FrameAllocator where
  "FrameAllocator_new =
     \<lparr>bitmap = replicate BITMAP_WORDS (- 1), max_frame = 0, total_frames = 0,
      free_frames = 0, initialized = False\<rparr>"

definition frame_index :: "usize \<Rightarrow> usize" where
  "frame_index addr = addr div FRAME_SIZE"

definition words_for_frames :: "usize \<Rightarrow> usize" where
  "words_for_frames frames = (frames + 63) div 64"

definition set_used :: "FrameAllocator \<Rightarrow> usize \<Rightarrow> FrameAllocator" where
  "set_used a index =
     (let word = index div 64; b = index mod 64; mask' = push_bit b (1 :: u64) in
      if word < BITMAP_WORDS \<and> bitmap a ! word AND mask' = 0
      then a\<lparr>bitmap := (bitmap a)[word := bitmap a ! word OR mask'],
             free_frames := saturating_sub (free_frames a) 1\<rparr>
      else a)"

definition set_available :: "FrameAllocator \<Rightarrow> usize \<Rightarrow> FrameAllocator" where
  "set_available a index =
     (let word = index div 64; b = index mod 64; mask' = push_bit b (1 :: u64) in
      if word < BITMAP_WORDS \<and> bitmap a ! word AND mask' \<noteq> 0
      then a\<lparr>bitmap := (bitmap a)[word := bitmap a ! word AND NOT mask'],
             total_frames := total_frames a + 1,
             free_frames := free_frames a + 1\<rparr>
      else a)"

definition set_free :: "FrameAllocator \<Rightarrow> usize \<Rightarrow> FrameAllocator" where
  "set_free a index =
     (let word = index div 64; b = index mod 64; mask' = push_bit b (1 :: u64) in
      if word < BITMAP_WORDS \<and> bitmap a ! word AND mask' \<noteq> 0
      then a\<lparr>bitmap := (bitmap a)[word := bitmap a ! word AND NOT mask'],
             free_frames := free_frames a + 1\<rparr>
      else a)"

text \<open>The body of \<open>mark_range\<close>: the loop over frame addresses, left early at \<open>MAX_FRAMES\<close>.\<close>

function mark_loop :: "FrameAllocator \<Rightarrow> usize \<Rightarrow> usize \<Rightarrow> bool \<Rightarrow> FrameAllocator" where
  "mark_loop a addr end' used =
     (if addr \<ge> end' then a
      else let index = frame_index addr in
           if index \<ge> MAX_FRAMES then a
           else mark_loop (if used then set_used a index else set_available a index)
                  (addr + FRAME_SIZE) end' used)"
  by auto
termination
  by (relation "measure (\<lambda>(_, addr, end', _). end' - addr)") (auto simp: FRAME_SIZE_def)

declare mark_loop.simps [simp del]

definition mark_range :: "FrameAllocator \<Rightarrow> usize \<Rightarrow> usize \<Rightarrow> bool \<Rightarrow> FrameAllocator" where
  "mark_range a start end' used =
     mark_loop a (align_down start FRAME_SIZE) (align_up end' FRAME_SIZE) used"

definition init_entry :: "FrameAllocator \<Rightarrow> MemoryMapEntry \<Rightarrow> FrameAllocator" where
  "init_entry a entry =
     (let start = unat (base_addr entry); end' = saturating_add start (unat (mm_length entry)) in
      if is_available entry
      then mark_range
             (a\<lparr>max_frame := max (max_frame a) (frame_index (align_down end' FRAME_SIZE))\<rparr>)
             start end' False
      else a)"

text \<open>
  \<open>FrameAllocator::init\<close>.  \<open>kernel_end\<close> is the address of the linker symbol
  \<open>__kernel_end\<close>; the higher-half offset is removed from it.
\<close>

definition kernel_phys_end :: "usize \<Rightarrow> usize" where
  "kernel_phys_end kernel_end =
     (if kernel_end \<ge> 0xffffffff80000000 then kernel_end - 0xffffffff80000000 else kernel_end)"

definition reset_bitmap :: "FrameAllocator \<Rightarrow> FrameAllocator" where
  "reset_bitmap a =
     a\<lparr>bitmap := replicate (length (bitmap a)) (- 1), max_frame := 0, total_frames := 0,
       free_frames := 0\<rparr>"

definition mark_memory_map :: "phys_mem \<Rightarrow> BootInfo \<Rightarrow> FrameAllocator \<Rightarrow> FrameAllocator" where
  "mark_memory_map mem bi a =
     (case BootInfo_memory_map mem bi of
        None \<Rightarrow> a | Some memory_map \<Rightarrow> foldl init_entry a memory_map)"

definition FrameAllocator_init ::
    "usize \<Rightarrow> phys_mem \<Rightarrow> BootInfo \<Rightarrow> FrameAllocator \<Rightarrow> FrameAllocator" where
  "FrameAllocator_init kernel_end mem bi a =
     (let a1 = reset_bitmap a;
          a2 = mark_memory_map mem bi a1;
          a3 = mark_range a2 0 0x100000 True;
          a4 = mark_range a3 0x100000 (kernel_phys_end kernel_end) True;
          a5 = mark_range a4 (fst (BootInfo_range bi)) (snd (BootInfo_range bi)) True;
          a6 = foldl (\<lambda>s m. mark_range s (unat (mod_start m)) (unat (mod_end m)) True) a5
                 (BootInfo_modules mem bi);
          a7 = (case BootInfo_framebuffer mem bi of
                  None \<Rightarrow> a6
                | Some fb \<Rightarrow>
                    mark_range a6 (unat (fb_addr fb))
                      (unat (fb_addr fb) + unat (pitch fb) * unat (height fb)) True)
      in a7\<lparr>initialized := True\<rparr>)"

text \<open>The loop of \<open>allocate\<close> over the bitmap words from \<open>word_index\<close> on.\<close>

function allocate_scan :: "FrameAllocator \<Rightarrow> usize \<Rightarrow> usize \<Rightarrow> Frame option \<times> FrameAllocator" where
  "allocate_scan a word_index max_word =
     (if word_index \<ge> max_word then (None, a)
      else if bitmap a ! word_index = - 1 then allocate_scan a (word_index + 1) max_word
      else
        let b = trailing_zeros (NOT (bitmap a ! word_index)); index = word_index * 64 + b in
        if index \<ge> max_frame a then (None, a)
        else (Some \<lparr>frame_start = index * FRAME_SIZE\<rparr>, set_used a index))"
  by auto
termination
  by (relation "measure (\<lambda>(_, i, n). n - i)") auto

declare allocate_scan.simps [simp del]

definition allocate :: "FrameAllocator \<Rightarrow> Frame option \<times> FrameAllocator" where
  "allocate a =
     (if \<not> initialized a then (None, a)
      else allocate_scan a 0 (min (words_for_frames (max_frame a)) BITMAP_WORDS))"

definition free :: "FrameAllocator \<Rightarrow> Frame \<Rightarrow> FrameAllocator" where
  "free a frame =
     (let index = frame_index (frame_start frame) in
      if index < max_frame a then set_free a index else a)"

definition reserve_range :: "FrameAllocator \<Rightarrow> usize \<Rightarrow> usize \<Rightarrow> FrameAllocator" where
  "reserve_range a start end' = mark_range a start end' True"

subsection \<open>Abstraction\<close>

definition frame_free :: "FrameAllocator \<Rightarrow> usize \<Rightarrow> bool" where
  "frame_free a i \<longleftrightarrow> i < MAX_FRAMES \<and> \<not> bit (bitmap a ! (i div 64)) (i mod 64)"

definition free_set :: "FrameAllocator \<Rightarrow> usize set" where
  "free_set a = {i. frame_free a i}"

definition fa_inv :: "FrameAllocator \<Rightarrow> bool" where
  "fa_inv a \<longleftrightarrow> length (bitmap a) = BITMAP_WORDS \<and> free_frames a = card (free_set a)"

text \<open>The frames a byte range touches.\<close>

definition frames_of :: "usize \<Rightarrow> usize \<Rightarrow> usize set" where
  "frames_of start end' = {i. i < MAX_FRAMES \<and> start div FRAME_SIZE \<le> i \<and> i * FRAME_SIZE < end'}"

text \<open>The frames the allocator may hand out: the free ones below \<open>max_frame\<close>.\<close>

definition avail :: "FrameAllocator \<Rightarrow> usize set" where
  "avail a = {i \<in> free_set a. i < max_frame a}"

definition scan_set :: "FrameAllocator \<Rightarrow> usize \<Rightarrow> usize \<Rightarrow> usize set" where
  "scan_set a w n = {i \<in> free_set a. w * 64 \<le> i \<and> i < n * 64}"

text \<open>A run of n allocations, stopping at the first failure.\<close>

fun alloc_many :: "('s \<Rightarrow> Frame option \<times> 's) \<Rightarrow> nat \<Rightarrow> 's \<Rightarrow> Frame list \<times> 's" where
  "alloc_many alloc 0 s = ([], s)"
| "alloc_many alloc (Suc n) s =
     (case fst (alloc s) of
        None \<Rightarrow> ([], s)
      | Some f \<Rightarrow> (let (fs, s') = alloc_many alloc n (snd (alloc s)) in (f # fs, s')))"

text \<open>Frames made free and frames withheld at boot.\<close>

definition available_frames :: "MemoryMapEntry list \<Rightarrow> usize set" where
  "available_frames es = (\<Union>e\<in>{e \<in> set es. is_available e}.
     frames_of (unat (base_addr e)) (saturating_add (unat (base_addr e)) (unat (mm_length e))))"

definition framebuffer_frames :: "phys_mem \<Rightarrow> BootInfo \<Rightarrow> usize set" where
  "framebuffer_frames mem bi =
     (case BootInfo_framebuffer mem bi of
        None \<Rightarrow> {}
      | Some fb \<Rightarrow> frames_of (unat (fb_addr fb)) (unat (fb_addr fb) + unat (pitch fb) * unat (height fb)))"

definition reserved_frames :: "usize \<Rightarrow> phys_mem \<Rightarrow> BootInfo \<Rightarrow> usize set" where
  "reserved_frames kernel_end mem bi =
     frames_of 0 0x100000 \<union> frames_of 0x100000 (kernel_phys_end kernel_end) \<union>
     frames_of (fst (BootInfo_range bi)) (snd (BootInfo_range bi)) \<union>
     (\<Union>m\<in>set (BootInfo_modules mem bi). frames_of (unat (mod_start m)) (unat (mod_end m))) \<union>
     framebuffer_frames mem bi"

section \<open>Lemmas\<close>

lemma frame_consts:
  "MAX_FRAMES = 4194304" "BITMAP_WORDS = 65536" "FRAME_SIZE = 4096" "FRAME_SIZE = 2 ^ 12"
  by (simp_all add: MAX_FRAMES_def BITMAP_WORDS_def MAX_PHYSICAL_MEMORY_def FRAME_SIZE_def)

lemma word_of_frame: "i < MAX_FRAMES \<longleftrightarrow> i div 64 < BITMAP_WORDS"
  by (simp add: frame_consts div_less_iff_less_mult)

lemma and_bit_mask: "(w AND 2 ^ n = 0) = (\<not> bit w n)" for w :: u64
  by (metis bit_iff_and_push_bit_not_eq_0 push_bit_of_1)

lemma frame_number_eq: "(i div 64 = j div 64 \<and> i mod 64 = j mod 64) = (i = j)" for i j :: nat
  by (metis div_mult_mod_eq)

lemma free_set_less: "i \<in> free_set a \<Longrightarrow> i < MAX_FRAMES"
  by (simp add: free_set_def frame_free_def)

lemma finite_free_set [simp, intro]: "finite (free_set a)"
  by (rule finite_subset [of _ "{..<MAX_FRAMES}"]) (auto simp: free_set_def frame_free_def)

lemma bit_update_frame:
  assumes "length bm = BITMAP_WORDS" and "i < MAX_FRAMES" and "j < MAX_FRAMES"
  shows "bit (bm[i div 64 := bm ! (i div 64) OR 2 ^ (i mod 64)] ! (j div 64)) (j mod 64)
      \<longleftrightarrow> bit (bm ! (j div 64)) (j mod 64) \<or> i = j"
    and "bit (bm[i div 64 := bm ! (i div 64) AND NOT (2 ^ (i mod 64))] ! (j div 64)) (j mod 64)
      \<longleftrightarrow> bit (bm ! (j div 64) :: u64) (j mod 64) \<and> i \<noteq> j"
proof -
  have "i div 64 < length bm" "j div 64 < length bm"
    using assms by (simp_all add: word_of_frame)
  moreover have "j mod 64 < 64" "i mod 64 < 64" by simp_all
  ultimately show "bit (bm[i div 64 := bm ! (i div 64) OR 2 ^ (i mod 64)] ! (j div 64)) (j mod 64)
      \<longleftrightarrow> bit (bm ! (j div 64)) (j mod 64) \<or> i = j"
    and "bit (bm[i div 64 := bm ! (i div 64) AND NOT (2 ^ (i mod 64))] ! (j div 64)) (j mod 64)
      \<longleftrightarrow> bit (bm ! (j div 64) :: u64) (j mod 64) \<and> i \<noteq> j"
    using frame_number_eq [of i j] by (auto simp: nth_list_update bit_simps)
qed

lemma free_set_set_used:
  "length (bitmap a) = BITMAP_WORDS \<Longrightarrow> free_set (set_used a i) = free_set a - {i}"
  by (cases "i < MAX_FRAMES")
     (auto simp: free_set_def frame_free_def set_used_def Let_def and_bit_mask bit_update_frame
       word_of_frame [symmetric] bit_simps)

lemma free_set_set_available:
  "length (bitmap a) = BITMAP_WORDS \<Longrightarrow>
   free_set (set_available a i) = (if i < MAX_FRAMES then insert i (free_set a) else free_set a)"
  by (cases "i < MAX_FRAMES")
     (auto simp: free_set_def frame_free_def set_available_def Let_def and_bit_mask bit_update_frame
       word_of_frame [symmetric] bit_simps)

lemma free_set_set_free:
  "length (bitmap a) = BITMAP_WORDS \<Longrightarrow>
   free_set (set_free a i) = (if i < MAX_FRAMES then insert i (free_set a) else free_set a)"
  by (cases "i < MAX_FRAMES")
     (auto simp: free_set_def frame_free_def set_free_def Let_def and_bit_mask bit_update_frame
       word_of_frame [symmetric] bit_simps)

lemma set_ops_fields [simp]:
  "length (bitmap (set_used a i)) = length (bitmap a)"
  "length (bitmap (set_available a i)) = length (bitmap a)"
  "length (bitmap (set_free a i)) = length (bitmap a)"
  "max_frame (set_used a i) = max_frame a" "max_frame (set_free a i) = max_frame a"
  "max_frame (set_available a i) = max_frame a"
  "initialized (set_used a i) = initialized a" "initialized (set_free a i) = initialized a"
  "initialized (set_available a i) = initialized a"
  by (simp_all add: set_used_def set_available_def set_free_def Let_def)

lemma free_frames_set_used:
  "free_frames (set_used a i) = (if i \<in> free_set a then free_frames a - 1 else free_frames a)"
  by (auto simp: set_used_def Let_def and_bit_mask free_set_def frame_free_def word_of_frame
      saturating_sub_def)

lemma free_frames_set_free:
  "free_frames (set_free a i) =
     (if i < MAX_FRAMES \<and> i \<notin> free_set a then free_frames a + 1 else free_frames a)"
  by (auto simp: set_free_def Let_def and_bit_mask free_set_def frame_free_def word_of_frame)

lemma free_frames_set_available:
  "free_frames (set_available a i) =
     (if i < MAX_FRAMES \<and> i \<notin> free_set a then free_frames a + 1 else free_frames a)"
  by (auto simp: set_available_def Let_def and_bit_mask free_set_def frame_free_def word_of_frame)

lemma fa_inv_set_used: "fa_inv a \<Longrightarrow> fa_inv (set_used a i)"
  by (auto simp: fa_inv_def free_set_set_used free_frames_set_used)

lemma fa_inv_set_free: "fa_inv a \<Longrightarrow> fa_inv (set_free a i)"
  by (auto simp: fa_inv_def free_set_set_free free_frames_set_free insert_absorb)

lemma fa_inv_set_available: "fa_inv a \<Longrightarrow> fa_inv (set_available a i)"
  by (auto simp: fa_inv_def free_set_set_available free_frames_set_available insert_absorb)

lemmas fa_inv_ops = fa_inv_set_used fa_inv_set_free fa_inv_set_available

lemma fa_inv_new: "fa_inv (FrameAllocator_new\<lparr>initialized := b, max_frame := m\<rparr>)"
proof -
  have "free_set (FrameAllocator_new\<lparr>initialized := b, max_frame := m\<rparr>) = {}"
    by (simp add: free_set_def frame_free_def FrameAllocator_new_def word_of_frame)
  then show ?thesis
    by (simp add: fa_inv_def FrameAllocator_new_def)
qed

subsection \<open>Marking ranges\<close>

lemma mark_loop_fields:
  "length (bitmap (mark_loop a addr e u)) = length (bitmap a) \<and>
   max_frame (mark_loop a addr e u) = max_frame a \<and>
   initialized (mark_loop a addr e u) = initialized a \<and>
   (fa_inv a \<longrightarrow> fa_inv (mark_loop a addr e u))"
proof (induction a addr e u rule: mark_loop.induct)
  case (1 a addr e u)
  show ?case
  proof (cases "addr < e \<and> frame_index addr < MAX_FRAMES")
    case True
    then have "mark_loop a addr e u =
        mark_loop (if u then set_used a (frame_index addr) else set_available a (frame_index addr))
          (addr + FRAME_SIZE) e u"
      by (subst mark_loop.simps) (simp add: Let_def)
    then show ?thesis
      using 1 [OF _ refl] True fa_inv_ops by auto
  next
    case False
    then have "mark_loop a addr e u = a"
      by (subst mark_loop.simps) (auto simp: Let_def)
    then show ?thesis by simp
  qed
qed

lemma free_set_mark_loop:
  assumes "length (bitmap a) = BITMAP_WORDS" and "FRAME_SIZE dvd addr"
  shows "free_set (mark_loop a addr e u) =
    (if u then free_set a - frames_of addr e else free_set a \<union> frames_of addr e)"
  using assms
proof (induction a addr e u rule: mark_loop.induct)
  case (1 a addr e u)
  obtain k where k: "addr = FRAME_SIZE * k" using 1(3) by blast
  have idx: "frame_index addr = k" by (simp add: frame_index_def k frame_consts)
  show ?case
  proof (cases "addr < e \<and> k < MAX_FRAMES")
    case False
    then have "frames_of addr e = {}"
      by (auto simp: frames_of_def k frame_consts)
    moreover have "mark_loop a addr e u = a"
      using False idx by (subst mark_loop.simps) (auto simp: Let_def)
    ultimately show ?thesis by simp
  next
    case True
    let ?a = "if u then set_used a k else set_available a k"
    have step: "mark_loop a addr e u = mark_loop ?a (addr + FRAME_SIZE) e u"
      using True idx by (subst mark_loop.simps) (simp add: Let_def)
    have IH: "free_set (mark_loop ?a (addr + FRAME_SIZE) e u) =
      (if u then free_set ?a - frames_of (addr + FRAME_SIZE) e
       else free_set ?a \<union> frames_of (addr + FRAME_SIZE) e)"
      using 1(1) [OF _ refl] True 1(2,3) unfolding idx by (cases u) simp_all
    have "frames_of addr e = insert k (frames_of (addr + FRAME_SIZE) e)"
      using True by (auto simp: frames_of_def k frame_consts)
    then show ?thesis
      using True 1(2) unfolding step IH
      by (auto simp: free_set_set_used free_set_set_available)
  qed
qed

lemma frames_of_aligned:
  assumes "start \<le> USIZE_MAX" and "end' + FRAME_SIZE - 1 \<le> USIZE_MAX"
  shows "frames_of (align_down start FRAME_SIZE) (align_up end' FRAME_SIZE) = frames_of start end'"
proof -
  have "align_down start FRAME_SIZE = start div FRAME_SIZE * FRAME_SIZE"
    using align_down_pow2 [of 12 start] assms by (simp add: frame_consts)
  moreover have "align_up end' FRAME_SIZE = (end' + FRAME_SIZE - 1) div FRAME_SIZE * FRAME_SIZE"
    using align_up_pow2 [of 12 end'] assms by (simp add: frame_consts)
  moreover have "i * FRAME_SIZE < (end' + FRAME_SIZE - 1) div FRAME_SIZE * FRAME_SIZE
      \<longleftrightarrow> i * FRAME_SIZE < end'" for i
    using div_ceil_le [of FRAME_SIZE end' i] by (auto simp: frame_consts)
  ultimately show ?thesis
    by (auto simp: frames_of_def frame_consts(3))
qed

lemma align_down_frame_dvd: "start \<le> USIZE_MAX \<Longrightarrow> FRAME_SIZE dvd align_down start FRAME_SIZE"
  using align_down_pow2 [of 12 start] by (simp add: frame_consts)

lemma free_set_mark_range:
  assumes "length (bitmap a) = BITMAP_WORDS"
    and "start \<le> USIZE_MAX" and "end' + FRAME_SIZE - 1 \<le> USIZE_MAX"
  shows "free_set (mark_range a start end' u) =
    (if u then free_set a - frames_of start end' else free_set a \<union> frames_of start end')"
  using assms by (simp add: mark_range_def free_set_mark_loop align_down_frame_dvd frames_of_aligned)

lemma mark_range_fields [simp]:
  "length (bitmap (mark_range a s e u)) = length (bitmap a)"
  "max_frame (mark_range a s e u) = max_frame a"
  "initialized (mark_range a s e u) = initialized a"
  and fa_inv_mark_range [intro]: "fa_inv a \<Longrightarrow> fa_inv (mark_range a s e u)"
  using mark_loop_fields by (auto simp: mark_range_def)

lemma mark_range_used_subset:
  "length (bitmap a) = BITMAP_WORDS \<Longrightarrow> start \<le> USIZE_MAX \<Longrightarrow>
   free_set (mark_range a start e True) \<subseteq> free_set a"
  by (auto simp: mark_range_def free_set_mark_loop align_down_frame_dvd)

lemma align_up_wraps:
  assumes "v \<le> USIZE_MAX" and "USIZE_MAX < v + FRAME_SIZE - 1"
  shows "align_up v FRAME_SIZE = 0"
proof -
  have eq: "(word_of_nat v + word_of_nat (2 ^ 12) - 1 :: u64) = word_of_nat (v + 4095)"
    by simp
  have "unat (word_of_nat (v + 4095) :: u64) = (v + 4095) mod 2 ^ 64"
    by (simp only: unat_of_nat take_bit_eq_mod) simp
  also have "\<dots> < 4096"
    using assms by (auto simp: USIZE_MAX_def frame_consts(3) mod_if le_mod_geq)
  finally have "unat (word_of_nat (v + 4095) :: u64) div 2 ^ 12 = 0"
    by simp
  moreover have m: "(word_of_nat (2 ^ 12) :: u64) - 1 = mask 12"
    by (rule mask_word_of_nat) simp
  have "align_up v (2 ^ 12) = unat (word_of_nat (v + 4095) :: u64) div 2 ^ 12 * 2 ^ 12"
    unfolding align_up_def eq m word_and_not_mask unat_push_drop ..
  ultimately show ?thesis
    by (simp add: frame_consts)
qed

lemma mark_range_available_subset:
  assumes "length (bitmap a) = BITMAP_WORDS" and "start \<le> USIZE_MAX" and "end' \<le> USIZE_MAX"
  shows "free_set (mark_range a start end' False) \<subseteq> free_set a \<union> frames_of start end'"
proof (cases "end' + FRAME_SIZE - 1 \<le> USIZE_MAX")
  case True
  then show ?thesis using assms by (simp add: free_set_mark_range)
next
  case False
  then have "mark_range a start end' False = a"
    using assms align_up_wraps [of end'] by (simp add: mark_range_def mark_loop.simps)
  then show ?thesis by simp
qed

subsection \<open>Allocation\<close>

lemma scan_set_full_word:
  assumes "w < n" and "bitmap a ! w = - 1"
  shows "scan_set a w n = scan_set a (w + 1) n"
proof -
  have "i \<in> free_set a \<Longrightarrow> w * 64 \<le> i \<Longrightarrow> (w + 1) * 64 \<le> i" for i
  proof (rule ccontr)
    assume i: "i \<in> free_set a" "w * 64 \<le> i" "\<not> (w + 1) * 64 \<le> i"
    then have "i div 64 = w" by (simp add: div_nat_eqI)
    with i(1) assms(2) show False by (simp add: free_set_def frame_free_def)
  qed
  then show ?thesis using assms by (auto simp: scan_set_def)
qed

lemma scan_set_lowest:
  assumes "w < n" and "n \<le> BITMAP_WORDS" and "bitmap a ! w \<noteq> - 1"
  defines "i \<equiv> w * 64 + trailing_zeros (NOT (bitmap a ! w))"
  shows "i \<in> scan_set a w n" and "\<And>j. j \<in> scan_set a w n \<Longrightarrow> i \<le> j"
proof -
  have "NOT (bitmap a ! w) \<noteq> 0"
    using assms(3) by (metis bit.double_compl bit.compl_zero)
  note tz = trailing_zeros_lowest [OF this]
  have i: "i div 64 = w" "i mod 64 = trailing_zeros (NOT (bitmap a ! w))"
    using tz(1) by (simp_all add: i_def)
  then have "frame_free a i"
    using tz(1,2) assms(1,2) by (simp add: frame_free_def word_of_frame bit_simps)
  moreover have "i < n * 64"
    using i(1) assms(1) by (simp add: div_less_iff_less_mult [symmetric])
  ultimately show "i \<in> scan_set a w n"
    by (simp add: scan_set_def free_set_def i_def)
  fix j assume j: "j \<in> scan_set a w n"
  show "i \<le> j"
  proof (rule ccontr)
    assume "\<not> i \<le> j"
    with j tz(1) have "j div 64 = w" "j < w * 64 + trailing_zeros (NOT (bitmap a ! w))"
      by (auto simp: scan_set_def i_def div_nat_eqI)
    then have jw: "j div 64 = w" "j mod 64 < trailing_zeros (NOT (bitmap a ! w))"
      using div_mult_mod_eq [of j 64] by auto
    have "\<not> bit (NOT (bitmap a ! w)) (j mod 64)" by (rule tz(3) [OF jw(2)])
    with j jw show False
      by (simp add: scan_set_def free_set_def frame_free_def bit_simps)
  qed
qed

lemma allocate_scan_spec:
  assumes "n \<le> BITMAP_WORDS"
  shows "allocate_scan a w n =
    (let S = scan_set a w n in
     if S = {} \<or> Min S \<ge> max_frame a then (None, a)
     else (Some \<lparr>frame_start = Min S * FRAME_SIZE\<rparr>, set_used a (Min S)))"
  using assms
proof (induction a w n rule: allocate_scan.induct)
  case (1 a w n)
  consider (stop) "n \<le> w" | (full) "w < n" "bitmap a ! w = - 1" | (hit) "w < n" "bitmap a ! w \<noteq> - 1"
    by force
  then show ?case
  proof cases
    case stop
    then have "scan_set a w n = {}" by (auto simp: scan_set_def)
    with stop show ?thesis by (simp add: allocate_scan.simps)
  next
    case full
    then show ?thesis
      using 1 by (simp add: allocate_scan.simps [of a w] scan_set_full_word)
  next
    case hit
    let ?i = "w * 64 + trailing_zeros (NOT (bitmap a ! w))"
    have "finite (scan_set a w n)" by (simp add: scan_set_def)
    then have "Min (scan_set a w n) = ?i"
      using scan_set_lowest [OF hit(1) 1(2) hit(2)] by (intro Min_eqI) auto
    moreover have "scan_set a w n \<noteq> {}"
      using scan_set_lowest(1) [OF hit(1) 1(2) hit(2)] by blast
    ultimately show ?thesis
      using hit by (simp add: allocate_scan.simps [of a w] Let_def)
  qed
qed

lemma finite_avail [simp, intro]: "finite (avail a)"
  by (simp add: avail_def)

lemma allocate_eq:
  assumes "initialized a"
  shows "allocate a =
    (if avail a = {} then (None, a)
     else (Some \<lparr>frame_start = Min (avail a) * FRAME_SIZE\<rparr>, set_used a (Min (avail a))))"
proof -
  let ?n = "min (words_for_frames (max_frame a)) BITMAP_WORDS"
  let ?S = "scan_set a 0 ?n"
  have fin: "finite ?S" by (simp add: scan_set_def)
  have "i < BITMAP_WORDS * 64" if "i \<in> free_set a" for i
    using free_set_less [OF that] by (simp add: frame_consts)
  moreover have "max_frame a \<le> words_for_frames (max_frame a) * 64"
    unfolding words_for_frames_def by presburger
  ultimately have avail: "avail a = {i \<in> ?S. i < max_frame a}"
    by (fastforce simp: avail_def scan_set_def min_def)
  show ?thesis
  proof (cases "avail a = {}")
    case True
    then have "?S = {} \<or> max_frame a \<le> Min ?S"
      using avail Min_in [OF fin] by fastforce
    with True assms show ?thesis
      by (auto simp: allocate_def allocate_scan_spec Let_def)
  next
    case False
    then have ne: "?S \<noteq> {}" using avail by auto
    have "Min ?S < max_frame a"
      using False avail Min_le [OF fin] by fastforce
    then have "Min (avail a) = Min ?S"
      using avail Min_in [OF fin ne] Min_le [OF fin] by (intro Min_eqI) auto
    with False ne \<open>Min ?S < max_frame a\<close> assms show ?thesis
      by (auto simp: allocate_def allocate_scan_spec Let_def)
  qed
qed

lemma avail_set_used:
  "length (bitmap a) = BITMAP_WORDS \<Longrightarrow> avail (set_used a i) = avail a - {i}"
  by (auto simp: avail_def free_set_set_used)

lemma avail_free:
  "length (bitmap a) = BITMAP_WORDS \<Longrightarrow>
   avail (free a f) =
     (if frame_index (frame_start f) < min (max_frame a) MAX_FRAMES
      then insert (frame_index (frame_start f)) (avail a) else avail a)"
  by (auto simp: avail_def free_def Let_def free_set_set_free)

lemma fa_inv_length: "fa_inv a \<Longrightarrow> length (bitmap a) = BITMAP_WORDS"
  by (simp add: fa_inv_def)

lemma frame_index_mult [simp]: "frame_index (i * FRAME_SIZE) = i"
  by (simp add: frame_index_def frame_consts)

subsection \<open>Initialisation\<close>

lemma init_entry_props:
  assumes "fa_inv a"
  shows "fa_inv (init_entry a e)"
    and "free_set (init_entry a e) \<subseteq> free_set a \<union>
      (if is_available e
       then frames_of (unat (base_addr e)) (saturating_add (unat (base_addr e)) (unat (mm_length e)))
       else {})"
proof -
  have inv: "fa_inv (a\<lparr>max_frame := m\<rparr>)" and fs: "free_set (a\<lparr>max_frame := m\<rparr>) = free_set a" for m
    using assms by (simp_all add: fa_inv_def free_set_def frame_free_def)
  show "fa_inv (init_entry a e)"
    using assms inv by (auto simp: init_entry_def Let_def)
  have "unat (base_addr e) \<le> USIZE_MAX"
    by (rule unat_le_USIZE_MAX)
  moreover have "saturating_add (unat (base_addr e)) (unat (mm_length e)) \<le> USIZE_MAX"
    by (simp add: saturating_add_def)
  ultimately show "free_set (init_entry a e) \<subseteq> free_set a \<union>
      (if is_available e
       then frames_of (unat (base_addr e)) (saturating_add (unat (base_addr e)) (unat (mm_length e)))
       else {})"
    using mark_range_available_subset [OF fa_inv_length [OF inv], of _ _ _] fs
    by (auto simp: init_entry_def Let_def)
qed

lemma init_entries_props:
  assumes "fa_inv a"
  shows "fa_inv (foldl init_entry a es) \<and>
    free_set (foldl init_entry a es) \<subseteq> free_set a \<union> available_frames es"
  using assms
proof (induction es arbitrary: a)
  case Nil
  then show ?case by simp
next
  case (Cons e es)
  note step = init_entry_props [OF Cons.prems, of e]
  have "free_set (init_entry a e) \<subseteq> free_set a \<union> available_frames (e # es)"
    using step(2) by (auto simp: available_frames_def split: if_splits)
  moreover have "available_frames es \<subseteq> available_frames (e # es)"
    by (auto simp: available_frames_def)
  ultimately show ?case
    using Cons.IH [OF step(1)] by auto
qed

lemma init_available_phase:
  assumes "length (bitmap a) = BITMAP_WORDS"
  shows "fa_inv (mark_memory_map mem bi (reset_bitmap a))"
    and "free_set (mark_memory_map mem bi (reset_bitmap a)) \<subseteq>
      (case BootInfo_memory_map mem bi of None \<Rightarrow> {} | Some es \<Rightarrow> available_frames es)"
proof -
  have "free_set (reset_bitmap a) = {}"
    using assms(1) by (simp add: reset_bitmap_def free_set_def frame_free_def word_of_frame)
  moreover from this have "fa_inv (reset_bitmap a)"
    using assms(1) by (simp add: fa_inv_def) (simp add: reset_bitmap_def)
  ultimately show "fa_inv (mark_memory_map mem bi (reset_bitmap a))"
    and "free_set (mark_memory_map mem bi (reset_bitmap a)) \<subseteq>
      (case BootInfo_memory_map mem bi of None \<Rightarrow> {} | Some es \<Rightarrow> available_frames es)"
    using init_entries_props by (auto simp: mark_memory_map_def split: option.splits)
qed

lemma mark_used_props:
  assumes "fa_inv a" and "s \<le> USIZE_MAX" and "e + FRAME_SIZE - 1 \<le> USIZE_MAX"
  shows "fa_inv (mark_range a s e True) \<and> free_set (mark_range a s e True) = free_set a - frames_of s e"
  using assms by (simp add: fa_inv_mark_range free_set_mark_range fa_inv_length)

lemma mark_modules_props:
  assumes "fa_inv a"
  shows "fa_inv (foldl (\<lambda>s m. mark_range s (unat (mod_start m)) (unat (mod_end m)) True) a ms) \<and>
    free_set (foldl (\<lambda>s m. mark_range s (unat (mod_start m)) (unat (mod_end m)) True) a ms) =
      free_set a - (\<Union>m\<in>set ms. frames_of (unat (mod_start m)) (unat (mod_end m)))"
  using assms
proof (induction ms arbitrary: a)
  case Nil
  then show ?case by simp
next
  case (Cons m ms)
  have "unat (mod_start m) \<le> USIZE_MAX" "unat (mod_end m) + FRAME_SIZE - 1 \<le> USIZE_MAX"
    using unat_u32_less [of "mod_start m"] unat_u32_less [of "mod_end m"]
    by (simp_all add: USIZE_MAX_def frame_consts)
  note step = mark_used_props [OF Cons.prems this]
  then show ?case
    using Cons.IH [OF conjunct1 [OF step]] by auto
qed

section \<open>The contract of a frame pool\<close>

text \<open>
  What the paging code relies on: a pool hands out frames that were available
  and no longer are, fails only when nothing is available, and a released frame
  becomes available again.  \<open>valid i\<close> are the frame numbers the pool manages.
\<close>

locale frame_pool =
  fixes alloc :: "'s \<Rightarrow> Frame option \<times> 's"
    and release :: "'s \<Rightarrow> Frame \<Rightarrow> 's"
    and inv :: "'s \<Rightarrow> bool"
    and av :: "'s \<Rightarrow> usize set"
    and valid :: "'s \<Rightarrow> usize \<Rightarrow> bool"
  assumes alloc_inv: "inv s \<Longrightarrow> inv (snd (alloc s))"
    and alloc_valid: "inv s \<Longrightarrow> valid (snd (alloc s)) = valid s"
    and alloc_some: "inv s \<Longrightarrow> av s \<noteq> {} \<Longrightarrow>
      \<exists>i\<in>av s. fst (alloc s) = Some \<lparr>frame_start = i * FRAME_SIZE\<rparr> \<and> av (snd (alloc s)) = av s - {i}"
    and alloc_none: "inv s \<Longrightarrow> av s = {} \<Longrightarrow> alloc s = (None, s)"
    and release_inv: "inv s \<Longrightarrow> inv (release s f)"
    and release_valid: "inv s \<Longrightarrow> valid (release s f) = valid s"
    and release_av: "inv s \<Longrightarrow> valid s i \<Longrightarrow>
      av (release s \<lparr>frame_start = i * FRAME_SIZE\<rparr>) = insert i (av s)"
    and av_finite: "finite (av s)"
    and av_valid: "i \<in> av s \<Longrightarrow> valid s i"
begin

lemma alloc_many_spec:
  assumes "inv s"
  shows "\<exists>is. fst (alloc_many alloc n s) = map (\<lambda>i. \<lparr>frame_start = i * FRAME_SIZE\<rparr>) is \<and>
    distinct is \<and> set is \<subseteq> av s \<and> length is = min n (card (av s)) \<and>
    av (snd (alloc_many alloc n s)) = av s - set is \<and> inv (snd (alloc_many alloc n s)) \<and>
    valid (snd (alloc_many alloc n s)) = valid s"
  using assms
proof (induction n arbitrary: s)
  case 0
  then show ?case by simp
next
  case (Suc n)
  show ?case
  proof (cases "av s = {}")
    case True
    then show ?thesis using alloc_none [OF Suc.prems True] Suc.prems by simp
  next
    case False
    obtain i where i: "i \<in> av s" "fst (alloc s) = Some \<lparr>frame_start = i * FRAME_SIZE\<rparr>"
      "av (snd (alloc s)) = av s - {i}"
      using alloc_some [OF Suc.prems False] by blast
    let ?s = "snd (alloc s)"
    obtain "is" where is':
      "fst (alloc_many alloc n ?s) = map (\<lambda>i. \<lparr>frame_start = i * FRAME_SIZE\<rparr>) is"
      "distinct is" "set is \<subseteq> av s - {i}" "length is = min n (card (av s - {i}))"
      "av (snd (alloc_many alloc n ?s)) = av s - {i} - set is" "inv (snd (alloc_many alloc n ?s))"
      "valid (snd (alloc_many alloc n ?s)) = valid s"
      using Suc.IH [OF alloc_inv [OF Suc.prems]] i(3) alloc_valid [OF Suc.prems] by auto
    have "0 < card (av s)" using i(1) av_finite card_gt_0_iff by blast
    then have "length (i # is) = min (Suc n) (card (av s))"
      using is'(4) i(1) av_finite by simp
    then show ?thesis
      using is' i by (intro exI [of _ "i # is"])
        (auto simp: case_prod_beta split: option.splits)
  qed
qed

lemma release_many_spec:
  assumes "inv s" and "\<forall>i\<in>set is. valid s i"
  shows "av (foldl release s (map (\<lambda>i. \<lparr>frame_start = i * FRAME_SIZE\<rparr>) is)) = av s \<union> set is
    \<and> inv (foldl release s (map (\<lambda>i. \<lparr>frame_start = i * FRAME_SIZE\<rparr>) is))"
  using assms
proof (induction "is" arbitrary: s)
  case Nil
  then show ?case by simp
next
  case (Cons i "is")
  then have "inv (release s \<lparr>frame_start = i * FRAME_SIZE\<rparr>)"
    and "\<forall>j\<in>set is. valid (release s \<lparr>frame_start = i * FRAME_SIZE\<rparr>) j"
    using release_inv release_valid by auto
  from Cons.IH [OF this] Cons.prems release_av [of s i] show ?case by auto
qed

lemma alloc_release_roundtrip:
  assumes "inv s"
  shows "av (foldl release (snd (alloc_many alloc n s)) (fst (alloc_many alloc n s))) = av s"
proof -
  obtain "is" where is': "fst (alloc_many alloc n s) = map (\<lambda>i. \<lparr>frame_start = i * FRAME_SIZE\<rparr>) is"
    "set is \<subseteq> av s" "av (snd (alloc_many alloc n s)) = av s - set is"
    "inv (snd (alloc_many alloc n s))" "valid (snd (alloc_many alloc n s)) = valid s"
    using alloc_many_spec [OF assms] by blast
  have "\<forall>i\<in>set is. valid (snd (alloc_many alloc n s)) i"
    using is'(2,5) av_valid by auto
  from release_many_spec [OF is'(4) this] is'(2,3) show ?thesis
    by (auto simp: is'(1))
qed

end

interpretation fp: frame_pool allocate free "\<lambda>a. fa_inv a \<and> initialized a" avail
  "\<lambda>a i. i < min (max_frame a) MAX_FRAMES"
proof unfold_locales
  fix s :: FrameAllocator and f i
  assume s: "fa_inv s \<and> initialized s"
  note len = fa_inv_length [OF conjunct1 [OF s]]
  show "fa_inv (snd (allocate s)) \<and> initialized (snd (allocate s))"
    using s by (simp add: allocate_eq fa_inv_ops)
  show "(\<lambda>i. i < min (max_frame (snd (allocate s))) MAX_FRAMES) = (\<lambda>i. i < min (max_frame s) MAX_FRAMES)"
    using s by (simp add: allocate_eq)
  show "fa_inv (free s f) \<and> initialized (free s f)"
    using s by (simp add: free_def Let_def fa_inv_ops)
  show "(\<lambda>i. i < min (max_frame (free s f)) MAX_FRAMES) = (\<lambda>i. i < min (max_frame s) MAX_FRAMES)"
    by (simp add: free_def Let_def)
  show "avail s = {} \<Longrightarrow> allocate s = (None, s)"
    using s by (simp add: allocate_eq)
  show "avail s \<noteq> {} \<Longrightarrow> \<exists>i\<in>avail s. fst (allocate s) = Some \<lparr>frame_start = i * FRAME_SIZE\<rparr>
      \<and> avail (snd (allocate s)) = avail s - {i}"
    using s len by (intro bexI [of _ "Min (avail s)"]) (simp_all add: allocate_eq avail_set_used)
  show "i < min (max_frame s) MAX_FRAMES \<Longrightarrow>
      avail (free s \<lparr>frame_start = i * FRAME_SIZE\<rparr>) = insert i (avail s)"
    using len by (simp add: avail_free)
next
  show "finite (avail s)" and "i \<in> avail s \<Longrightarrow> i < min (max_frame s) MAX_FRAMES" for s i
    by (auto simp: avail_def dest: free_set_less)
qed

section \<open>Properties\<close>

text \<open>
  C3: a call of \<open>allocate\<close> on an initialised allocator fails exactly when no
  frame below \<open>max_frame\<close> is free; otherwise it returns the page-aligned
  address of the lowest such frame, removes exactly that frame from the free
  set and decrements the free-frame counter, which stays the number of clear
  bits.
\<close>

theorem allocate_correct:
  assumes "fa_inv a" and "initialized a"
  shows "case allocate a of
      (None, a') \<Rightarrow> a' = a \<and> (\<forall>i < max_frame a. \<not> frame_free a i)
    | (Some f, a') \<Rightarrow>
        (\<exists>i. frame_start f = i * FRAME_SIZE \<and> i < max_frame a \<and> frame_free a i
           \<and> (\<forall>j < i. \<not> frame_free a j)
           \<and> free_set a' = free_set a - {i} \<and> free_frames a' = free_frames a - 1
           \<and> fa_inv a' \<and> initialized a' \<and> max_frame a' = max_frame a)"
proof (cases "avail a = {}")
  case True
  then show ?thesis
    using assms by (auto simp: allocate_eq avail_def free_set_def)
next
  case False
  define i where "i = Min (avail a)"
  have i: "i \<in> avail a" and least: "\<And>j. j \<in> avail a \<Longrightarrow> i \<le> j"
    using False by (auto simp: i_def)
  have "\<not> frame_free a j" if "j < i" for j
    using least [of j] i that by (auto simp: avail_def free_set_def)
  moreover have "free_frames (set_used a i) = free_frames a - 1"
    using i by (simp add: free_frames_set_used avail_def)
  moreover have "i < max_frame a" and "frame_free a i"
    using i by (simp_all add: avail_def free_set_def)
  moreover have "allocate a = (Some \<lparr>frame_start = i * FRAME_SIZE\<rparr>, set_used a i)"
    using False assms(2) by (simp add: allocate_eq i_def)
  ultimately show ?thesis
    using assms by (auto simp: free_set_set_used [OF fa_inv_length] fa_inv_ops intro!: exI [of _ i])
qed

theorem allocate_correct_witness:
  "\<exists>i. frame_start (the (fst (allocate
        (set_available (FrameAllocator_new\<lparr>initialized := True, max_frame := 100\<rparr>) 70))))
      = i * FRAME_SIZE \<and> i < 100"
proof -
  let ?n = "FrameAllocator_new\<lparr>initialized := True, max_frame := 100\<rparr>"
  have inv: "fa_inv ?n" by (rule fa_inv_new)
  have "frame_free (set_available ?n 70) 70"
    using free_set_set_available [OF fa_inv_length [OF inv], of 70]
    by (simp add: free_set_def set_eq_iff frame_consts(1))
  then show ?thesis
    using allocate_correct [OF fa_inv_set_available [OF inv], of 70]
    by (cases "allocate (set_available ?n 70)"; cases "fst (allocate (set_available ?n 70))") auto
qed

text \<open>
  C4: allocations never alias.  Asking an initialised allocator for n frames
  yields min n (number of available frames) pairwise distinct frames, all of
  them previously available; freeing them again restores the available set.
\<close>

theorem allocations_distinct:
  assumes "fa_inv a" and "initialized a"
  shows "distinct (map frame_start (fst (alloc_many allocate n a))) \<and>
    (\<forall>f\<in>set (fst (alloc_many allocate n a)). frame_index (frame_start f) \<in> avail a) \<and>
    length (fst (alloc_many allocate n a)) = min n (card (avail a)) \<and>
    avail (foldl free (snd (alloc_many allocate n a)) (fst (alloc_many allocate n a))) = avail a"
proof -
  have inv: "fa_inv a \<and> initialized a" using assms by simp
  obtain "is" where is': "fst (alloc_many allocate n a) = map (\<lambda>i. \<lparr>frame_start = i * FRAME_SIZE\<rparr>) is"
    "distinct is" "set is \<subseteq> avail a" "length is = min n (card (avail a))"
    using fp.alloc_many_spec [OF inv] by blast
  have "distinct (map (\<lambda>i. i * FRAME_SIZE) is)"
    using is'(2) by (simp add: distinct_map inj_on_def frame_consts)
  then show ?thesis
    using is'(2,3,4) fp.alloc_release_roundtrip [OF inv, of n]
    by (auto simp: is'(1) comp_def)
qed

theorem allocations_distinct_witness:
  "distinct (map frame_start (fst (alloc_many allocate 3
     (set_available (FrameAllocator_new\<lparr>initialized := True, max_frame := 100\<rparr>) 70))))"
proof -
  have "fa_inv (set_available (FrameAllocator_new\<lparr>initialized := True, max_frame := 100\<rparr>) 70)"
    by (intro fa_inv_set_available fa_inv_new)
  from allocations_distinct [OF this, of 3] show ?thesis by simp
qed

text \<open>
  C10: boot-time initialisation establishes the allocator invariant and makes
  only frames touched by available memory-map entries free; no frame touched by
  the first megabyte, the kernel image, the boot information block, a boot
  module or the framebuffer is free, so none of them can be handed out.  The
  hypotheses say that the boot block and the framebuffer do not wrap around the
  end of the address space.
\<close>

theorem init_reserves:
  assumes "length (bitmap a) = BITMAP_WORDS" and "kernel_end \<le> USIZE_MAX"
    and "snd (BootInfo_range bi) + FRAME_SIZE - 1 \<le> USIZE_MAX"
    and "case BootInfo_framebuffer mem bi of None \<Rightarrow> True
      | Some fb \<Rightarrow> unat (fb_addr fb) + unat (pitch fb) * unat (height fb) + FRAME_SIZE - 1 \<le> USIZE_MAX"
  shows "fa_inv (FrameAllocator_init kernel_end mem bi a) \<and>
    initialized (FrameAllocator_init kernel_end mem bi a) \<and>
    free_set (FrameAllocator_init kernel_end mem bi a) \<inter> reserved_frames kernel_end mem bi = {} \<and>
    free_set (FrameAllocator_init kernel_end mem bi a) \<subseteq>
      (case BootInfo_memory_map mem bi of None \<Rightarrow> {} | Some es \<Rightarrow> available_frames es)"
proof -
  define a2 where "a2 = mark_memory_map mem bi (reset_bitmap a)"
  note a2 = init_available_phase [OF assms(1), of mem bi, folded a2_def]
  define a3 where "a3 = mark_range a2 0 0x100000 True"
  define a4 where "a4 = mark_range a3 0x100000 (kernel_phys_end kernel_end) True"
  define a5 where "a5 = mark_range a4 (fst (BootInfo_range bi)) (snd (BootInfo_range bi)) True"
  define a6 where "a6 = foldl (\<lambda>s m. mark_range s (unat (mod_start m)) (unat (mod_end m)) True) a5
    (BootInfo_modules mem bi)"
  define a7 where "a7 = (case BootInfo_framebuffer mem bi of None \<Rightarrow> a6
    | Some fb \<Rightarrow> mark_range a6 (unat (fb_addr fb))
        (unat (fb_addr fb) + unat (pitch fb) * unat (height fb)) True)"
  have init: "FrameAllocator_init kernel_end mem bi a = a7\<lparr>initialized := True\<rparr>"
    unfolding FrameAllocator_init_def Let_def a7_def a6_def a5_def a4_def a3_def a2_def ..
  note s3 = mark_used_props [OF a2(1), of 0 "0x100000", folded a3_def]
  have k: "kernel_phys_end kernel_end + FRAME_SIZE - 1 \<le> USIZE_MAX"
    using assms(2) by (auto simp: kernel_phys_end_def USIZE_MAX_def frame_consts(3))
  have s3': "fa_inv a3 \<and> free_set a3 = free_set a2 - frames_of 0 0x100000"
    using s3 by (simp add: USIZE_MAX_def frame_consts)
  have s4: "fa_inv a4 \<and> free_set a4 = free_set a3 - frames_of 0x100000 (kernel_phys_end kernel_end)"
    using mark_used_props [OF conjunct1 [OF s3'] _ k, of "0x100000"] by (simp add: a4_def USIZE_MAX_def)
  have "fst (BootInfo_range bi) \<le> USIZE_MAX"
    using assms(3) by (simp add: BootInfo_range_def frame_consts)
  note s5 = mark_used_props [OF conjunct1 [OF s4] this assms(3), folded a5_def]
  note s6 = mark_modules_props [OF conjunct1 [OF s5], of "BootInfo_modules mem bi", folded a6_def]
  have s7: "fa_inv a7 \<and> free_set a7 = free_set a6 - framebuffer_frames mem bi"
  proof (cases "BootInfo_framebuffer mem bi")
    case None
    then show ?thesis using s6 by (simp add: a7_def framebuffer_frames_def)
  next
    case (Some fb)
    from mark_used_props [OF conjunct1 [OF s6] unat_le_USIZE_MAX] assms(4) Some show ?thesis
      by (simp add: a7_def framebuffer_frames_def)
  qed
  have "free_set a7 \<inter> reserved_frames kernel_end mem bi = {}" and "free_set a7 \<subseteq> free_set a2"
    using s3' s4 s5 s6 s7 by (auto simp: reserved_frames_def)
  moreover have "free_set (a7\<lparr>initialized := True\<rparr>) = free_set a7" "fa_inv (a7\<lparr>initialized := True\<rparr>)"
    using s7 by (simp_all add: fa_inv_def free_set_def frame_free_def)
  ultimately show ?thesis
    using a2(2) by (simp add: init)
qed

theorem init_reserves_witness:
  "initialized (FrameAllocator_init 0xffffffff80400000 (\<lambda>_. 0)
     \<lparr>bi_addr = 0x9000, bi_total_size = 64\<rparr> FrameAllocator_new)"
proof -
  let ?bi = "\<lparr>bi_addr = 0x9000, bi_total_size = 64\<rparr>"
  have "TagIter_next (\<lambda>_. 0) (BootInfo_tags ?bi) = (None, (BootInfo_tags ?bi)\<lparr>ti_done := True\<rparr>)"
    by (simp add: TagIter_next_def BootInfo_tags_def read_u32_def u32_from_le_def u32_from_be_def
        TAG_END_def)
  then have "BootInfo_framebuffer (\<lambda>_. 0) ?bi = None"
    by (simp add: BootInfo_framebuffer_def find_tag_def)
  then show ?thesis
    using init_reserves [of FrameAllocator_new "0xffffffff80400000" ?bi "\<lambda>_. 0"]
    by (simp add: FrameAllocator_new_def USIZE_MAX_def BootInfo_range_def frame_consts(3))
qed

end
