(* ===== verification/Refcount.thy ===== *)
theory Refcount
  imports Frame_Allocator
begin

text \<open>
  The sparse table of frame reference counts used for copy-on-write sharing
  (\<open>kernel/src/memory/refcount.rs\<close>).  A root vector points to chunks of 512
  sixteen-bit counters; a missing chunk stands for 512 counters of value 1.
  The flag \<open>mem_ok\<close> is the outcome of \<open>try_reserve_exact\<close>.  The locale
  \<open>frame_counts\<close> is the sharing contract copy-on-write relies on.
\<close>

section \<open>Definitions\<close>

definition CHUNK_SHIFT :: nat where "CHUNK_SHIFT = 9"
definition CHUNK_SIZE :: usize where "CHUNK_SIZE = 2 ^ CHUNK_SHIFT"
definition ROOT_ENTRIES :: usize where
  "ROOT_ENTRIES = MAX_PHYSICAL_MEMORY div FRAME_SIZE div CHUNK_SIZE"

record RefcountTable =
  root :: "u16 list option list"

datatype RefcountError = OutOfMemory | Overflow | UntrackedFrame

definition RefcountTable_new :: "bool \<Rightarrow> (RefcountError, RefcountTable) result" where
  "RefcountTable_new mem_ok =
     (if mem_ok then Ok \<lparr>root = replicate ROOT_ENTRIES None\<rparr> else Err OutOfMemory)"

text \<open>\<open>frame_index >> CHUNK_SHIFT\<close> and \<open>index & CHUNK_MASK\<close>.\<close>

definition root_index :: "usize \<Rightarrow> usize" where
  "root_index index = index div CHUNK_SIZE"

definition chunk_slot :: "usize \<Rightarrow> usize" where
  "chunk_slot index = index mod CHUNK_SIZE"

text \<open>
  \<open>ensure_chunk\<close> returns the table in which the chunk exists; the mutable slice
  of the source is the chunk at \<open>root_index\<close> of that table.
\<close>

definition ensure_chunk :: "bool \<Rightarrow> RefcountTable \<Rightarrow> usize \<Rightarrow> (RefcountError, RefcountTable) result" where
  "ensure_chunk mem_ok t index =
     (let ri = root_index index in
      if ri \<ge> ROOT_ENTRIES then Err UntrackedFrame
      else if root t ! ri = None
      then if mem_ok then Ok (t\<lparr>root := (root t)[ri := Some (replicate CHUNK_SIZE 1)]\<rparr>)
           else Err OutOfMemory
      else Ok t)"

definition get_chunk :: "RefcountTable \<Rightarrow> usize \<Rightarrow> u16 list option" where
  "get_chunk t index = Option.bind (nth_opt (root t) (root_index index)) (\<lambda>c. c)"

definition put_slot :: "RefcountTable \<Rightarrow> usize \<Rightarrow> u16 \<Rightarrow> RefcountTable" where
  "put_slot t index v =
     (case get_chunk t index of
        None \<Rightarrow> t
      | Some c \<Rightarrow> t\<lparr>root := (root t)[root_index index := Some (c[chunk_slot index := v])]\<rparr>)"

definition try_increment ::
    "bool \<Rightarrow> RefcountTable option \<Rightarrow> usize \<Rightarrow> (RefcountError, unit) result \<times> RefcountTable option" where
  "try_increment mem_ok g phys =
     (let index = frame_index phys in
      case g of
        None \<Rightarrow> (Ok (), None)
      | Some t \<Rightarrow>
          (case ensure_chunk mem_ok t index of
             Inl e \<Rightarrow> (Err e, Some t)
           | Inr t' \<Rightarrow>
               (case get_chunk t' index of
                  None \<Rightarrow> (Err OutOfMemory, Some t')
                | Some chunk \<Rightarrow>
                    let v = chunk ! chunk_slot index in
                    if v = - 1 then (Err Overflow, Some t')
                    else (Ok (), Some (put_slot t' index (v + 1))))))"

definition decrement :: "RefcountTable option \<Rightarrow> usize \<Rightarrow> u16 \<times> RefcountTable option" where
  "decrement g phys =
     (let index = frame_index phys in
      case g of
        None \<Rightarrow> (0, None)
      | Some t \<Rightarrow>
          (case get_chunk t index of
             None \<Rightarrow> (0, Some t)
           | Some chunk \<Rightarrow>
               let v = chunk ! chunk_slot index in
               if v > 0 then (v - 1, Some (put_slot t index (v - 1))) else (v, Some t)))"

definition get :: "RefcountTable option \<Rightarrow> usize \<Rightarrow> u16" where
  "get g phys =
     (let index = frame_index phys in
      case g of
        None \<Rightarrow> 1
      | Some t \<Rightarrow>
          (case get_chunk t index of None \<Rightarrow> 1 | Some chunk \<Rightarrow> chunk ! chunk_slot index))"

definition set_count :: "bool \<Rightarrow> RefcountTable option \<Rightarrow> usize \<Rightarrow> u16 \<Rightarrow> RefcountTable option" where
  "set_count mem_ok g phys val =
     (let index = frame_index phys in
      case g of
        None \<Rightarrow> None
      | Some t \<Rightarrow>
          (case get_chunk t index of
             Some _ \<Rightarrow> Some (put_slot t index val)
           | None \<Rightarrow>
               if val \<noteq> 1
               then (case ensure_chunk mem_ok t index of
                       Inr t' \<Rightarrow> Some (put_slot t' index val)
                     | Inl _ \<Rightarrow> Some t)
               else Some t))"

text \<open>
  \<open>frame_allocator::allocate_frame\<close> and the release protocol of the paging code:
  a frame goes back to the allocator when its count reaches zero.
\<close>

definition allocate_frame ::
    "bool \<Rightarrow> FrameAllocator \<Rightarrow> RefcountTable option \<Rightarrow>
     Frame option \<times> FrameAllocator \<times> RefcountTable option" where
  "allocate_frame mem_ok a g =
     (case allocate a of
        (None, a') \<Rightarrow> (None, a', g)
      | (Some f, a') \<Rightarrow> (Some f, a', set_count mem_ok g (frame_start f) 1))"

subsection \<open>Invariant\<close>

definition rc_inv :: "RefcountTable option \<Rightarrow> bool" where
  "rc_inv g = (case g of None \<Rightarrow> True
     | Some t \<Rightarrow> length (root t) = ROOT_ENTRIES
         \<and> list_all (\<lambda>c. case c of None \<Rightarrow> True | Some chunk \<Rightarrow> length chunk = CHUNK_SIZE) (root t))"

definition tracked :: "RefcountTable option \<Rightarrow> usize \<Rightarrow> bool" where
  "tracked g phys = (case g of None \<Rightarrow> False | Some t \<Rightarrow> get_chunk t (frame_index phys) \<noteq> None)"

text \<open>An increment for which memory is available, and runs of increments and decrements.\<close>

definition inc_frame :: "RefcountTable option \<Rightarrow> usize \<Rightarrow> bool \<times> RefcountTable option" where
  "inc_frame g p = (case try_increment True g p of (r, g') \<Rightarrow> (r = Ok (), g'))"

fun share :: "('s \<Rightarrow> usize \<Rightarrow> bool \<times> 's) \<Rightarrow> nat \<Rightarrow> 's \<Rightarrow> usize \<Rightarrow> bool \<times> 's" where
  "share inc 0 s p = (True, s)"
| "share inc (Suc n) s p = (if fst (inc s p) then share inc n (snd (inc s p)) p else inc s p)"

fun unshare :: "('s \<Rightarrow> usize \<Rightarrow> u16 \<times> 's) \<Rightarrow> nat \<Rightarrow> 's \<Rightarrow> usize \<Rightarrow> u16 list \<times> 's" where
  "unshare dec 0 s p = ([], s)"
| "unshare dec (Suc n) s p =
     (let (vs, s') = unshare dec n (snd (dec s p)) p in (fst (dec s p) # vs, s'))"

section \<open>Lemmas\<close>

lemma u16_not_max: "unat (w :: u16) < 65535 \<Longrightarrow> w \<noteq> - 1"
  by (auto simp: unsigned_minus_1_eq_mask mask_eq_exp_minus_1)

lemma unat_u16_Suc: "unat (w :: u16) < 65535 \<Longrightarrow> unat (w + 1) = unat w + 1"
  by (simp add: unat_word_ariths)

lemma chunk_consts: "CHUNK_SIZE = 512" "ROOT_ENTRIES = 8192"
  by (simp_all add: CHUNK_SIZE_def CHUNK_SHIFT_def ROOT_ENTRIES_def MAX_PHYSICAL_MEMORY_def
      FRAME_SIZE_def)

lemma chunk_slot_less: "chunk_slot i < CHUNK_SIZE"
  by (simp add: chunk_slot_def chunk_consts)

lemma slot_eq: "(root_index i = root_index j \<and> chunk_slot i = chunk_slot j) = (i = j)"
  unfolding root_index_def chunk_slot_def by (metis div_mult_mod_eq)

lemma rc_inv_chunk:
  assumes "rc_inv (Some t)" and "get_chunk t i = Some c"
  shows "length c = CHUNK_SIZE" and "root_index i < length (root t)" and "root t ! root_index i = Some c"
proof -
  from assms(2) show ri: "root_index i < length (root t)" and c: "root t ! root_index i = Some c"
    by (auto simp: get_chunk_def nth_opt_def split: if_splits)
  from assms(1) ri c show "length c = CHUNK_SIZE"
    by (simp add: rc_inv_def list_all_length split: option.splits)
qed

lemma get_chunk_put_slot:
  assumes "rc_inv (Some t)" and "get_chunk t i = Some c"
  shows "get_chunk (put_slot t i v) j =
    (if root_index j = root_index i then Some (c[chunk_slot i := v]) else get_chunk t j)"
  using rc_inv_chunk [OF assms] assms(2)
  by (simp add: put_slot_def get_chunk_def nth_opt_def)

lemma rc_inv_put_slot:
  assumes "rc_inv (Some t)"
  shows "rc_inv (Some (put_slot t i v))"
proof (cases "get_chunk t i")
  case None
  with assms show ?thesis by (simp add: put_slot_def)
next
  case (Some c)
  with rc_inv_chunk(1,2) [OF assms Some] assms show ?thesis
    by (simp add: put_slot_def rc_inv_def list_all_length nth_list_update)
qed

lemma get_put_slot:
  assumes "rc_inv (Some t)" and "get_chunk t i = Some c"
  shows "get (Some (put_slot t i v)) p = (if frame_index p = i then v else get (Some t) p)"
proof -
  have "chunk_slot i < length c" using rc_inv_chunk(1) [OF assms] chunk_slot_less by simp
  moreover have "get_chunk t (frame_index p) = get_chunk t i" if "root_index (frame_index p) = root_index i"
    using that by (simp add: get_chunk_def)
  ultimately show ?thesis
    using slot_eq [of "frame_index p" i] assms(2)
    by (auto simp: get_def Let_def get_chunk_put_slot [OF assms] nth_list_update)
qed

lemma ensure_chunk_cases:
  assumes "rc_inv (Some t)" and "ensure_chunk b t i = Inr t'"
  obtains (present) c where "t' = t" and "get_chunk t i = Some c"
  | (fresh) "get_chunk t i = None" and "root_index i < length (root t)"
      "t' = t\<lparr>root := (root t)[root_index i := Some (replicate CHUNK_SIZE 1)]\<rparr>"
  using assms by (auto simp: ensure_chunk_def rc_inv_def Let_def get_chunk_def nth_opt_def split: if_splits)

lemma get_chunk_fresh:
  "root_index i < length (root t) \<Longrightarrow>
   get_chunk (t\<lparr>root := (root t)[root_index i := Some c]\<rparr>) j =
     (if root_index j = root_index i then Some c else get_chunk t j)"
  by (simp add: get_chunk_def nth_opt_def)

lemma ensure_chunk_Inr:
  assumes "rc_inv (Some t)" and "ensure_chunk b t i = Inr t'"
  shows "rc_inv (Some t')" and "\<exists>c. get_chunk t' i = Some c" and "get (Some t') p = get (Some t) p"
    and "get_chunk t j \<noteq> None \<Longrightarrow> get_chunk t' j \<noteq> None"
proof -
  from assms have "rc_inv (Some t') \<and> (\<exists>c. get_chunk t' i = Some c) \<and>
    get (Some t') p = get (Some t) p \<and> (get_chunk t j \<noteq> None \<longrightarrow> get_chunk t' j \<noteq> None)"
  proof (cases rule: ensure_chunk_cases)
    case present
    then show ?thesis using assms(1) by simp
  next
    case fresh
    have "rc_inv (Some t')"
      using assms(1) fresh(2) by (simp add: fresh(3) rc_inv_def list_all_length nth_list_update)
    moreover have "get_chunk t (frame_index p) = None" if "root_index (frame_index p) = root_index i"
      using fresh(1) that by (simp add: get_chunk_def)
    ultimately show ?thesis
      using fresh(2) by (auto simp: fresh(3) get_chunk_fresh get_def chunk_slot_less Let_def)
  qed
  then show "rc_inv (Some t')" and "\<exists>c. get_chunk t' i = Some c" and "get (Some t') p = get (Some t) p"
    and "get_chunk t j \<noteq> None \<Longrightarrow> get_chunk t' j \<noteq> None"
    by blast+
qed

lemma get_same_frame: "frame_index q = frame_index p \<Longrightarrow> get g q = get g p"
  by (simp add: get_def)

text \<open>The two updates, with the counter named through \<open>get\<close>.\<close>

lemma try_increment_eq:
  assumes "rc_inv (Some t)"
  shows "try_increment b (Some t) p =
    (case ensure_chunk b t (frame_index p) of
       Inl e \<Rightarrow> (Err e, Some t)
     | Inr t' \<Rightarrow>
         if get (Some t) p = - 1 then (Err Overflow, Some t')
         else (Ok (), Some (put_slot t' (frame_index p) (get (Some t) p + 1))))"
proof (cases "ensure_chunk b t (frame_index p)")
  case (Inr t')
  note ec = ensure_chunk_Inr [OF assms Inr]
  obtain c where c: "get_chunk t' (frame_index p) = Some c" using ec(2) by blast
  then have "c ! chunk_slot (frame_index p) = get (Some t) p"
    using ec(3) [of p] by (simp add: get_def)
  with Inr c show ?thesis by (simp add: try_increment_def Let_def)
qed (simp add: try_increment_def)

lemma decrement_eq:
  "decrement (Some t) p =
    (if get_chunk t (frame_index p) = None then (0, Some t)
     else if get (Some t) p > 0
     then (get (Some t) p - 1, Some (put_slot t (frame_index p) (get (Some t) p - 1)))
     else (0, Some t))"
  by (auto simp: decrement_def get_def Let_def word_gt_0 split: option.splits)

lemma tracked_put_slot:
  "rc_inv (Some t) \<Longrightarrow> tracked (Some (put_slot t i v)) q = tracked (Some t) q"
  by (cases "get_chunk t i"; cases "root_index (frame_index q) = root_index i")
     (simp_all add: tracked_def get_chunk_put_slot, simp_all add: put_slot_def get_chunk_def)

lemma try_increment_props:
  assumes "rc_inv g" and "try_increment b g p = (r, g')"
  shows "rc_inv g'"
    and "r = Ok () \<Longrightarrow> g \<noteq> None \<Longrightarrow> tracked g' p \<and> get g p \<noteq> - 1 \<and>
           get g' q = (if frame_index q = frame_index p then get g q + 1 else get g q)"
    and "r \<noteq> Ok () \<Longrightarrow> get g' q = get g q"
    and "tracked g q \<Longrightarrow> tracked g' q"
    and "g' = None \<longleftrightarrow> g = None"
proof -
  consider (none) "g = None" "r = Ok ()" "g' = None"
    | (err) t e where "g = Some t" "r = Err e" "g' = g"
    | (ovf) t t' where "g = Some t" "ensure_chunk b t (frame_index p) = Inr t'"
        "r = Err Overflow" "g' = Some t'"
    | (inc) t t' where "g = Some t" "ensure_chunk b t (frame_index p) = Inr t'" "r = Ok ()"
        "get g p \<noteq> - 1" "g' = Some (put_slot t' (frame_index p) (get g p + 1))"
  proof (cases g)
    case None
    then show ?thesis using assms none by (auto simp: try_increment_def)
  next
    case (Some t)
    then have eq: "try_increment b (Some t) p = (r, g')" using assms(2) by simp
    note inc' = eq [unfolded try_increment_eq [OF assms(1) [unfolded Some]]]
    show ?thesis
    proof (cases "ensure_chunk b t (frame_index p)")
      case (Inl e)
      with inc' Some show ?thesis by (intro err) auto
    next
      case (Inr t')
      show ?thesis
      proof (cases "get (Some t) p = - 1")
        case True
        with inc' Inr Some show ?thesis by (intro ovf) auto
      next
        case False
        with inc' Inr Some show ?thesis by (intro inc) auto
      qed
    qed
  qed
  then have "rc_inv g' \<and>
    (r = Ok () \<longrightarrow> g \<noteq> None \<longrightarrow> tracked g' p \<and> get g p \<noteq> - 1 \<and>
           get g' q = (if frame_index q = frame_index p then get g q + 1 else get g q)) \<and>
    (r \<noteq> Ok () \<longrightarrow> get g' q = get g q) \<and> (tracked g q \<longrightarrow> tracked g' q) \<and> (g' = None \<longleftrightarrow> g = None)"
  proof cases
    case inc
    note ec = ensure_chunk_Inr [OF assms(1) [unfolded inc(1)] inc(2)]
    obtain c where c: "get_chunk t' (frame_index p) = Some c" using ec(2) by blast
    then have "tracked g' p" and "tracked g q \<longrightarrow> tracked g' q"
      using inc(1,5) ec(1) ec(4) [of "frame_index q"] tracked_put_slot [OF ec(1)]
      by (auto simp: tracked_def)
    then show ?thesis
      using inc ec(1) ec(3) [of q] get_same_frame [of q p g]
      by (simp add: rc_inv_put_slot get_put_slot [OF ec(1) c])
  next
    case ovf
    note ec = ensure_chunk_Inr [OF assms(1) [unfolded ovf(1)] ovf(2)]
    show ?thesis
      using ovf ec(1) ec(3) [of q] ec(4) [of "frame_index q"] by (auto simp: tracked_def)
  qed (use assms in \<open>auto simp: tracked_def\<close>)
  then show "rc_inv g'"
    and "r = Ok () \<Longrightarrow> g \<noteq> None \<Longrightarrow> tracked g' p \<and> get g p \<noteq> - 1 \<and>
           get g' q = (if frame_index q = frame_index p then get g q + 1 else get g q)"
    and "r \<noteq> Ok () \<Longrightarrow> get g' q = get g q" and "tracked g q \<Longrightarrow> tracked g' q"
    and "g' = None \<longleftrightarrow> g = None"
    by blast+
qed

lemma decrement_props:
  assumes "rc_inv g" and "tracked g p" and "decrement g p = (v, g')"
  shows "rc_inv g'" and "tracked g' q \<longleftrightarrow> tracked g q" and "v = (if get g p > 0 then get g p - 1 else 0)"
    and "get g' q = (if frame_index q = frame_index p \<and> get g p > 0 then get g q - 1 else get g q)"
proof -
  obtain t c where t: "g = Some t" and c: "get_chunk t (frame_index p) = Some c"
    using assms(2) by (auto simp: tracked_def split: option.splits)
  note inv = assms(1) [unfolded t]
  have dec: "v = (if get g p > 0 then get g p - 1 else 0)"
      "g' = (if get g p > 0 then Some (put_slot t (frame_index p) (get g p - 1)) else g)"
    using assms(3) c by (auto simp: t decrement_eq split: if_splits)
  show "v = (if get g p > 0 then get g p - 1 else 0)" by (rule dec(1))
  show "rc_inv g'" "tracked g' q \<longleftrightarrow> tracked g q"
    using inv by (simp_all add: dec(2) t rc_inv_put_slot tracked_put_slot)
  show "get g' q = (if frame_index q = frame_index p \<and> get g p > 0 then get g q - 1 else get g q)"
    using get_same_frame [of q p g] by (simp add: dec(2) t get_put_slot [OF inv c])
qed

section \<open>The sharing contract\<close>

text \<open>
  What copy-on-write relies on: a successful \<open>inc\<close> adds one reference to one
  frame only, and from then on \<open>dec\<close> removes exactly one and reports what is left.
\<close>

locale frame_counts =
  fixes inc :: "'s \<Rightarrow> usize \<Rightarrow> bool \<times> 's"
    and dec :: "'s \<Rightarrow> usize \<Rightarrow> u16 \<times> 's"
    and cnt :: "'s \<Rightarrow> usize \<Rightarrow> u16"
    and inv :: "'s \<Rightarrow> bool"
    and trk :: "'s \<Rightarrow> usize \<Rightarrow> bool"
  assumes inc_ok: "inv s \<Longrightarrow> frame_index p < MAX_FRAMES \<Longrightarrow> cnt s p \<noteq> - 1 \<Longrightarrow> fst (inc s p)"
    and inc_inv: "inv s \<Longrightarrow> inv (snd (inc s p))"
    and inc_cnt: "inv s \<Longrightarrow> fst (inc s p) \<Longrightarrow>
      cnt (snd (inc s p)) q = (if frame_index q = frame_index p then cnt s q + 1 else cnt s q)"
    and inc_trk: "inv s \<Longrightarrow> fst (inc s p) \<Longrightarrow> trk (snd (inc s p)) p"
    and dec_inv: "inv s \<Longrightarrow> trk s p \<Longrightarrow> inv (snd (dec s p)) \<and> trk (snd (dec s p)) p"
    and dec_val: "inv s \<Longrightarrow> trk s p \<Longrightarrow> cnt s p > 0 \<Longrightarrow> fst (dec s p) = cnt s p - 1"
    and dec_cnt: "inv s \<Longrightarrow> trk s p \<Longrightarrow> cnt s p > 0 \<Longrightarrow>
      cnt (snd (dec s p)) q = (if frame_index q = frame_index p then cnt s q - 1 else cnt s q)"
begin

lemma share_spec:
  assumes "inv s" and "frame_index p < MAX_FRAMES" and "unat (cnt s p) + n < 65536"
  shows "fst (share inc n s p) \<and> inv (snd (share inc n s p)) \<and>
    unat (cnt (snd (share inc n s p)) p) = unat (cnt s p) + n \<and>
    cnt (snd (share inc n s p)) q =
      (if frame_index q = frame_index p then cnt s q + of_nat n else cnt s q) \<and>
    (0 < n \<or> trk s p \<longrightarrow> trk (snd (share inc n s p)) p)"
  using assms(1,3)
proof (induction n arbitrary: s)
  case 0
  then show ?case by simp
next
  case (Suc n)
  have "cnt s p \<noteq> - 1"
    using Suc.prems(2) by (intro u16_not_max) simp
  note ok = inc_ok [OF Suc.prems(1) assms(2) this]
  let ?s = "snd (inc s p)"
  have step: "cnt ?s p = cnt s p + 1" using inc_cnt [OF Suc.prems(1) ok, of p] by simp
  then have "unat (cnt ?s p) = unat (cnt s p) + 1"
    using Suc.prems(2) by (simp add: unat_u16_Suc)
  with Suc.prems(2) have "unat (cnt ?s p) + n < 65536" by simp
  note IH = Suc.IH [OF inc_inv [OF Suc.prems(1), of p] this]
  show ?case
    using IH ok inc_trk [OF Suc.prems(1) ok] inc_cnt [OF Suc.prems(1) ok, of q]
      \<open>unat (cnt ?s p) = unat (cnt s p) + 1\<close>
    by (cases n) (auto simp: case_prod_beta algebra_simps)
qed

lemma unshare_spec:
  assumes "inv s" and "trk s p" and "n \<le> unat (cnt s p)"
  shows "map unat (fst (unshare dec n s p)) = map (\<lambda>k. unat (cnt s p) - Suc k) [0..<n] \<and>
    inv (snd (unshare dec n s p)) \<and>
    cnt (snd (unshare dec n s p)) q =
      (if frame_index q = frame_index p then cnt s q - of_nat n else cnt s q)"
  using assms
proof (induction n arbitrary: s)
  case 0
  then show ?case by simp
next
  case (Suc n)
  have pos: "cnt s p > 0" using Suc.prems(3) by (metis unat_0 not_less_eq_eq word_gt_0 zero_le)
  note val = dec_val [OF Suc.prems(1,2) pos]
  let ?s = "snd (dec s p)"
  have cnt: "cnt ?s p = cnt s p - 1" using dec_cnt [OF Suc.prems(1,2) pos, of p] by simp
  have u: "unat (cnt s p - 1) = unat (cnt s p) - 1"
    using pos by (simp add: unat_minus_one word_gt_0)
  have uv: "unat (fst (dec s p)) = unat (cnt s p) - 1" by (simp add: val u)
  have "n \<le> unat (cnt ?s p)" using Suc.prems(3) cnt u by simp
  note IH = Suc.IH [OF _ _ this]
  have "map (\<lambda>k. unat (cnt s p) - Suc k) [0..<Suc n] =
      (unat (cnt s p) - 1) # map (\<lambda>k. unat (cnt ?s p) - Suc k) [0..<n]"
    by (simp only: upt_conv_Cons [OF zero_less_Suc] map_Suc_upt [symmetric] map_map list.map)
       (simp add: cnt u comp_def)
  then show ?case
    using IH dec_inv [OF Suc.prems(1,2)] uv dec_cnt [OF Suc.prems(1,2) pos, of q]
    by (auto simp: case_prod_beta algebra_simps simp del: upt_Suc)
qed

end

interpretation rc: frame_counts inc_frame decrement get "\<lambda>g. rc_inv g \<and> g \<noteq> None" tracked
proof unfold_locales
  fix s :: "RefcountTable option" and p q
  assume s: "rc_inv s \<and> s \<noteq> None"
  obtain r s' where r: "try_increment True s p = (r, s')" by fastforce
  note props = try_increment_props [OF conjunct1 [OF s] r]
  have inc: "inc_frame s p = (r = Ok (), s')" by (simp add: inc_frame_def r)
  show "rc_inv (snd (inc_frame s p)) \<and> snd (inc_frame s p) \<noteq> None"
    using props(1,5) s by (simp add: inc)
  show "fst (inc_frame s p) \<Longrightarrow> get (snd (inc_frame s p)) q =
      (if frame_index q = frame_index p then get s q + 1 else get s q)"
    and "fst (inc_frame s p) \<Longrightarrow> tracked (snd (inc_frame s p)) p"
    using props(2) s by (simp_all add: inc)
  show "fst (inc_frame s p)" if "frame_index p < MAX_FRAMES" and "get s p \<noteq> - 1"
  proof -
    from s obtain t where t: "s = Some t" by blast
    have "root_index (frame_index p) < ROOT_ENTRIES"
      using that(1) by (simp add: root_index_def chunk_consts frame_consts div_less_iff_less_mult)
    then obtain t' where "ensure_chunk True t (frame_index p) = Inr t'"
      by (cases "root t ! root_index (frame_index p) = None") (simp_all add: ensure_chunk_def Let_def)
    then show ?thesis
      using r that(2) s by (auto simp: inc_frame_def t try_increment_eq)
  qed
  assume "tracked s p"
  then obtain v d where d: "decrement s p = (v, d)" by fastforce
  note dp = decrement_props [OF conjunct1 [OF s] \<open>tracked s p\<close> d]
  show "(rc_inv (snd (decrement s p)) \<and> snd (decrement s p) \<noteq> None) \<and> tracked (snd (decrement s p)) p"
    using dp(1) dp(2) [of p] \<open>tracked s p\<close> by (cases d) (simp_all add: d tracked_def)
  show "0 < get s p \<Longrightarrow> fst (decrement s p) = get s p - 1"
    and "0 < get s p \<Longrightarrow> get (snd (decrement s p)) q =
      (if frame_index q = frame_index p then get s q - 1 else get s q)"
    using dp(3,4) by (simp_all add: d)
qed

section \<open>Properties\<close>

text \<open>
  C11: sharing a frame n times and releasing it n times is balanced.  For a frame
  below 16 GiB whose count stays below 65536, the n increments succeed, the n
  decrements report the counts one by one in descending order down to the
  original count, and afterwards the counts of all frames are the original ones.
\<close>

theorem share_release_balanced:
  assumes "rc_inv (Some t)" and "frame_index p < MAX_FRAMES"
    and "0 < n" and "unat (get (Some t) p) + n < 65536"
  shows "fst (share inc_frame n (Some t) p) \<and>
    map unat (fst (unshare decrement n (snd (share inc_frame n (Some t) p)) p)) =
      map (\<lambda>k. unat (get (Some t) p) + n - Suc k) [0..<n] \<and>
    get (snd (unshare decrement n (snd (share inc_frame n (Some t) p)) p)) = get (Some t)"
proof -
  let ?s = "snd (share inc_frame n (Some t) p)"
  have inv: "rc_inv (Some t) \<and> Some t \<noteq> None" using assms(1) by simp
  note sh = rc.share_spec [OF inv assms(2,4)]
  have total: "unat (get ?s p) = unat (get (Some t) p) + n"
    using sh [of p] by blast
  have un: "rc_inv ?s \<and> ?s \<noteq> None" "tracked ?s p" "n \<le> unat (get ?s p)"
    using sh [of p] assms(3) unfolding total by auto
  note us = rc.unshare_spec [OF un]
  have "get (snd (unshare decrement n ?s p)) q = get (Some t) q" for q
    using us [of q] sh [of q] by auto
  then show ?thesis
    using us [of p] sh [of p] unfolding total by auto
qed

theorem share_release_balanced_witness:
  "get (snd (unshare decrement 3
      (snd (share inc_frame 3 (Some \<lparr>root = replicate ROOT_ENTRIES None\<rparr>) 0x5000)) 0x5000)) 0x7000 = 1"
proof -
  let ?t = "\<lparr>root = replicate ROOT_ENTRIES None\<rparr>"
  have "rc_inv (Some ?t)" by (simp add: rc_inv_def list_all_length)
  moreover have one: "get (Some ?t) p = 1" for p
    by (simp add: get_def get_chunk_def nth_opt_def Let_def)
  ultimately show ?thesis
    using share_release_balanced [of ?t "0x5000" 3]
    by (simp add: frame_index_def frame_consts one)
qed

end
