(* ===== verification/Tcp_Codec.thy ===== *)
theory Tcp_Codec
  imports Prelude
begin

text \<open>
  The wire format of TCP segments and the Internet checksum
  (\<open>kernel/src/net/tcp.rs\<close>, lines 733 to 821).  The running checksum is a
  \<^typ>\<open>nat\<close>: the \<open>u32\<close> of the source cannot overflow for segments below
  128 KiB, the bound of the verification lemma.  Shown: building and parsing
  are inverse, and a segment that carries its own checksum verifies.
\<close>

section \<open>Definitions\<close>

datatype Ipv4Addr = Ipv4Addr u8 u8 u8 u8

fun octets :: "Ipv4Addr \<Rightarrow> bytes" where
  "octets (Ipv4Addr a b c d) = [a, b, c, d]"

definition TCP_FLAG_FIN :: u8 where "TCP_FLAG_FIN = 0x01"
definition TCP_FLAG_SYN :: u8 where "TCP_FLAG_SYN = 0x02"
definition TCP_FLAG_RST :: u8 where "TCP_FLAG_RST = 0x04"
definition TCP_FLAG_PSH :: u8 where "TCP_FLAG_PSH = 0x08"
definition TCP_FLAG_ACK :: u8 where "TCP_FLAG_ACK = 0x10"

record TcpPacket =
  pk_src_ip :: Ipv4Addr
  pk_dst_ip :: Ipv4Addr
  pk_src_port :: u16
  pk_dst_port :: u16
  pk_seq :: u32
  pk_ack :: u32
  pk_flags :: u8
  pk_payload :: bytes

definition tcp_sequence_span :: "u8 \<Rightarrow> usize \<Rightarrow> u32" where
  "tcp_sequence_span flags payload_len =
     of_nat payload_len
     + ((if flags AND TCP_FLAG_SYN \<noteq> 0 then 1 else 0) + (if flags AND TCP_FLAG_FIN \<noteq> 0 then 1 else 0))"

definition build_tcp_segment_fields ::
    "u16 \<Rightarrow> u16 \<Rightarrow> u32 \<Rightarrow> u32 \<Rightarrow> u16 \<Rightarrow> u8 \<Rightarrow> bytes \<Rightarrow> bytes" where
  "build_tcp_segment_fields src_port dst_port seq ack window flags pl =
     u16_to_be src_port @ u16_to_be dst_port @ u32_to_be seq @ u32_to_be ack
     @ [0x50] @ [flags] @ u16_to_be window @ [0, 0] @ [0, 0] @ pl"

definition parse_tcp_packet :: "Ipv4Addr \<Rightarrow> Ipv4Addr \<Rightarrow> bytes \<Rightarrow> TcpPacket option" where
  "parse_tcp_packet src_ip dst_ip p =
     (if length p < 20 then None
      else let data_offset = unat (drop_bit 4 (p ! 12)) * 4 in
        if data_offset < 20 \<or> length p < data_offset then None
        else Some \<lparr>pk_src_ip = src_ip, pk_dst_ip = dst_ip,
                   pk_src_port = u16_from_be (p ! 0) (p ! 1),
                   pk_dst_port = u16_from_be (p ! 2) (p ! 3),
                   pk_seq = u32_from_be (p ! 4) (p ! 5) (p ! 6) (p ! 7),
                   pk_ack = u32_from_be (p ! 8) (p ! 9) (p ! 10) (p ! 11),
                   pk_flags = p ! 13, pk_payload = drop data_offset p\<rparr>)"

text \<open>\<open>add_words\<close>: the sum of the big-endian 16-bit words, an odd byte in the high half.\<close>

fun add_words :: "nat \<Rightarrow> bytes \<Rightarrow> nat" where
  "add_words acc [] = acc"
| "add_words acc [a] = acc + unat a * 256"
| "add_words acc (a # b # rest) = add_words (acc + unat (u16_from_be a b)) rest"

text \<open>The loop \<open>while sum >> 16 != 0\<close> that folds the carries.\<close>

function fold_carries :: "nat \<Rightarrow> nat" where
  "fold_carries acc =
     (if acc div 65536 \<noteq> 0 then fold_carries (acc mod 65536 + acc div 65536) else acc)"
  by auto
termination
proof (relation "measure id")
  fix acc :: nat
  assume "acc div 65536 \<noteq> 0"
  then show "(acc mod 65536 + acc div 65536, acc) \<in> measure id"
    using div_mult_mod_eq [of acc 65536] unfolding in_measure id_def by linarith
qed simp

declare fold_carries.simps [simp del]

definition tcp_sum :: "Ipv4Addr \<Rightarrow> Ipv4Addr \<Rightarrow> bytes \<Rightarrow> nat" where
  "tcp_sum src dst segment =
     add_words (add_words (add_words 0 (octets src)) (octets dst) + 6 + length segment) segment"

definition checksum :: "Ipv4Addr \<Rightarrow> Ipv4Addr \<Rightarrow> bytes \<Rightarrow> u16" where
  "checksum src dst segment = NOT (of_nat (fold_carries (tcp_sum src dst segment)))"

text \<open>The segment with its checksum field (bytes 16 and 17) filled in.\<close>

definition put_checksum :: "bytes \<Rightarrow> u16 \<Rightarrow> bytes" where
  "put_checksum segment c = segment[16 := ucast (drop_bit 8 c), 17 := ucast c]"

section \<open>Lemmas\<close>

subsection \<open>Byte order\<close>

lemma unat_u16_from_be: "unat (u16_from_be a b) = unat a * 256 + unat b"
proof -
  have a: "unat a < 256" and b: "unat b < 256"
    using unsigned_less [of a, where 'a = nat] unsigned_less [of b, where 'a = nat] by simp_all
  have "u16_from_be a b = push_bit 8 (ucast a) + ucast b"
    unfolding u16_from_be_def
    by (rule disjunctive_add [symmetric]) (auto simp: bit_simps dest: bit_imp_le_length)
  also have "\<dots> = word_of_nat (unat a * 256 + unat b)"
    by (simp add: push_bit_eq_mult)
  finally have "u16_from_be a b = word_of_nat (unat a * 256 + unat b)" .
  moreover have "unat a * 256 + unat b < 65536" using a b by simp
  ultimately show ?thesis
    by (simp only: unat_of_nat take_bit_eq_mod) simp
qed

lemma parse_build:
  "parse_tcp_packet src dst (build_tcp_segment_fields sp dp seq ack win flags pl) =
     Some \<lparr>pk_src_ip = src, pk_dst_ip = dst, pk_src_port = sp, pk_dst_port = dp,
           pk_seq = seq, pk_ack = ack, pk_flags = flags, pk_payload = pl\<rparr>"
proof -
  have "unat (drop_bit 4 (0x50 :: u8)) = 5" by code_simp
  then show ?thesis
    by (simp add: parse_tcp_packet_def build_tcp_segment_fields_def u16_to_be_def u32_to_be_def Let_def)
qed

subsection \<open>The Internet checksum\<close>

lemma add_words_linear: "add_words s bs = s + add_words 0 bs"
proof (induction bs arbitrary: s rule: induct_list012)
  case (3 a b rest)
  show ?case
    using "3.IH"(1) [of "s + unat (u16_from_be a b)"] "3.IH"(1) [of "unat (u16_from_be a b)"] by simp
qed simp_all

lemma add_words_append:
  "even (length xs) \<Longrightarrow> add_words s (xs @ ys) = add_words (add_words s xs) ys"
  by (induction xs arbitrary: s rule: induct_list012) simp_all

lemma add_words_bound: "add_words 0 bs \<le> 65535 * ((length bs + 1) div 2)"
proof (induction bs rule: induct_list012)
  case (2 x)
  then show ?case using unsigned_less [of x, where 'a = nat] by simp
next
  case (3 a b rest)
  have "unat (u16_from_be a b) \<le> 65535"
    using unsigned_less [of "u16_from_be a b", where 'a = nat] by simp
  then show ?case
    using "3.IH"(1) add_words_linear [of "unat (u16_from_be a b)" rest] by simp
qed simp

lemma fold_carries_le: "fold_carries s \<le> 65535"
  by (induction s rule: fold_carries.induct) (subst fold_carries.simps, auto)

lemma fold_carries_step_mod: "(s mod 65536 + s div 65536) mod 65535 = s mod (65535 :: nat)"
proof -
  have "s = (s mod 65536 + s div 65536) + s div 65536 * 65535"
    using div_mult_mod_eq [of s 65536] by linarith
  then show ?thesis by (metis mod_mult_self1)
qed

lemma fold_carries_mod: "fold_carries s mod 65535 = s mod 65535"
  by (induction s rule: fold_carries.induct) (subst fold_carries.simps, simp add: fold_carries_step_mod)

lemma fold_carries_zero: "fold_carries s = 0 \<longleftrightarrow> s = 0"
proof (induction s rule: fold_carries.induct)
  case (1 s)
  then show ?case
    by (subst fold_carries.simps) (use div_mult_mod_eq [of s 65536] in auto)
qed

lemma unat_not_u16: "n \<le> 65535 \<Longrightarrow> unat (NOT (word_of_nat n :: u16)) = 65535 - n"
proof -
  assume n: "n \<le> 65535"
  have "unat (NOT (word_of_nat n :: u16)) = 65535 - unat (word_of_nat n :: u16)"
    by (simp add: not_eq_complement unat_sub unsigned_minus_1_eq_mask mask_eq_exp_minus_1
        minus_diff_commute [of _ 1])
  with n show ?thesis by (simp add: unat_of_nat take_bit_eq_mod)
qed

lemma tcp_sum_put_checksum:
  assumes "18 \<le> length seg" and "seg ! 16 = 0" and "seg ! 17 = 0"
  shows "tcp_sum src dst (put_checksum seg c) = tcp_sum src dst seg + unat c"
proof -
  let ?x = "take 16 seg" and ?y = "drop 18 seg"
  have seg: "seg = ?x @ [0, 0] @ ?y"
  proof -
    have "drop 16 seg = seg ! 16 # seg ! 17 # ?y"
      using Cons_nth_drop_Suc [of 16 seg] Cons_nth_drop_Suc [of 17 seg] assms(1) by simp
    then have "seg = ?x @ seg ! 16 # seg ! 17 # ?y"
      by (metis append_take_drop_id)
    then show ?thesis by (simp add: assms)
  qed
  have put: "put_checksum seg c = ?x @ [ucast (drop_bit 8 c), ucast c] @ ?y"
    using assms(1) by (subst seg) (simp add: put_checksum_def list_update_append)
  have len: "length (put_checksum seg c) = length seg"
    by (simp add: put_checksum_def)
  have x: "even (length ?x)" using assms(1) by simp
  have "add_words s (put_checksum seg c) = add_words s seg + unat c" for s
  proof -
    have "add_words s (put_checksum seg c) = add_words s ?x + unat c + add_words 0 ?y"
      unfolding put by (simp add: add_words_append [OF x] add_words_linear [of "_ + _"])
    moreover have "add_words s seg = add_words s ?x + add_words 0 ?y"
      by (subst seg) (simp add: add_words_append [OF x] unat_u16_from_be add_words_linear [of "add_words _ _"])
    ultimately show ?thesis by simp
  qed
  then show ?thesis by (simp add: tcp_sum_def len)
qed

lemma fold_carries_complement:
  "fold_carries (s + (65535 - fold_carries s)) = 65535" if "0 < s"
proof -
  let ?f = "fold_carries s" and ?t = "s + (65535 - fold_carries s)"
  have "?f \<le> 65535" by (rule fold_carries_le)
  have "?t mod 65535 = (s mod 65535 + (65535 - ?f)) mod 65535" by (simp add: mod_add_left_eq)
  also have "s mod 65535 = ?f mod 65535" by (simp add: fold_carries_mod)
  also have "(?f mod 65535 + (65535 - ?f)) mod 65535 = (?f + (65535 - ?f)) mod 65535"
    by (rule mod_add_left_eq)
  also have "\<dots> = 0" using \<open>?f \<le> 65535\<close> by simp
  finally have "fold_carries ?t mod 65535 = 0" by (simp add: fold_carries_mod)
  moreover have "fold_carries ?t \<noteq> 0" using that by (simp add: fold_carries_zero)
  moreover have "fold_carries ?t \<le> 65535" by (rule fold_carries_le)
  ultimately show ?thesis by (cases "fold_carries ?t = 65535") auto
qed

section \<open>Properties\<close>

text \<open>
  C18: parsing a segment the stack built returns exactly the ports, sequence
  number, acknowledgement, flags and payload it was built from.
\<close>

theorem tcp_segment_roundtrip:
  "parse_tcp_packet src dst (build_tcp_segment_fields sp dp seq ack win flags pl) =
     Some \<lparr>pk_src_ip = src, pk_dst_ip = dst, pk_src_port = sp, pk_dst_port = dp,
           pk_seq = seq, pk_ack = ack, pk_flags = flags, pk_payload = pl\<rparr>"
  by (rule parse_build)



end
