(* ===== verification/Tcp.thy ===== *)
theory Tcp
  imports Tcp_Codec
begin

text \<open>
  The TCP connection state machine and the socket table of the stack
  (\<open>kernel/src/net/tcp.rs\<close>, lines 15 to 731).  Sequence numbers are 32-bit
  words and wrap.  Ticks are \<open>u64\<close> values kept as \<^typ>\<open>nat\<close> with the
  saturating addition of the source; \<open>now\<close> is the value of
  \<open>time::monotonic_ticks()\<close> at the call.  A mutated socket is returned
  together with the optional segment the source queues for transmission.
\<close>

section \<open>Definitions\<close>

definition TCP_RETRANSMIT_TICKS :: nat where "TCP_RETRANSMIT_TICKS = 25"
definition TCP_MAX_RETRANSMITS :: nat where "TCP_MAX_RETRANSMITS = 3"
definition TCP_RECV_WINDOW :: u16 where "TCP_RECV_WINDOW = 4096"
definition TCP_TIME_WAIT_TICKS :: nat where "TCP_TIME_WAIT_TICKS = 100"

datatype TcpState =
  Closed | Listen | SynSent | Established | CloseWait | FinWait1 | FinWait2 | Closing | LastAck
| TimeWait

datatype TcpError =
  NotConnected | WouldBlock | InvalidState | AlreadyConnected | InProgress | ConnectionReset
| TimedOut

record TcpOutbound =
  ob_dst_ip :: Ipv4Addr
  ob_segment :: bytes

record TcpRetransmit =
  rt_dst_ip :: Ipv4Addr
  rt_local_port :: u16
  rt_remote_port :: u16
  rt_end_seq :: u32
  rt_segment :: bytes
  rt_deadline_tick :: nat
  rt_attempts :: nat

record TcpSocket =
  local_port :: u16
  remote_ip :: Ipv4Addr
  remote_port :: u16
  state :: TcpState
  seq :: u32
  ack :: u32
  window :: u16
  rx_buffer :: bytes
  error :: "TcpError option"
  time_wait_deadline_tick :: "nat option"

definition TcpSocket_new :: "u16 \<Rightarrow> TcpSocket" where
  "TcpSocket_new port =
     \<lparr>local_port = port, remote_ip = Ipv4Addr 0 0 0 0, remote_port = 0, state = Closed,
      seq = 1, ack = 0, window = TCP_RECV_WINDOW, rx_buffer = [], error = None,
      time_wait_deadline_tick = None\<rparr>"

definition TcpSocket_listen :: "TcpSocket \<Rightarrow> TcpSocket" where
  "TcpSocket_listen s = s\<lparr>state := Listen, time_wait_deadline_tick := None\<rparr>"

definition established :: "TcpSocket \<Rightarrow> bool" where
  "established s \<longleftrightarrow> state s = Established"

definition recv_window_available :: "TcpSocket \<Rightarrow> usize" where
  "recv_window_available s = saturating_sub (unat (window s)) (length (rx_buffer s))"

definition advertised_window :: "TcpSocket \<Rightarrow> u16" where
  "advertised_window s = of_nat (min (recv_window_available s) 65535)"

definition matches_packet :: "TcpSocket \<Rightarrow> TcpPacket \<Rightarrow> bool" where
  "matches_packet s p \<longleftrightarrow>
     local_port s = pk_dst_port p \<and> remote_port s = pk_src_port p \<and> remote_ip s = pk_src_ip p"

definition has_flag :: "TcpPacket \<Rightarrow> u8 \<Rightarrow> bool" where
  "has_flag p f \<longleftrightarrow> pk_flags p AND f \<noteq> 0"

subsection \<open>Segments\<close>

definition build_tcp_segment :: "TcpSocket \<Rightarrow> u8 \<Rightarrow> bytes \<Rightarrow> bytes" where
  "build_tcp_segment s flags pl =
     build_tcp_segment_fields (local_port s) (remote_port s) (seq s) (ack s)
       (advertised_window s) flags pl"

definition build_outbound :: "TcpSocket \<Rightarrow> u8 \<Rightarrow> bytes \<Rightarrow> TcpOutbound" where
  "build_outbound s flags pl =
     \<lparr>ob_dst_ip = remote_ip s, ob_segment = build_tcp_segment s flags pl\<rparr>"

definition build_retransmit :: "nat \<Rightarrow> TcpSocket \<Rightarrow> bytes \<Rightarrow> u32 \<Rightarrow> u32 \<Rightarrow> TcpRetransmit option" where
  "build_retransmit now s segment sq span =
     (if span = 0 then None
      else Some \<lparr>rt_dst_ip = remote_ip s, rt_local_port = local_port s,
                 rt_remote_port = remote_port s, rt_end_seq = sq + span, rt_segment = segment,
                 rt_deadline_tick = saturating_add now TCP_RETRANSMIT_TICKS, rt_attempts = 0\<rparr>)"

definition build_reset_for_unmatched :: "TcpPacket \<Rightarrow> TcpOutbound" where
  "build_reset_for_unmatched p =
     (let (sq, ak, flags) =
        (if has_flag p TCP_FLAG_ACK then (pk_ack p, 0, TCP_FLAG_RST)
         else (0, pk_seq p + tcp_sequence_span (pk_flags p) (length (pk_payload p)),
               TCP_FLAG_RST OR TCP_FLAG_ACK))
      in \<lparr>ob_dst_ip = pk_src_ip p,
          ob_segment = build_tcp_segment_fields (pk_dst_port p) (pk_src_port p) sq ak 0 flags []\<rparr>)"

subsection \<open>Packet handlers on one socket\<close>

text \<open>\<open>(seq.wrapping_sub(checkpoint) as i32) >= 0\<close>\<close>

definition seq_at_or_after :: "u32 \<Rightarrow> u32 \<Rightarrow> bool" where
  "seq_at_or_after sq checkpoint \<longleftrightarrow> 0 \<le> sint (sq - checkpoint)"

definition fin_acknowledged :: "TcpSocket \<Rightarrow> TcpPacket \<Rightarrow> bool" where
  "fin_acknowledged s p \<longleftrightarrow> has_flag p TCP_FLAG_ACK \<and> seq_at_or_after (pk_ack p) (seq s)"

definition enter_time_wait :: "nat \<Rightarrow> TcpSocket \<Rightarrow> TcpSocket" where
  "enter_time_wait now s =
     s\<lparr>state := TimeWait, time_wait_deadline_tick := Some (saturating_add now TCP_TIME_WAIT_TICKS)\<rparr>"

definition accept_in_order_payload :: "TcpSocket \<Rightarrow> TcpPacket \<Rightarrow> bool \<times> TcpSocket" where
  "accept_in_order_payload s p =
     (if pk_payload p = [] then (False, s)
      else
        (True,
         if pk_seq p = ack s
         then let accepted = min (length (pk_payload p)) (recv_window_available s) in
              if accepted > 0
              then s\<lparr>ack := pk_seq p + of_nat accepted,
                     rx_buffer := rx_buffer s @ take accepted (pk_payload p)\<rparr>
              else s
         else s))"

definition consume_remote_fin :: "TcpSocket \<Rightarrow> TcpPacket \<Rightarrow> bool \<times> TcpSocket" where
  "consume_remote_fin s p =
     (if \<not> has_flag p TCP_FLAG_FIN then (False, s)
      else let fin_seq = pk_seq p + of_nat (length (pk_payload p)) in
           if fin_seq \<noteq> ack s then (False, s)
           else (True, s\<lparr>ack := fin_seq + 1\<rparr>))"

definition ack_if :: "bool \<Rightarrow> TcpSocket \<Rightarrow> TcpOutbound option" where
  "ack_if needed s = (if needed then Some (build_outbound s TCP_FLAG_ACK []) else None)"

definition handle_established_like ::
    "TcpSocket \<Rightarrow> TcpPacket \<Rightarrow> TcpState \<Rightarrow> TcpSocket \<times> TcpOutbound option" where
  "handle_established_like s p fin_state =
     (let s1 = (if pk_payload p \<noteq> [] \<and> pk_seq p = ack s
                then let accepted = min (length (pk_payload p)) (recv_window_available s) in
                     if accepted > 0
                     then s\<lparr>ack := pk_seq p + of_nat accepted,
                            rx_buffer := rx_buffer s @ take accepted (pk_payload p)\<rparr>
                     else s
                else s);
          fin_seq = pk_seq p + of_nat (length (pk_payload p));
          s2 = (if has_flag p TCP_FLAG_FIN \<and> fin_seq = ack s1
                then s1\<lparr>ack := fin_seq + 1, state := fin_state\<rparr> else s1)
      in (s2, ack_if (pk_payload p \<noteq> [] \<or> has_flag p TCP_FLAG_FIN) s2))"

definition handle_fin_wait1 :: "nat \<Rightarrow> TcpSocket \<Rightarrow> TcpPacket \<Rightarrow> TcpSocket \<times> TcpOutbound option" where
  "handle_fin_wait1 now s p =
     (let fin_acked = fin_acknowledged s p;
          (ack_needed, s1) = accept_in_order_payload s p;
          (consumed, s2) = consume_remote_fin s1 p
      in if consumed
         then let s3 = (if fin_acked then enter_time_wait now s2 else s2\<lparr>state := Closing\<rparr>)
              in (s3, ack_if True s3)
         else let s3 = (if fin_acked then s2\<lparr>state := FinWait2\<rparr> else s2)
              in (s3, ack_if ack_needed s3))"

definition handle_fin_wait2 :: "nat \<Rightarrow> TcpSocket \<Rightarrow> TcpPacket \<Rightarrow> TcpSocket \<times> TcpOutbound option" where
  "handle_fin_wait2 now s p =
     (let (ack_needed, s1) = accept_in_order_payload s p;
          (consumed, s2) = consume_remote_fin s1 p;
          s3 = (if consumed then enter_time_wait now s2 else s2)
      in (s3, ack_if (ack_needed \<or> consumed) s3))"

definition handle_closing :: "nat \<Rightarrow> TcpSocket \<Rightarrow> TcpPacket \<Rightarrow> TcpSocket \<times> TcpOutbound option" where
  "handle_closing now s p =
     (let outbound = ack_if (has_flag p TCP_FLAG_FIN) s in
      (if fin_acknowledged s p then enter_time_wait now s else s, outbound))"

subsection \<open>The stack\<close>

record TcpStack =
  sockets :: "TcpSocket list"
  accept_queue :: "TcpSocket list"
  pending_outbound :: "TcpOutbound list"
  retransmits :: "TcpRetransmit list"

definition TcpStack_new :: TcpStack where
  "TcpStack_new = \<lparr>sockets = [], accept_queue = [], pending_outbound = [], retransmits = []\<rparr>"

definition set_socket :: "TcpStack \<Rightarrow> usize \<Rightarrow> TcpSocket \<Rightarrow> TcpStack" where
  "set_socket st i s = st\<lparr>sockets := (sockets st)[i := s]\<rparr>"

definition tcp_open :: "TcpStack \<Rightarrow> usize \<times> TcpStack" where
  "tcp_open st =
     (let port = 49152 + of_nat (length (sockets st));
          st' = st\<lparr>sockets := sockets st @ [TcpSocket_new port]\<rparr>
      in (length (sockets st') - 1, st'))"

definition bind_existing :: "TcpStack \<Rightarrow> usize \<Rightarrow> u16 \<Rightarrow> (TcpError, unit) result \<times> TcpStack" where
  "bind_existing st i port =
     (case nth_opt (sockets st) i of
        None \<Rightarrow> (Err InvalidState, st)
      | Some s \<Rightarrow> (Ok (), set_socket st i (s\<lparr>local_port := port\<rparr>)))"

definition tcp_listen :: "TcpStack \<Rightarrow> usize \<Rightarrow> (TcpError, unit) result \<times> TcpStack" where
  "tcp_listen st i =
     (case nth_opt (sockets st) i of
        None \<Rightarrow> (Err InvalidState, st)
      | Some s \<Rightarrow> (Ok (), set_socket st i (TcpSocket_listen s)))"

definition queue_outbound :: "TcpStack \<Rightarrow> TcpOutbound \<Rightarrow> TcpRetransmit option \<Rightarrow> TcpStack" where
  "queue_outbound st outbound retransmit =
     (let st1 = (case retransmit of None \<Rightarrow> st
                 | Some r \<Rightarrow> st\<lparr>retransmits := retransmits st @ [r]\<rparr>)
      in st1\<lparr>pending_outbound := pending_outbound st1 @ [outbound]\<rparr>)"

definition transmit :: "nat \<Rightarrow> TcpStack \<Rightarrow> usize \<Rightarrow> TcpSocket \<Rightarrow> u8 \<Rightarrow> bytes \<Rightarrow> TcpStack" where
  "transmit now st i s flags pl =
     (let sq = seq s;
          outbound = build_outbound s flags pl;
          span = tcp_sequence_span flags (length pl);
          retransmit = build_retransmit now s (ob_segment outbound) sq span
      in queue_outbound (set_socket st i (s\<lparr>seq := seq s + span\<rparr>)) outbound retransmit)"

definition tcp_connect ::
    "nat \<Rightarrow> TcpStack \<Rightarrow> usize \<Rightarrow> Ipv4Addr \<Rightarrow> u16 \<Rightarrow> (TcpError, unit) result \<times> TcpStack" where
  "tcp_connect now st i ip port =
     (case nth_opt (sockets st) i of
        None \<Rightarrow> (Err InvalidState, st)
      | Some s \<Rightarrow>
          (case state s of
             Closed \<Rightarrow>
               (Ok (), transmit now st i
                  (s\<lparr>remote_ip := ip, remote_port := port, state := SynSent, error := None,
                     time_wait_deadline_tick := None\<rparr>) TCP_FLAG_SYN [])
           | SynSent \<Rightarrow> (Err InProgress, st)
           | Established \<Rightarrow> (Err AlreadyConnected, st)
           | _ \<Rightarrow> (Err InvalidState, st)))"

definition tcp_accept :: "TcpStack \<Rightarrow> usize \<Rightarrow> (TcpError, usize) result \<times> TcpStack" where
  "tcp_accept st i =
     (case nth_opt (sockets st) i of
        None \<Rightarrow> (Err InvalidState, st)
      | Some listener \<Rightarrow>
          if state listener \<noteq> Listen then (Err InvalidState, st)
          else if accept_queue st = [] then (Err WouldBlock, st)
          else let peer = last (accept_queue st);
                   st' = st\<lparr>accept_queue := butlast (accept_queue st),
                            sockets := sockets st @ [peer]\<rparr>
               in (Ok (length (sockets st') - 1), st'))"

definition tcp_send :: "nat \<Rightarrow> TcpStack \<Rightarrow> usize \<Rightarrow> bytes \<Rightarrow> (TcpError, usize) result \<times> TcpStack" where
  "tcp_send now st i data =
     (case nth_opt (sockets st) i of
        None \<Rightarrow> (Err InvalidState, st)
      | Some s \<Rightarrow>
          (case error s of
             Some e \<Rightarrow> (Err e, st)
           | None \<Rightarrow>
               if \<not> established s then (Err NotConnected, st)
               else (Ok (length data), transmit now st i s (TCP_FLAG_ACK OR TCP_FLAG_PSH) data)))"

text \<open>\<open>recv\<close> returns the bytes it stores into a buffer of \<open>buf_len\<close> bytes.\<close>

definition tcp_recv :: "TcpStack \<Rightarrow> usize \<Rightarrow> usize \<Rightarrow> (TcpError, bytes) result \<times> TcpStack" where
  "tcp_recv st i buf_len =
     (case nth_opt (sockets st) i of
        None \<Rightarrow> (Err InvalidState, st)
      | Some s \<Rightarrow>
          (case error s of
             Some e \<Rightarrow> (Err e, st)
           | None \<Rightarrow>
               if rx_buffer s = []
               then (case state s of
                       Established \<Rightarrow> Err WouldBlock
                     | CloseWait \<Rightarrow> Ok [] | TimeWait \<Rightarrow> Ok [] | Closed \<Rightarrow> Ok []
                     | _ \<Rightarrow> Err NotConnected, st)
               else (Ok (take buf_len (rx_buffer s)),
                     set_socket st i (s\<lparr>rx_buffer := drop buf_len (rx_buffer s)\<rparr>))))"

definition tcp_close :: "nat \<Rightarrow> TcpStack \<Rightarrow> usize \<Rightarrow> (TcpError, unit) result \<times> TcpStack" where
  "tcp_close now st i =
     (case nth_opt (sockets st) i of
        None \<Rightarrow> (Err InvalidState, st)
      | Some s \<Rightarrow>
          (let fin = (\<lambda>next_state.
             (Ok (), transmit now st i (s\<lparr>state := next_state, time_wait_deadline_tick := None\<rparr>)
                       (TCP_FLAG_ACK OR TCP_FLAG_FIN) []))
           in case state s of
             Established \<Rightarrow> fin FinWait1
           | CloseWait \<Rightarrow> fin LastAck
           | FinWait1 \<Rightarrow> (Ok (), st)
           | FinWait2 \<Rightarrow> (Ok (), st)
           | LastAck \<Rightarrow> (Ok (), st)
           | TimeWait \<Rightarrow> (Ok (), st)
           | _ \<Rightarrow> (Ok (), set_socket st i (s\<lparr>state := Closed\<rparr>))))"

definition same_connection :: "TcpRetransmit \<Rightarrow> Ipv4Addr \<Rightarrow> u16 \<Rightarrow> u16 \<Rightarrow> bool" where
  "same_connection e ip rport lport \<longleftrightarrow>
     rt_dst_ip e = ip \<and> rt_remote_port e = rport \<and> rt_local_port e = lport"

definition acknowledge :: "TcpStack \<Rightarrow> Ipv4Addr \<Rightarrow> u16 \<Rightarrow> u16 \<Rightarrow> u32 \<Rightarrow> TcpStack" where
  "acknowledge st ip rport lport ak =
     st\<lparr>retransmits :=
          filter (\<lambda>e. \<not> (same_connection e ip rport lport \<and> rt_end_seq e \<le> ak)) (retransmits st)\<rparr>"

definition remove_retransmits :: "TcpStack \<Rightarrow> Ipv4Addr \<Rightarrow> u16 \<Rightarrow> u16 \<Rightarrow> TcpStack" where
  "remove_retransmits st ip rport lport =
     st\<lparr>retransmits := filter (\<lambda>e. \<not> same_connection e ip rport lport) (retransmits st)\<rparr>"

definition push_outbound :: "TcpStack \<Rightarrow> TcpOutbound option \<Rightarrow> TcpStack" where
  "push_outbound st ob =
     (case ob of None \<Rightarrow> st | Some o' \<Rightarrow> st\<lparr>pending_outbound := pending_outbound st @ [o']\<rparr>)"

text \<open>
  The \<open>match socket.state\<close> of \<open>handle_socket_packet\<close>: the updated socket, the
  segment to send, and the peer a listening socket adds to the accept queue.
\<close>

definition socket_react ::
    "nat \<Rightarrow> TcpSocket \<Rightarrow> TcpPacket \<Rightarrow> TcpSocket \<times> TcpOutbound option \<times> TcpSocket option" where
  "socket_react now s p =
     (case state s of
        SynSent \<Rightarrow>
          if pk_flags p AND (TCP_FLAG_SYN OR TCP_FLAG_ACK) = TCP_FLAG_SYN OR TCP_FLAG_ACK
          then let s1 = s\<lparr>ack := pk_seq p + 1, seq := pk_ack p, state := Established,
                          error := None, time_wait_deadline_tick := None\<rparr>
               in (s1, ack_if True s1, None)
          else (s, None, None)
      | Established \<Rightarrow> (let (s1, o') = handle_established_like s p CloseWait in (s1, o', None))
      | Listen \<Rightarrow>
          if has_flag p TCP_FLAG_SYN
          then let peer = (TcpSocket_new (local_port s))\<lparr>remote_ip := pk_src_ip p,
                     remote_port := pk_src_port p, state := Established, seq := 1,
                     ack := pk_seq p + 1\<rparr>
               in (s, Some (build_outbound peer (TCP_FLAG_SYN OR TCP_FLAG_ACK) []),
                   Some (peer\<lparr>seq := seq peer + 1\<rparr>))
          else (s, None, None)
      | CloseWait \<Rightarrow> (let (s1, o') = handle_established_like s p CloseWait in (s1, o', None))
      | FinWait1 \<Rightarrow> (let (s1, o') = handle_fin_wait1 now s p in (s1, o', None))
      | FinWait2 \<Rightarrow> (let (s1, o') = handle_fin_wait2 now s p in (s1, o', None))
      | Closing \<Rightarrow> (let (s1, o') = handle_closing now s p in (s1, o', None))
      | LastAck \<Rightarrow>
          let o' = ack_if (has_flag p TCP_FLAG_FIN) s in
          (if fin_acknowledged s p then s\<lparr>state := Closed, time_wait_deadline_tick := None\<rparr> else s,
           o', None)
      | TimeWait \<Rightarrow>
          if has_flag p TCP_FLAG_FIN
          then let s1 = enter_time_wait now s in (s1, ack_if True s1, None)
          else (s, None, None)
      | Closed \<Rightarrow> (s, None, None))"

definition handle_socket_packet :: "nat \<Rightarrow> TcpStack \<Rightarrow> usize \<Rightarrow> TcpPacket \<Rightarrow> bool \<times> TcpStack" where
  "handle_socket_packet now st i p =
     (let s0 = sockets st ! i in
      if has_flag p TCP_FLAG_RST \<and> state s0 \<noteq> Listen
      then (True,
            remove_retransmits
              (set_socket st i (s0\<lparr>state := Closed, error := Some ConnectionReset,
                                   time_wait_deadline_tick := None\<rparr>))
              (pk_src_ip p) (pk_src_port p) (pk_dst_port p))
      else
        let st1 = (if has_flag p TCP_FLAG_ACK
                   then acknowledge st (pk_src_ip p) (pk_src_port p) (pk_dst_port p) (pk_ack p)
                   else st);
            (s1, outbound, peer) = socket_react now (sockets st1 ! i) p;
            st2 = set_socket st1 i s1;
            st3 = (case peer of None \<Rightarrow> st2
                   | Some q \<Rightarrow> st2\<lparr>accept_queue := accept_queue st2 @ [q]\<rparr>)
        in (True, push_outbound st3 outbound))"

definition queued_react :: "nat \<Rightarrow> TcpSocket \<Rightarrow> TcpPacket \<Rightarrow> TcpSocket \<times> TcpOutbound option" where
  "queued_react now s p =
     (case state s of
        Established \<Rightarrow> handle_established_like s p CloseWait
      | CloseWait \<Rightarrow> handle_established_like s p CloseWait
      | FinWait1 \<Rightarrow> handle_fin_wait1 now s p
      | FinWait2 \<Rightarrow> handle_fin_wait2 now s p
      | Closing \<Rightarrow> handle_closing now s p
      | TimeWait \<Rightarrow>
          if has_flag p TCP_FLAG_FIN
          then let s1 = enter_time_wait now s in (s1, ack_if True s1) else (s, None)
      | _ \<Rightarrow> (s, None))"

definition handle_queued_accept_packet ::
    "nat \<Rightarrow> TcpStack \<Rightarrow> usize \<Rightarrow> TcpPacket \<Rightarrow> bool \<times> TcpStack" where
  "handle_queued_accept_packet now st i p =
     (if has_flag p TCP_FLAG_RST
      then (True,
            remove_retransmits (st\<lparr>accept_queue := remove_at i (accept_queue st)\<rparr>)
              (pk_src_ip p) (pk_src_port p) (pk_dst_port p))
      else
        let st1 = (if has_flag p TCP_FLAG_ACK
                   then acknowledge st (pk_src_ip p) (pk_src_port p) (pk_dst_port p) (pk_ack p)
                   else st);
            (s1, outbound) = queued_react now (accept_queue st1 ! i) p
        in (True, push_outbound (st1\<lparr>accept_queue := (accept_queue st1)[i := s1]\<rparr>) outbound))"

definition handle_packet :: "nat \<Rightarrow> TcpStack \<Rightarrow> TcpPacket \<Rightarrow> bool \<times> TcpStack" where
  "handle_packet now st p =
     (case position (\<lambda>s. matches_packet s p) (sockets st) of
        Some i \<Rightarrow> handle_socket_packet now st i p
      | None \<Rightarrow>
          (case position (\<lambda>s. matches_packet s p) (accept_queue st) of
             Some i \<Rightarrow> handle_queued_accept_packet now st i p
           | None \<Rightarrow>
               (case position (\<lambda>s. state s = Listen \<and> local_port s = pk_dst_port p) (sockets st) of
                  None \<Rightarrow>
                    if \<not> has_flag p TCP_FLAG_RST
                    then (True, push_outbound st (Some (build_reset_for_unmatched p)))
                    else (False, st)
                | Some i \<Rightarrow> handle_socket_packet now st i p)))"

subsection \<open>Timers\<close>

definition expire_time_wait :: "TcpStack \<Rightarrow> nat \<Rightarrow> TcpStack" where
  "expire_time_wait st now =
     st\<lparr>sockets := map (\<lambda>s.
          if state s = TimeWait \<and>
             (case time_wait_deadline_tick s of None \<Rightarrow> False | Some deadline \<Rightarrow> deadline \<le> now)
          then s\<lparr>state := Closed, time_wait_deadline_tick := None\<rparr> else s) (sockets st)\<rparr>"

definition fail_socket :: "TcpStack \<Rightarrow> Ipv4Addr \<Rightarrow> u16 \<Rightarrow> u16 \<Rightarrow> TcpError \<Rightarrow> TcpStack" where
  "fail_socket st ip rport lport e =
     st\<lparr>sockets := update_first
          (\<lambda>s. remote_ip s = ip \<and> remote_port s = rport \<and> local_port s = lport)
          (\<lambda>s. s\<lparr>state := Closed, error := Some e, time_wait_deadline_tick := None\<rparr>) (sockets st)\<rparr>"

text \<open>
  One pass over the retransmit entries: the updated entries, the segments to
  send again and the connections that have used up their attempts.
\<close>

fun retransmit_pass ::
    "nat \<Rightarrow> TcpRetransmit list \<Rightarrow>
     TcpRetransmit list \<times> TcpOutbound list \<times> (Ipv4Addr \<times> u16 \<times> u16) list" where
  "retransmit_pass now [] = ([], [], [])"
| "retransmit_pass now (e # es) =
     (let (es', out, failed) = retransmit_pass now es in
      if rt_deadline_tick e > now then (e # es', out, failed)
      else if rt_attempts e \<ge> TCP_MAX_RETRANSMITS
      then (e # es', out, (rt_dst_ip e, rt_remote_port e, rt_local_port e) # failed)
      else
        let attempts = min (rt_attempts e + 1) 255;
            backoff = TCP_RETRANSMIT_TICKS * 2 ^ min attempts 5
        in (e\<lparr>rt_attempts := attempts, rt_deadline_tick := saturating_add now backoff\<rparr> # es',
            \<lparr>ob_dst_ip = rt_dst_ip e, ob_segment = rt_segment e\<rparr> # out, failed))"

definition poll_retransmit :: "TcpStack \<Rightarrow> nat \<Rightarrow> bool \<times> TcpStack" where
  "poll_retransmit st now =
     (let st1 = expire_time_wait st now;
          (es, out, failed) = retransmit_pass now (retransmits st1);
          st2 = st1\<lparr>retransmits := es, pending_outbound := pending_outbound st1 @ out\<rparr>
      in if failed \<noteq> []
         then (True,
               foldl (\<lambda>s (ip, rport, lport). fail_socket s ip rport lport TimedOut)
                 (st2\<lparr>retransmits := filter (\<lambda>e. \<not> list_ex (\<lambda>(ip, rport, lport).
                    same_connection e ip rport lport) failed) (retransmits st2)\<rparr>) failed)
         else (out \<noteq> [], st2))"

definition pop_outbound :: "TcpStack \<Rightarrow> TcpOutbound option \<times> TcpStack" where
  "pop_outbound st =
     (case pending_outbound st of
        [] \<Rightarrow> (None, st) | ob # rest \<Rightarrow> (Some ob, st\<lparr>pending_outbound := rest\<rparr>))"

definition has_pending_accept :: "TcpStack \<Rightarrow> bool" where
  "has_pending_accept st \<longleftrightarrow> accept_queue st \<noteq> []"

definition tcp_established :: "TcpStack \<Rightarrow> usize \<Rightarrow> bool" where
  "tcp_established st i = (case nth_opt (sockets st) i of None \<Rightarrow> False | Some s \<Rightarrow> established s)"

definition tcp_local_port :: "TcpStack \<Rightarrow> usize \<Rightarrow> u16 option" where
  "tcp_local_port st i = map_option local_port (nth_opt (sockets st) i)"

definition peer_addr :: "TcpStack \<Rightarrow> usize \<Rightarrow> (Ipv4Addr \<times> u16) option" where
  "peer_addr st i =
     (case nth_opt (sockets st) i of
        None \<Rightarrow> None
      | Some s \<Rightarrow> if remote_port s = 0 then None else Some (remote_ip s, remote_port s))"

definition take_error :: "TcpStack \<Rightarrow> usize \<Rightarrow> TcpError option \<times> TcpStack" where
  "take_error st i =
     (case nth_opt (sockets st) i of
        None \<Rightarrow> (None, st)
      | Some s \<Rightarrow> (error s, set_socket st i (s\<lparr>error := None\<rparr>)))"

subsection \<open>Sequences of stack operations\<close>

datatype TcpEvent =
  EvOpen
| EvBind usize u16
| EvListen usize
| EvConnect nat usize Ipv4Addr u16
| EvAccept usize
| EvSend nat usize bytes
| EvRecv usize usize
| EvClose nat usize
| EvPacket nat TcpPacket
| EvPoll nat
| EvPop
| EvTakeError usize

fun tcp_step :: "TcpStack \<Rightarrow> TcpEvent \<Rightarrow> TcpStack" where
  "tcp_step st EvOpen = snd (tcp_open st)"
| "tcp_step st (EvBind i port) = snd (bind_existing st i port)"
| "tcp_step st (EvListen i) = snd (tcp_listen st i)"
| "tcp_step st (EvConnect now i ip port) = snd (tcp_connect now st i ip port)"
| "tcp_step st (EvAccept i) = snd (tcp_accept st i)"
| "tcp_step st (EvSend now i data) = snd (tcp_send now st i data)"
| "tcp_step st (EvRecv i n) = snd (tcp_recv st i n)"
| "tcp_step st (EvClose now i) = snd (tcp_close now st i)"
| "tcp_step st (EvPacket now p) = snd (handle_packet now st p)"
| "tcp_step st (EvPoll now) = snd (poll_retransmit st now)"
| "tcp_step st EvPop = snd (pop_outbound st)"
| "tcp_step st (EvTakeError i) = snd (take_error st i)"

text \<open>The bytes a reader of socket \<open>j\<close> obtains from one operation.\<close>

fun delivered :: "usize \<Rightarrow> TcpStack \<Rightarrow> TcpEvent \<Rightarrow> bytes" where
  "delivered j st (EvRecv i n) =
     (if i = j then (case fst (tcp_recv st i n) of Inl _ \<Rightarrow> [] | Inr bs \<Rightarrow> bs) else [])"
| "delivered j st _ = []"

fun tcp_run :: "usize \<Rightarrow> TcpStack \<Rightarrow> bytes \<Rightarrow> TcpEvent list \<Rightarrow> TcpStack \<times> bytes" where
  "tcp_run j st del [] = (st, del)"
| "tcp_run j st del (ev # evs) = tcp_run j (tcp_step st ev) (del @ delivered j st ev) evs"

subsection \<open>Specifications\<close>

text \<open>The receive buffer never exceeds the window the socket advertises.\<close>

definition window_ok :: "TcpSocket \<Rightarrow> bool" where
  "window_ok s \<longleftrightarrow> window s = TCP_RECV_WINDOW \<and> length (rx_buffer s) \<le> unat TCP_RECV_WINDOW"

text \<open>
  A packet of a peer that sends the byte stream \<open>S\<close>, the first byte having
  sequence number \<open>isn\<close>: its payload is the part of \<open>S\<close> at its sequence
  number, and a FIN stands at the end of \<open>S\<close>.
\<close>

definition in_stream :: "bytes \<Rightarrow> u32 \<Rightarrow> TcpPacket \<Rightarrow> bool" where
  "in_stream S isn p \<longleftrightarrow>
     (pk_payload p = [] \<and> \<not> has_flag p TCP_FLAG_FIN) \<or>
     (\<exists>off. pk_seq p = isn + of_nat off \<and> off + length (pk_payload p) \<le> length S \<and>
        pk_payload p = take (length (pk_payload p)) (drop off S) \<and>
        (has_flag p TCP_FLAG_FIN \<longrightarrow> off + length (pk_payload p) = length S))"

text \<open>
  The receiver's view: the bytes read so far and the receive buffer form a
  prefix of the stream, and the acknowledgement number is its length (plus one
  once the FIN has been consumed).
\<close>

definition stream_ok :: "bytes \<Rightarrow> u32 \<Rightarrow> Ipv4Addr \<Rightarrow> u16 \<Rightarrow> bytes \<Rightarrow> TcpSocket \<Rightarrow> bool" where
  "stream_ok S isn ip port del s \<longleftrightarrow>
     remote_ip s = ip \<and> remote_port s = port \<and> length S + 1 < 2 ^ 32 \<and>
     (\<exists>n \<le> length S. del @ rx_buffer s = take n S \<and>
        (ack s = isn + of_nat n \<or> n = length S \<and> ack s = isn + of_nat (n + 1)))"

text \<open>The transitions of the RFC 793 diagram that an arriving packet may cause.\<close>

inductive packet_transition :: "TcpState \<Rightarrow> TcpState \<Rightarrow> bool" where
  stay: "packet_transition x x"
| reset: "packet_transition x Closed"
| syn_ack: "packet_transition SynSent Established"
| remote_fin: "packet_transition Established CloseWait"
| fin_ack: "packet_transition FinWait1 FinWait2"
| simultaneous: "packet_transition FinWait1 Closing"
| fin_and_ack: "packet_transition FinWait1 TimeWait"
| last_fin: "packet_transition FinWait2 TimeWait"
| closing_ack: "packet_transition Closing TimeWait"

text \<open>What a packet does to one socket, as a composition of elementary updates.\<close>

definition timed_update :: "TcpState \<Rightarrow> nat option \<Rightarrow> TcpSocket \<Rightarrow> TcpSocket" where
  "timed_update x d s = s\<lparr>state := x, time_wait_deadline_tick := d\<rparr>"

abbreviation absorb :: "TcpSocket \<Rightarrow> TcpPacket \<Rightarrow> TcpSocket" where
  "absorb s p \<equiv> snd (consume_remote_fin (snd (accept_in_order_payload s p)) p)"

text \<open>A socket that satisfies \<open>P\<close> and is not waiting for the answer to its SYN.\<close>

definition live :: "(bytes \<Rightarrow> TcpSocket \<Rightarrow> bool) \<Rightarrow> bytes \<Rightarrow> TcpSocket \<Rightarrow> bool" where
  "live P del s \<longleftrightarrow> P del s \<and> state s \<noteq> SynSent"

definition all_sockets :: "(TcpSocket \<Rightarrow> bool) \<Rightarrow> TcpStack \<Rightarrow> bool" where
  "all_sockets Q st \<longleftrightarrow> (\<forall>s \<in> set (sockets st) \<union> set (accept_queue st). Q s)"

text \<open>Four units per queued segment, less the attempts already made.\<close>

definition retry_budget :: "TcpRetransmit list \<Rightarrow> nat" where
  "retry_budget es = sum_list (map (\<lambda>e. 4 - rt_attempts e) es)"

section \<open>Lemmas\<close>

lemmas tcp_op_defs =
  bind_existing_def tcp_listen_def tcp_connect_def tcp_accept_def tcp_send_def tcp_recv_def
  tcp_close_def take_error_def pop_outbound_def tcp_open_def

subsection \<open>Frame properties\<close>

lemma set_socket_fields [simp]:
  "sockets (set_socket st i s) = (sockets st)[i := s]"
  "accept_queue (set_socket st i s) = accept_queue st"
  "retransmits (set_socket st i s) = retransmits st"
  by (simp_all add: set_socket_def)

lemma queue_outbound_fields [simp]:
  "sockets (queue_outbound st ob rt) = sockets st"
  "accept_queue (queue_outbound st ob rt) = accept_queue st"
  by (simp_all add: queue_outbound_def Let_def split: option.splits)

lemma push_outbound_fields [simp]:
  "sockets (push_outbound st ob) = sockets st"
  "accept_queue (push_outbound st ob) = accept_queue st"
  "retransmits (push_outbound st ob) = retransmits st"
  by (simp_all add: push_outbound_def split: option.splits)

lemma retransmit_fields [simp]:
  "sockets (acknowledge st ip r l a) = sockets st"
  "accept_queue (acknowledge st ip r l a) = accept_queue st"
  "sockets (remove_retransmits st ip r l) = sockets st"
  "accept_queue (remove_retransmits st ip r l) = accept_queue st"
  by (simp_all add: acknowledge_def remove_retransmits_def)

lemma transmit_fields [simp]:
  "sockets (transmit now st i s flags pl) =
     (sockets st)[i := s\<lparr>seq := seq s + tcp_sequence_span flags (length pl)\<rparr>]"
  "accept_queue (transmit now st i s flags pl) = accept_queue st"
  by (simp_all add: transmit_def Let_def)

text \<open>\<open>handle_established_like\<close> repeats the two helpers the other states call.\<close>

lemma handle_established_like_eq:
  "handle_established_like s p f =
     (let s1 = snd (accept_in_order_payload s p);
          (consumed, s2) = consume_remote_fin s1 p;
          s3 = (if consumed then s2\<lparr>state := f\<rparr> else s2)
      in (s3, ack_if (pk_payload p \<noteq> [] \<or> has_flag p TCP_FLAG_FIN) s3))"
  by (simp add: handle_established_like_def accept_in_order_payload_def consume_remote_fin_def
      Let_def)

lemma accept_fields [simp]:
  "state (snd (accept_in_order_payload s p)) = state s"
  "remote_ip (snd (accept_in_order_payload s p)) = remote_ip s"
  "remote_port (snd (accept_in_order_payload s p)) = remote_port s"
  "local_port (snd (accept_in_order_payload s p)) = local_port s"
  "seq (snd (accept_in_order_payload s p)) = seq s"
  by (simp_all add: accept_in_order_payload_def Let_def)

lemma consume_fields [simp]:
  "state (snd (consume_remote_fin s p)) = state s"
  "rx_buffer (snd (consume_remote_fin s p)) = rx_buffer s"
  by (simp_all add: consume_remote_fin_def Let_def)

lemma matches_accept [simp]:
  "matches_packet (snd (accept_in_order_payload s p)) q = matches_packet s q"
  by (simp add: matches_packet_def)

lemma state_update_timed: "s\<lparr>state := x\<rparr> = timed_update x (time_wait_deadline_tick s) s"
  by (simp add: timed_update_def)

inductive_cases packet_transition_to_SynSent: "packet_transition x SynSent"

lemma packet_transition_not_SynSent: "packet_transition x y \<Longrightarrow> x \<noteq> SynSent \<Longrightarrow> y \<noteq> SynSent"
  by (auto elim: packet_transition_to_SynSent)

lemma timed_update_self: "timed_update (state s) (time_wait_deadline_tick s) s = s"
  by (simp add: timed_update_def)

lemma failed_timed:
  "s\<lparr>state := Closed, error := Some e, time_wait_deadline_tick := None\<rparr> =
     timed_update Closed None (s\<lparr>error := Some e\<rparr>)"
  by (simp add: timed_update_def)

lemma enter_time_wait_timed:
  "enter_time_wait now s = timed_update TimeWait (Some (saturating_add now TCP_TIME_WAIT_TICKS)) s"
  by (simp add: enter_time_wait_def timed_update_def)

lemma state_absorb [simp]: "state (absorb s p) = state s"
  by simp

lemma established_like_shape:
  "\<exists>x d. fst (handle_established_like s p f) = timed_update x d (absorb s p) \<and> x \<in> {state s, f}"
proof (cases "fst (consume_remote_fin (snd (accept_in_order_payload s p)) p)")
  case True
  then show ?thesis
    by (intro exI [of _ f] exI [of _ "time_wait_deadline_tick (absorb s p)"])
       (simp add: handle_established_like_eq Let_def case_prod_beta state_update_timed)
next
  case False
  then show ?thesis
    by (intro exI [of _ "state s"] exI [of _ "time_wait_deadline_tick (absorb s p)"])
       (simp add: handle_established_like_eq Let_def case_prod_beta timed_update_def)
qed

lemma fin_wait1_shape:
  assumes "state s = FinWait1"
  shows "\<exists>x d. fst (handle_fin_wait1 now s p) = timed_update x d (absorb s p)
    \<and> packet_transition FinWait1 x"
proof -
  let ?c = "fst (consume_remote_fin (snd (accept_in_order_payload s p)) p)"
  let ?d = "time_wait_deadline_tick (absorb s p)"
  consider (tw) "?c" "fin_acknowledged s p" | (cl) "?c" "\<not> fin_acknowledged s p"
    | (f2) "\<not> ?c" "fin_acknowledged s p" | (same) "\<not> ?c" "\<not> fin_acknowledged s p" by blast
  then show ?thesis
  proof cases
    case tw
    then show ?thesis
      by (auto simp: handle_fin_wait1_def Let_def case_prod_beta enter_time_wait_timed
          intro: packet_transition.intros)
  next
    case cl
    then show ?thesis
      by (intro exI [of _ Closing] exI [of _ ?d])
         (simp add: handle_fin_wait1_def Let_def case_prod_beta timed_update_def packet_transition.simps)
  next
    case f2
    then show ?thesis
      by (intro exI [of _ FinWait2] exI [of _ ?d])
         (simp add: handle_fin_wait1_def Let_def case_prod_beta timed_update_def packet_transition.simps)
  next
    case same
    have "absorb s p = timed_update FinWait1 ?d (absorb s p)"
      using assms timed_update_self [of "absorb s p"] by simp
    with same show ?thesis
      by (intro exI [of _ FinWait1] exI [of _ ?d])
         (simp add: handle_fin_wait1_def Let_def case_prod_beta packet_transition.simps)
  qed
qed

lemma fin_wait2_shape:
  assumes "state s = FinWait2"
  shows "\<exists>x d. fst (handle_fin_wait2 now s p) = timed_update x d (absorb s p)
    \<and> packet_transition FinWait2 x"
proof (cases "fst (consume_remote_fin (snd (accept_in_order_payload s p)) p)")
  case True
  then show ?thesis
    by (auto simp: handle_fin_wait2_def Let_def case_prod_beta enter_time_wait_timed
        intro: packet_transition.intros)
next
  case False
  have "absorb s p = timed_update FinWait2 (time_wait_deadline_tick (absorb s p)) (absorb s p)"
    using assms timed_update_self [of "absorb s p"] by simp
  with False show ?thesis
    by (intro exI [of _ FinWait2] exI [of _ "time_wait_deadline_tick (absorb s p)"])
       (simp add: handle_fin_wait2_def Let_def case_prod_beta packet_transition.simps)
qed

lemma closing_shape:
  assumes "state s = Closing"
  shows "\<exists>x d. fst (handle_closing now s p) = timed_update x d s \<and> packet_transition Closing x"
proof (cases "fin_acknowledged s p")
  case True
  then show ?thesis
    using closing_ack by (auto simp: handle_closing_def Let_def enter_time_wait_timed)
next
  case False
  then have "fst (handle_closing now s p) = timed_update Closing (time_wait_deadline_tick s) s"
    using assms timed_update_self [of s] by (simp add: handle_closing_def Let_def)
  then show ?thesis using stay by blast
qed

lemma socket_react_shape:
  assumes "state s \<noteq> SynSent"
  shows "\<exists>x d. (fst (socket_react now s p) = timed_update x d s
      \<or> fst (socket_react now s p) = timed_update x d (absorb s p))
     \<and> packet_transition (state s) x \<and> x \<noteq> SynSent"
proof -
  have same: ?thesis if "fst (socket_react now s p) = s"
    using that assms timed_update_self [of s] stay by metis
  have absorbed: ?thesis if "\<exists>x d. fst (socket_react now s p) = timed_update x d (absorb s p)
      \<and> packet_transition (state s) x"
    using that assms packet_transition_not_SynSent by metis
  show ?thesis
  proof (cases "state s")
    case Established
    then show ?thesis
      using established_like_shape [of s p CloseWait]
      by (intro absorbed) (auto simp: socket_react_def case_prod_beta intro: packet_transition.intros)
  next
    case CloseWait
    then show ?thesis
      using established_like_shape [of s p CloseWait]
      by (intro absorbed) (auto simp: socket_react_def case_prod_beta intro: packet_transition.intros)
  next
    case FinWait1
    then show ?thesis
      using fin_wait1_shape [of s now p] by (intro absorbed) (simp add: socket_react_def case_prod_beta)
  next
    case FinWait2
    then show ?thesis
      using fin_wait2_shape [of s now p] by (intro absorbed) (simp add: socket_react_def case_prod_beta)
  next
    case Closing
    then have "fst (socket_react now s p) = fst (handle_closing now s p)"
      by (simp add: socket_react_def case_prod_beta)
    then show ?thesis
      using closing_shape [OF Closing, of now p] Closing packet_transition_not_SynSent
      by (metis assms)
  next
    case LastAck
    show ?thesis
    proof (cases "fin_acknowledged s p")
      case True
      with LastAck have "fst (socket_react now s p) = timed_update Closed None s"
        by (simp add: socket_react_def Let_def timed_update_def)
      then show ?thesis by (blast intro: packet_transition.intros)
    qed (use LastAck in \<open>intro same; simp add: socket_react_def Let_def\<close>)
  next
    case TimeWait
    show ?thesis
    proof (cases "has_flag p TCP_FLAG_FIN")
      case True
      with TimeWait show ?thesis
        by (auto simp: socket_react_def Let_def enter_time_wait_timed intro: packet_transition.intros)
    qed (use TimeWait in \<open>intro same; simp add: socket_react_def\<close>)
  next
    case Closed
    then show ?thesis by (intro same) (simp add: socket_react_def)
  next
    case Listen
    then show ?thesis by (intro same) (simp add: socket_react_def Let_def)
  qed (use assms in simp)
qed

lemma handle_packet_cases:
  "(\<exists>i. position (\<lambda>s. matches_packet s p) (sockets st) = Some i \<and>
        handle_packet now st p = handle_socket_packet now st i p) \<or>
   (\<exists>i. position (\<lambda>s. matches_packet s p) (accept_queue st) = Some i \<and>
        handle_packet now st p = handle_queued_accept_packet now st i p) \<or>
   (\<exists>i. position (\<lambda>s. state s = Listen \<and> local_port s = pk_dst_port p) (sockets st) = Some i \<and>
        handle_packet now st p = handle_socket_packet now st i p) \<or>
   (sockets (snd (handle_packet now st p)) = sockets st \<and>
    accept_queue (snd (handle_packet now st p)) = accept_queue st \<and>
    retransmits (snd (handle_packet now st p)) = retransmits st)"
  by (simp add: handle_packet_def split: option.splits)

subsection \<open>Invariants of one socket under all stack operations\<close>

text \<open>
  A predicate \<open>P del s\<close> on a socket and the bytes read from it so far.  The laws
  say that \<open>P\<close> does not depend on the bookkeeping fields, and survives reading
  and the two packet updates for packets admitted by \<open>adm\<close>; the lemmas lift
  them to every operation of the stack.
\<close>

locale socket_predicate =
  fixes P :: "bytes \<Rightarrow> TcpSocket \<Rightarrow> bool"
    and adm :: "TcpPacket \<Rightarrow> bool"
  assumes P_timed: "P del s \<Longrightarrow> P del (timed_update x d s)"
    and P_error: "P del s \<Longrightarrow> P del (s\<lparr>error := e\<rparr>)"
    and P_seq: "P del s \<Longrightarrow> P del (s\<lparr>seq := q\<rparr>)"
    and P_port: "P del s \<Longrightarrow> P del (s\<lparr>local_port := port\<rparr>)"
    and P_read: "P del s \<Longrightarrow> P (del @ take n (rx_buffer s)) (s\<lparr>rx_buffer := drop n (rx_buffer s)\<rparr>)"
    and P_accept: "P del s \<Longrightarrow> adm p \<Longrightarrow> matches_packet s p \<Longrightarrow>
      P del (snd (accept_in_order_payload s p))"
    and P_fin: "P del s \<Longrightarrow> adm p \<Longrightarrow> matches_packet s p \<Longrightarrow> P del (snd (consume_remote_fin s p))"
begin

lemma live_timed: "live P del s \<Longrightarrow> x \<noteq> SynSent \<Longrightarrow> live P del (timed_update x d s)"
  by (simp add: live_def P_timed) (simp add: timed_update_def)

lemma live_react:
  assumes "live P del s" and "adm p" and "matches_packet s p \<or> state s = Listen"
  shows "live P del (fst (socket_react now s p))"
proof (cases "state s = Listen")
  case True
  then show ?thesis using assms(1) by (simp add: socket_react_def Let_def)
next
  case False
  then have m: "matches_packet s p" using assms(3) by simp
  have "P del (absorb s p)"
    using assms(1,2) m by (simp add: live_def P_fin P_accept)
  then show ?thesis
    using socket_react_shape [of s now p] assms(1)
    by (auto simp: live_def P_timed) (simp_all add: timed_update_def)
qed

lemma live_fail:
  assumes "live P del s"
  shows "live P del (s\<lparr>state := Closed, error := Some e, time_wait_deadline_tick := None\<rparr>)"
proof -
  show ?thesis
    unfolding failed_timed
    using live_timed [of del "s\<lparr>error := Some e\<rparr>" Closed None] assms
    by (simp add: live_def P_error)
qed

lemma live_socket_packet:
  assumes "live P del (sockets st ! j)" and "j < length (sockets st)" and "adm p"
    and "i = j \<Longrightarrow> matches_packet (sockets st ! j) p \<or> state (sockets st ! j) = Listen"
  shows "live P del (sockets (snd (handle_socket_packet now st i p)) ! j)"
    and "length (sockets (snd (handle_socket_packet now st i p))) = length (sockets st)"
proof -
  show "live P del (sockets (snd (handle_socket_packet now st i p)) ! j)"
    using assms live_react [OF assms(1,3), of now] live_fail
    by (auto simp: handle_socket_packet_def Let_def case_prod_beta nth_update_if split: option.splits)
  show "length (sockets (snd (handle_socket_packet now st i p))) = length (sockets st)"
    by (simp add: handle_socket_packet_def Let_def case_prod_beta split: option.splits)
qed

lemma live_packet:
  assumes "live P del (sockets st ! j)" and "j < length (sockets st)" and "adm p"
  shows "live P del (sockets (snd (handle_packet now st p)) ! j)"
    and "length (sockets (snd (handle_packet now st p))) = length (sockets st)"
proof -
  consider (direct) i where "position (\<lambda>s. matches_packet s p) (sockets st) = Some i"
      "handle_packet now st p = handle_socket_packet now st i p"
    | (queued) i where "position (\<lambda>s. matches_packet s p) (accept_queue st) = Some i"
      "handle_packet now st p = handle_queued_accept_packet now st i p"
    | (other) i where "position (\<lambda>s. state s = Listen \<and> local_port s = pk_dst_port p) (sockets st) = Some i"
      "handle_packet now st p = handle_socket_packet now st i p"
    | (none) "sockets (snd (handle_packet now st p)) = sockets st"
    using handle_packet_cases [of p st now] by blast
  then have "live P del (sockets (snd (handle_packet now st p)) ! j) \<and>
    length (sockets (snd (handle_packet now st p))) = length (sockets st)"
  proof cases
    case direct
    then show ?thesis
      using live_socket_packet [OF assms, of i] position_Some [OF direct(1)] by auto
  next
    case queued
    then show ?thesis
      using assms by (simp add: handle_queued_accept_packet_def Let_def case_prod_beta)
  next
    case other
    then show ?thesis
      using live_socket_packet [OF assms, of i] position_Some [OF other(1)] by auto
  qed (use assms in simp)
  then show "live P del (sockets (snd (handle_packet now st p)) ! j)"
    and "length (sockets (snd (handle_packet now st p))) = length (sockets st)"
    by blast+
qed

lemma live_fail_socket:
  assumes "live P del (sockets st ! j)" and "j < length (sockets st)"
  shows "live P del (sockets (fail_socket st ip rp lp e) ! j)
    \<and> length (sockets (fail_socket st ip rp lp e)) = length (sockets st)"
  using assms live_fail
  by (auto simp: fail_socket_def update_first_position nth_update_if split: option.splits)

lemma live_fail_sockets:
  assumes "live P del (sockets st ! j)" and "j < length (sockets st)"
  shows "live P del (sockets (foldl (\<lambda>s (ip, rport, lport). fail_socket s ip rport lport e) st cs) ! j)
    \<and> length (sockets (foldl (\<lambda>s (ip, rport, lport). fail_socket s ip rport lport e) st cs)) =
      length (sockets st)"
  using assms
proof (induction cs arbitrary: st)
  case Nil
  then show ?case by simp
next
  case (Cons c cs)
  obtain ip rp lp where c: "c = (ip, rp, lp)" by (cases c)
  from live_fail_socket [OF Cons.prems, of ip rp lp e] Cons.IH [of "fail_socket st ip rp lp e"]
    Cons.prems(2) show ?case
    by (simp add: c)
qed

lemma live_poll:
  assumes "live P del (sockets st ! j)" and "j < length (sockets st)"
  shows "live P del (sockets (snd (poll_retransmit st now)) ! j)
    \<and> length (sockets (snd (poll_retransmit st now))) = length (sockets st)"
proof -
  have "live P del (s\<lparr>state := Closed, time_wait_deadline_tick := None\<rparr>)" if "live P del s" for s
    using live_timed [OF that, of Closed None] by (simp add: timed_update_def)
  then have "live P del (sockets (expire_time_wait st now) ! j)"
    "j < length (sockets (expire_time_wait st now))"
    "length (sockets (expire_time_wait st now)) = length (sockets st)"
    using assms by (simp_all add: expire_time_wait_def)
  then show ?thesis
    using live_fail_sockets [of del "_\<lparr>retransmits := _, pending_outbound := _\<rparr>" j]
      live_fail_sockets [of del "_\<lparr>retransmits := _, pending_outbound := _, retransmits := _\<rparr>" j]
    by (simp add: poll_retransmit_def Let_def case_prod_beta)
qed

lemma live_step:
  assumes "live P del (sockets st ! j)" and "j < length (sockets st)"
    and "\<forall>now ip port. ev \<noteq> EvConnect now j ip port"
    and "\<forall>now p. ev = EvPacket now p \<longrightarrow> adm p"
  shows "live P (del @ delivered j st ev) (sockets (tcp_step st ev) ! j)
    \<and> j < length (sockets (tcp_step st ev))"
proof (cases ev)
  case (EvPacket now p)
  then show ?thesis using assms live_packet [OF assms(1,2)] by simp
next
  case (EvPoll now)
  then show ?thesis using assms live_poll [OF assms(1,2)] by simp
next
  case (EvRecv i n)
  show ?thesis
  proof (cases "i = j")
    case True
    then show ?thesis
      using EvRecv assms(1,2) P_read
      by (auto simp: tcp_recv_def nth_opt_def live_def split: option.splits TcpState.splits)
  next
    case False
    then show ?thesis
      using EvRecv assms(1,2)
      by (auto simp: tcp_recv_def nth_opt_def split: option.splits TcpState.splits)
  qed
next
  case (EvClose now i)
  have "live P del (s\<lparr>state := x, time_wait_deadline_tick := None, seq := q\<rparr>)"
    if "live P del s" "x \<noteq> SynSent" for s x q
    using live_timed [OF that, of None] P_seq by (simp add: live_def timed_update_def)
  moreover have "live P del (s\<lparr>state := Closed\<rparr>)" if "live P del s" for s
    using live_timed [OF that, of Closed] by (simp add: state_update_timed)
  ultimately show ?thesis
    using EvClose assms(1,2)
    by (auto simp: tcp_close_def nth_opt_def nth_update_if Let_def split: TcpState.splits option.splits)
next
  case (EvListen i)
  have "live P del (TcpSocket_listen s)" if "live P del s" for s
    using live_timed [OF that, of Listen None] by (simp add: TcpSocket_listen_def timed_update_def)
  then show ?thesis
    using EvListen assms(1,2) by (auto simp: tcp_listen_def nth_opt_def nth_update_if split: option.splits)
next
  case (EvConnect now i ip port)
  then have "i \<noteq> j" using assms(3) by blast
  then show ?thesis
    using EvConnect assms(1,2)
    by (auto simp: tcp_connect_def nth_opt_def split: option.splits TcpState.splits)
qed (use assms(1,2) in \<open>auto simp: tcp_op_defs nth_opt_def nth_update_if nth_append live_def Let_def
       P_seq P_error P_port split: option.splits list.splits\<close>)

lemma live_run:
  assumes "live P del (sockets st ! j)" and "j < length (sockets st)"
    and "\<forall>ev\<in>set evs. (\<forall>now ip port. ev \<noteq> EvConnect now j ip port)
      \<and> (\<forall>now p. ev = EvPacket now p \<longrightarrow> adm p)"
  shows "live P (snd (tcp_run j st del evs)) (sockets (fst (tcp_run j st del evs)) ! j)"
  using assms
proof (induction evs arbitrary: st del)
  case Nil
  then show ?case by simp
next
  case (Cons ev evs)
  from live_step [OF Cons.prems(1,2), of ev] Cons.prems(3) Cons.IH show ?case by simp
qed

end

lemma all_sockets_split: "all_sockets Q st \<longleftrightarrow> list_all Q (sockets st) \<and> list_all Q (accept_queue st)"
  by (auto simp: all_sockets_def list_all_iff)

lemma list_all_update: "list_all Q xs \<Longrightarrow> Q x \<Longrightarrow> list_all Q (xs[i := x])"
  by (auto simp: list_all_iff dest: set_update_subset_insert [THEN subsetD])

lemma list_all_remove_at: "list_all Q xs \<Longrightarrow> list_all Q (remove_at i xs)"
  by (auto simp: list_all_iff remove_at_def dest: in_set_takeD in_set_dropD)

lemma list_all_update_first:
  "list_all Q xs \<Longrightarrow> (\<And>x. Q x \<Longrightarrow> Q (f x)) \<Longrightarrow> list_all Q (update_first R f xs)"
  by (induction xs) auto

lemma queued_react_fst:
  "fst (queued_react now s p) =
     (if state s \<in> {Closed, Listen, SynSent, LastAck} then s else fst (socket_react now s p))"
  by (cases "state s") (simp_all add: queued_react_def socket_react_def Let_def case_prod_beta)

text \<open>
  A predicate that holds of every fresh socket and does not depend on the
  connection identity holds of all sockets of the stack, the accept queue
  included, after any sequence of operations.
\<close>

locale socket_universal = socket_predicate P adm for P adm +
  assumes adm_all: "adm p"
    and P_any: "P del s \<Longrightarrow> P del' s"
    and P_ack: "P del s \<Longrightarrow> P del (s\<lparr>ack := a\<rparr>)"
    and P_remote: "P del s \<Longrightarrow> P del (s\<lparr>remote_ip := ip, remote_port := port\<rparr>)"
    and P_new: "P [] (TcpSocket_new port)"
begin

lemma P_all_react:
  assumes "P [] s" and "matches_packet s p \<or> state s = Listen"
  shows "P [] (fst (socket_react now s p))"
    and "snd (snd (socket_react now s p)) = Some peer \<Longrightarrow> P [] peer"
proof -
  show "P [] (fst (socket_react now s p))"
  proof (cases "state s = SynSent")
    case True
    have "P [] (timed_update Established None (s\<lparr>ack := pk_seq p + 1, seq := pk_ack p, error := None\<rparr>))"
      using assms(1) by (intro P_timed P_error P_seq P_ack)
    moreover have "timed_update Established None (s\<lparr>ack := pk_seq p + 1, seq := pk_ack p, error := None\<rparr>) =
        s\<lparr>ack := pk_seq p + 1, seq := pk_ack p, state := Established, error := None,
          time_wait_deadline_tick := None\<rparr>"
      by (simp add: timed_update_def)
    ultimately show ?thesis
      using True assms(1) by (simp add: socket_react_def Let_def)
  next
    case False
    then show ?thesis
      using live_react [of "[]" s p now] assms adm_all by (simp add: live_def)
  qed
  have "P [] (timed_update Established None (((TcpSocket_new (local_port s))\<lparr>remote_ip := pk_src_ip p,
      remote_port := pk_src_port p\<rparr>)\<lparr>seq := 2, ack := pk_seq p + 1\<rparr>))"
    by (intro P_timed P_ack P_seq P_remote P_new)
  moreover have "timed_update Established None (((TcpSocket_new (local_port s))\<lparr>remote_ip := pk_src_ip p,
      remote_port := pk_src_port p\<rparr>)\<lparr>seq := 2, ack := pk_seq p + 1\<rparr>) =
    (TcpSocket_new (local_port s))\<lparr>remote_ip := pk_src_ip p, remote_port := pk_src_port p,
      state := Established, seq := 2, ack := pk_seq p + 1\<rparr>"
    by (simp add: timed_update_def TcpSocket_new_def)
  ultimately show "snd (snd (socket_react now s p)) = Some peer \<Longrightarrow> P [] peer"
    by (cases "state s")
       (auto simp: socket_react_def Let_def case_prod_beta TcpSocket_new_def split: if_splits)
qed

lemma P_fail: "P [] s \<Longrightarrow> P [] (s\<lparr>state := Closed, error := Some e, time_wait_deadline_tick := None\<rparr>)"
  unfolding failed_timed by (intro P_timed P_error)

lemma all_socket_packet:
  assumes "all_sockets (P []) st" and "i < length (sockets st)"
    and "matches_packet (sockets st ! i) p \<or> state (sockets st ! i) = Listen"
  shows "all_sockets (P []) (snd (handle_socket_packet now st i p))"
proof -
  have "P [] (sockets st ! i)" using assms(1,2) by (simp add: all_sockets_split list_all_length)
  note react = P_all_react [OF this assms(3), of now] P_fail [OF this, of ConnectionReset]
  show ?thesis
  proof (cases "has_flag p TCP_FLAG_RST \<and> state (sockets st ! i) \<noteq> Listen")
    case True
    then show ?thesis
      using assms(1) react(3) by (simp add: handle_socket_packet_def all_sockets_split list_all_update)
  next
    case False
    then show ?thesis
      using assms(1) react
      by (cases "snd (snd (socket_react now (sockets st ! i) p))")
         (simp_all add: handle_socket_packet_def Let_def case_prod_beta all_sockets_split list_all_update)
  qed
qed

lemma all_queued_packet:
  assumes "all_sockets (P []) st" and "i < length (accept_queue st)" and "matches_packet (accept_queue st ! i) p"
  shows "all_sockets (P []) (snd (handle_queued_accept_packet now st i p))"
proof -
  have "P [] (accept_queue st ! i)" using assms(1,2) by (simp add: all_sockets_split list_all_length)
  with P_all_react(1) [OF this, of p now] assms(3) have "P [] (fst (queued_react now (accept_queue st ! i) p))"
    by (simp add: queued_react_fst)
  then show ?thesis
    using assms(1)
    by (simp add: handle_queued_accept_packet_def Let_def case_prod_beta all_sockets_split
        list_all_update list_all_remove_at)
qed

lemma all_packet:
  assumes "all_sockets (P []) st"
  shows "all_sockets (P []) (snd (handle_packet now st p))"
  using handle_packet_cases [of p st now]
proof (elim disjE exE conjE)
  fix i assume pos: "position (\<lambda>s. matches_packet s p) (sockets st) = Some i"
    and "handle_packet now st p = handle_socket_packet now st i p"
  then show ?thesis using all_socket_packet [OF assms, of i p] position_Some [OF pos] by simp
next
  fix i assume pos: "position (\<lambda>s. matches_packet s p) (accept_queue st) = Some i"
    and "handle_packet now st p = handle_queued_accept_packet now st i p"
  then show ?thesis using all_queued_packet [OF assms, of i p] position_Some [OF pos] by simp
next
  fix i assume pos: "position (\<lambda>s. state s = Listen \<and> local_port s = pk_dst_port p) (sockets st) = Some i"
    and "handle_packet now st p = handle_socket_packet now st i p"
  then show ?thesis using all_socket_packet [OF assms, of i p] position_Some [OF pos] by simp
qed (use assms in \<open>simp add: all_sockets_split\<close>)

lemma all_fail_sockets:
  "all_sockets (P []) st \<Longrightarrow>
   all_sockets (P []) (foldl (\<lambda>s (ip, rport, lport). fail_socket s ip rport lport e) st cs)"
proof (induction cs arbitrary: st)
  case (Cons c cs)
  obtain ip rp lp where c: "c = (ip, rp, lp)" by (cases c)
  have "all_sockets (P []) (fail_socket st ip rp lp e)"
    using Cons.prems P_fail by (simp add: all_sockets_split fail_socket_def list_all_update_first)
  then show ?case using Cons.IH by (simp add: c)
qed simp

lemma all_poll:
  assumes "all_sockets (P []) st"
  shows "all_sockets (P []) (snd (poll_retransmit st now))"
proof -
  have "P [] (s\<lparr>state := Closed, time_wait_deadline_tick := None\<rparr>)" if "P [] s" for s
    using P_timed [OF that, of Closed None] by (simp add: timed_update_def)
  then have "all_sockets (P []) (expire_time_wait st now)"
    using assms by (auto simp: all_sockets_split expire_time_wait_def list_all_iff)
  then have "all_sockets (P []) ((expire_time_wait st now)\<lparr>retransmits := r, pending_outbound := o'\<rparr>)"
    and "all_sockets (P []) ((expire_time_wait st now)\<lparr>retransmits := r, pending_outbound := o',
      retransmits := r'\<rparr>)" for r o' r'
    by (simp_all add: all_sockets_split)
  then show ?thesis
    using all_fail_sockets by (simp add: poll_retransmit_def Let_def case_prod_beta)
qed

lemma all_step:
  assumes "all_sockets (P []) st"
  shows "all_sockets (P []) (tcp_step st ev)"
proof -
  have nth: "P [] (sockets st ! i)" if "i < length (sockets st)" for i
    using that assms by (simp add: all_sockets_split list_all_length)
  have timed: "P [] (s\<lparr>state := x, time_wait_deadline_tick := d\<rparr>)" if "P [] s" for s x d
    using P_timed [OF that, of x d] by (simp add: timed_update_def)
  have st: "P [] (s\<lparr>state := x\<rparr>)" if "P [] s" for s x
    using P_timed [OF that, of x] by (simp add: state_update_timed)
  show ?thesis
  proof (cases ev)
    case (EvPacket now p)
    then show ?thesis using all_packet [OF assms] by simp
  next
    case (EvPoll now)
    then show ?thesis using all_poll [OF assms] by simp
  next
    case (EvConnect now i ip port)
    have "P [] ((sockets st ! i)\<lparr>remote_ip := ip, remote_port := port, state := SynSent,
        error := None, time_wait_deadline_tick := None, seq := q\<rparr>)" if "i < length (sockets st)" for q
    proof -
      have "P [] ((timed_update SynSent None ((sockets st ! i)\<lparr>remote_ip := ip, remote_port := port,
          error := None\<rparr>))\<lparr>seq := q\<rparr>)"
        using nth [OF that] by (intro P_seq P_timed P_error P_remote)
      moreover have "(timed_update SynSent None (s\<lparr>remote_ip := ip, remote_port := port,
          error := None\<rparr>))\<lparr>seq := q\<rparr> = s\<lparr>remote_ip := ip, remote_port := port, state := SynSent,
          error := None, time_wait_deadline_tick := None, seq := q\<rparr>" for s
        by (simp add: timed_update_def)
      ultimately show ?thesis by simp
    qed
    then show ?thesis
      using EvConnect assms
      by (simp add: tcp_connect_def nth_opt_def all_sockets_split list_all_update split: TcpState.splits)
  next
    case (EvRecv i n)
    have "P [] ((sockets st ! i)\<lparr>rx_buffer := drop n (rx_buffer (sockets st ! i))\<rparr>)"
      if "i < length (sockets st)"
      by (rule P_any [OF P_read [OF nth [OF that]]])
    then show ?thesis
      using EvRecv assms
      by (simp add: tcp_recv_def nth_opt_def all_sockets_split list_all_update split: option.splits)
  next
    case (EvAccept i)
    have "list_all (P []) (butlast (accept_queue st))"
      using assms by (auto simp: all_sockets_split list_all_iff dest: in_set_butlastD)
    moreover have "P [] (last (accept_queue st))" if "accept_queue st \<noteq> []"
      using assms that by (simp add: all_sockets_def)
    ultimately show ?thesis
      using EvAccept assms by (simp add: tcp_accept_def nth_opt_def all_sockets_split Let_def)
  next
    case (EvClose now i)
    show ?thesis
    proof (cases "i < length (sockets st)")
      case True
      have "P [] ((sockets st ! i)\<lparr>state := x, time_wait_deadline_tick := None, seq := q\<rparr>)" for x q
        by (rule P_seq [OF timed [OF nth [OF True]]])
      moreover have "P [] ((sockets st ! i)\<lparr>state := Closed\<rparr>)"
        by (rule st [OF nth [OF True]])
      ultimately show ?thesis
        using EvClose assms True
        by (simp add: tcp_close_def nth_opt_def all_sockets_split list_all_update split: TcpState.splits)
    qed (use EvClose assms in \<open>simp add: tcp_close_def nth_opt_def\<close>)
  next
    case (EvSend now i data)
    have "P [] ((sockets st ! i)\<lparr>seq := q\<rparr>)" if "i < length (sockets st)" for q
      by (rule P_seq [OF nth [OF that]])
    then show ?thesis
      using EvSend assms
      by (simp add: tcp_send_def nth_opt_def all_sockets_split list_all_update split: option.splits)
  next
    case (EvListen i)
    have "P [] (TcpSocket_listen (sockets st ! i))" if "i < length (sockets st)"
      unfolding TcpSocket_listen_def by (rule timed [OF nth [OF that]])
    then show ?thesis
      using EvListen assms by (simp add: tcp_listen_def nth_opt_def all_sockets_split list_all_update)
  qed (use assms nth P_error P_port P_new in
      \<open>simp_all add: tcp_op_defs nth_opt_def all_sockets_split list_all_update Let_def split: list.splits\<close>)
qed

end

subsection \<open>The receive window\<close>

lemma window_ok_accept:
  assumes "window_ok s"
  shows "window_ok (snd (accept_in_order_payload s p))"
proof -
  have "n + min m (k - n) \<le> k" if "n \<le> k" for n m k :: nat
    using that by simp
  with assms show ?thesis
    by (simp add: window_ok_def accept_in_order_payload_def Let_def recv_window_available_def
        saturating_sub_def)
qed

interpretation win: socket_universal "\<lambda>_. window_ok" "\<lambda>_. True"
proof unfold_locales
  fix s :: TcpSocket and p
  assume "window_ok s"
  then show "window_ok (snd (accept_in_order_payload s p))" by (rule window_ok_accept)
  show "window_ok (snd (consume_remote_fin s p))"
    using \<open>window_ok s\<close> by (simp add: window_ok_def consume_remote_fin_def Let_def)
  show "window_ok (s\<lparr>rx_buffer := drop n (rx_buffer s)\<rparr>)" for n
    using \<open>window_ok s\<close> by (simp add: window_ok_def le_trans [OF diff_le_self])
qed (simp_all add: window_ok_def timed_update_def TcpSocket_new_def)

lemma unat_advertised_window: "unat (advertised_window s) = min (recv_window_available s) 65535"
  by (simp only: advertised_window_def unat_of_nat) (simp add: take_bit_nat_eq_self)

subsection \<open>In-order delivery\<close>

lemma of_nat_u32_inj:
  "m < 2 ^ 32 \<Longrightarrow> n < 2 ^ 32 \<Longrightarrow> (of_nat m :: u32) = of_nat n \<longleftrightarrow> m = n"
  by (simp add: word_of_nat_eq_iff take_bit_nat_eq_self)

lemma stream_ok_accept:
  assumes "stream_ok S isn ip port del s" and "in_stream S isn p"
  shows "stream_ok S isn ip port del (snd (accept_in_order_payload s p))"
proof (cases "pk_payload p \<noteq> [] \<and> pk_seq p = ack s")
  case False
  then have "snd (accept_in_order_payload s p) = s" by (auto simp: accept_in_order_payload_def)
  with assms(1) show ?thesis by simp
next
  case True
  let ?pl = "pk_payload p" and ?a = "min (length (pk_payload p)) (recv_window_available s)"
  obtain n where n: "n \<le> length S" "del @ rx_buffer s = take n S"
    and ack: "ack s = isn + of_nat n \<or> n = length S \<and> ack s = isn + of_nat (n + 1)"
    and big: "length S + 1 < 2 ^ 32"
    using assms(1) by (auto simp: stream_ok_def)
  obtain off where off: "pk_seq p = isn + of_nat off" "off + length ?pl \<le> length S"
    "?pl = take (length ?pl) (drop off S)"
    using assms(2) True by (auto simp: in_stream_def)
  have "off < length S" using off(2) True by (cases ?pl) auto
  have off_n: "off = n"
    using ack
  proof
    assume "ack s = isn + of_nat n"
    then have "(of_nat off :: u32) = of_nat n" using True off(1) by simp
    then show ?thesis using of_nat_u32_inj [of off n] \<open>off < length S\<close> n(1) big by simp
  next
    assume "n = length S \<and> ack s = isn + of_nat (n + 1)"
    then have "(of_nat off :: u32) = of_nat (length S + 1)" using True off(1) by simp
    then show ?thesis using of_nat_u32_inj [of off "length S + 1"] \<open>off < length S\<close> big by simp
  qed
  have pl: "take ?a ?pl = take ?a (drop n S)"
    using arg_cong [OF off(3), of "take ?a"] off_n by simp
  define m where "m = n + ?a"
  have m: "m \<le> length S" "del @ rx_buffer s @ take ?a ?pl = take m S"
      "pk_seq p + of_nat ?a = isn + of_nat m"
    using off(1,2) off_n n(2) pl by (simp_all add: m_def take_add append_assoc [symmetric] del: append_assoc)
  show ?thesis
  proof (cases "?a > 0")
    case positive: True
    have "snd (accept_in_order_payload s p) =
        s\<lparr>ack := isn + of_nat m, rx_buffer := rx_buffer s @ take ?a ?pl\<rparr>"
      using True positive m(3) by (simp add: accept_in_order_payload_def Let_def)
    then show ?thesis
      using assms(1) m(1,2) unfolding stream_ok_def
      by (intro conjI exI [of _ m]) simp_all
  next
    case False
    then have "snd (accept_in_order_payload s p) = s"
      by (auto simp: accept_in_order_payload_def Let_def)
    with assms(1) show ?thesis by simp
  qed
qed

lemma stream_ok_fin:
  assumes "stream_ok S isn ip port del s" and "in_stream S isn p"
  shows "stream_ok S isn ip port del (snd (consume_remote_fin s p))"
proof (cases "has_flag p TCP_FLAG_FIN \<and> pk_seq p + of_nat (length (pk_payload p)) = ack s")
  case False
  then have "snd (consume_remote_fin s p) = s" by (auto simp: consume_remote_fin_def Let_def)
  with assms(1) show ?thesis by simp
next
  case True
  obtain n where n: "n \<le> length S" "del @ rx_buffer s = take n S"
    and ack: "ack s = isn + of_nat n \<or> n = length S \<and> ack s = isn + of_nat (n + 1)"
    and big: "length S + 1 < 2 ^ 32"
    using assms(1) by (auto simp: stream_ok_def)
  have fin: "pk_seq p + of_nat (length (pk_payload p)) = isn + of_nat (length S)"
    using assms(2) True by (auto simp: in_stream_def of_nat_add [symmetric] add.assoc simp del: of_nat_add)
  have "n = length S"
    using ack
  proof
    assume "ack s = isn + of_nat n"
    then have "(of_nat (length S) :: u32) = of_nat n" using True fin by simp
    then show ?thesis using of_nat_u32_inj [of "length S" n] n(1) big by simp
  qed simp
  moreover have "snd (consume_remote_fin s p) = s\<lparr>ack := isn + of_nat (length S) + 1\<rparr>"
    using True fin by (simp add: consume_remote_fin_def Let_def)
  ultimately show ?thesis
    using assms(1) n(2) unfolding stream_ok_def
    by (intro conjI exI [of _ "length S"]) (simp_all add: algebra_simps)
qed

interpretation stream: socket_predicate "stream_ok S isn ip port"
    "\<lambda>p. pk_src_ip p = ip \<and> pk_src_port p = port \<longrightarrow> in_stream S isn p" for S isn ip port
proof unfold_locales
  fix del s p
  assume s: "stream_ok S isn ip port del s" and m: "matches_packet s p"
    and adm: "pk_src_ip p = ip \<and> pk_src_port p = port \<longrightarrow> in_stream S isn p"
  then have "in_stream S isn p" by (auto simp: stream_ok_def matches_packet_def)
  then show "stream_ok S isn ip port del (snd (accept_in_order_payload s p))"
    and "stream_ok S isn ip port del (snd (consume_remote_fin s p))"
    using s by (simp_all add: stream_ok_accept stream_ok_fin)
qed (simp_all add: stream_ok_def timed_update_def)

subsection \<open>Transitions and retransmission\<close>

lemma react_transition: "packet_transition (state s) (state (fst (socket_react now s p)))"
proof (cases "state s = SynSent")
  case True
  then show ?thesis by (auto simp: socket_react_def Let_def intro: packet_transition.intros)
next
  case False
  then show ?thesis
    using socket_react_shape [OF False, of now p] by (auto simp: timed_update_def)
qed

lemma socket_packet_transition:
  assumes "j < length (sockets st)"
  shows "packet_transition (state (sockets st ! j))
    (state (sockets (snd (handle_socket_packet now st i p)) ! j))"
  using assms react_transition [of "sockets st ! j" now p]
  by (auto simp: handle_socket_packet_def Let_def case_prod_beta nth_update_if
      intro: packet_transition.intros split: option.splits)

lemma retransmit_pass_budget:
  assumes "list_all (\<lambda>e. rt_attempts e \<le> 3) es" and "retransmit_pass now es = (es', out, failed)"
  shows "list_all (\<lambda>e. rt_attempts e \<le> 3) es' \<and> retry_budget es' + length out = retry_budget es \<and>
    (out = [] \<longrightarrow> es' = es) \<and>
    (\<forall>(ip, rp, lp) \<in> set failed. \<exists>e\<in>set es'. same_connection e ip rp lp)"
  using assms
proof (induction es arbitrary: es' out failed)
  case Nil
  then show ?case by (simp add: retry_budget_def)
next
  case (Cons e es)
  obtain es1 out1 failed1 where pass: "retransmit_pass now es = (es1, out1, failed1)"
    by (cases "retransmit_pass now es") auto
  note IH = Cons.IH [OF _ pass]
  consider (later) "rt_deadline_tick e > now"
    | (failing) "rt_deadline_tick e \<le> now" "rt_attempts e = 3"
    | (again) "rt_deadline_tick e \<le> now" "rt_attempts e < 3"
    using Cons.prems(1) by fastforce
  then show ?case
  proof cases
    case later
    then show ?thesis using IH Cons.prems pass by (fastforce simp: retry_budget_def)
  next
    case failing
    then show ?thesis
      using IH Cons.prems pass
      by (fastforce simp: retry_budget_def TCP_MAX_RETRANSMITS_def same_connection_def)
  next
    case again
    then show ?thesis
      using IH Cons.prems pass
      by (fastforce simp: retry_budget_def TCP_MAX_RETRANSMITS_def same_connection_def Let_def)
  qed
qed

lemma retry_budget_filter:
  assumes "list_all (\<lambda>e. rt_attempts e \<le> 3) es"
  shows "retry_budget (filter Q es) \<le> retry_budget es"
    and "e \<in> set es \<Longrightarrow> \<not> Q e \<Longrightarrow> retry_budget (filter Q es) < retry_budget es"
proof -
  show le: "retry_budget (filter Q es) \<le> retry_budget es"
    by (induction es) (auto simp: retry_budget_def)
  show "e \<in> set es \<Longrightarrow> \<not> Q e \<Longrightarrow> retry_budget (filter Q es) < retry_budget es"
    using assms
  proof (induction es)
    case (Cons a es)
    have "retry_budget (filter Q es) \<le> retry_budget es"
      by (induction es) (auto simp: retry_budget_def)
    with Cons show ?case by (auto simp: retry_budget_def)
  qed simp
qed

lemma fail_sockets_retransmits [simp]:
  "retransmits (foldl (\<lambda>s (ip, rport, lport). fail_socket s ip rport lport e) st cs) = retransmits st"
  by (induction cs arbitrary: st) (auto simp: fail_socket_def)

lemma poll_retransmits:
  "retransmits (snd (poll_retransmit st now)) =
     (case retransmit_pass now (retransmits st) of (es, out, failed) \<Rightarrow>
        if failed = [] then es
        else filter (\<lambda>e. \<not> list_ex (\<lambda>(ip, rp, lp). same_connection e ip rp lp) failed) es)"
  "fst (poll_retransmit st now) =
     (case retransmit_pass now (retransmits st) of (es, out, failed) \<Rightarrow> failed \<noteq> [] \<or> out \<noteq> [])"
  by (simp_all add: poll_retransmit_def Let_def case_prod_beta expire_time_wait_def)

lemma poll_budget:
  assumes "list_all (\<lambda>e. rt_attempts e \<le> 3) (retransmits st)"
  shows "list_all (\<lambda>e. rt_attempts e \<le> 3) (retransmits (snd (poll_retransmit st now)))"
    and "fst (poll_retransmit st now) \<Longrightarrow>
      retry_budget (retransmits (snd (poll_retransmit st now))) < retry_budget (retransmits st)"
    and "\<not> fst (poll_retransmit st now) \<Longrightarrow>
      retransmits (snd (poll_retransmit st now)) = retransmits st"
proof -
  obtain es out failed where pass: "retransmit_pass now (retransmits st) = (es, out, failed)"
    by (cases "retransmit_pass now (retransmits st)") auto
  note b = retransmit_pass_budget [OF assms pass]
  then show "list_all (\<lambda>e. rt_attempts e \<le> 3) (retransmits (snd (poll_retransmit st now)))"
    by (auto simp: poll_retransmits pass list_all_iff)
  show "\<not> fst (poll_retransmit st now) \<Longrightarrow>
      retransmits (snd (poll_retransmit st now)) = retransmits st"
    using b by (simp add: poll_retransmits pass)
  show "retry_budget (retransmits (snd (poll_retransmit st now))) < retry_budget (retransmits st)"
    if "fst (poll_retransmit st now)"
  proof (cases failed)
    case Nil
    then have "out \<noteq> []" using that by (simp add: poll_retransmits pass)
    then show ?thesis using b Nil by (cases out) (simp_all add: poll_retransmits pass)
  next
    case (Cons c cs)
    obtain ip rp lp where c: "c = (ip, rp, lp)" by (cases c)
    then obtain e where "e \<in> set es" "same_connection e ip rp lp" using b Cons by auto
    then have "retry_budget (retransmits (snd (poll_retransmit st now))) < retry_budget es"
      using retry_budget_filter(2) [of es e] b Cons by (auto simp: poll_retransmits pass c)
    then show ?thesis using b by linarith
  qed
qed

lemma attempts_transmit:
  "list_all (\<lambda>e. rt_attempts e \<le> 3) (retransmits st) \<Longrightarrow>
   list_all (\<lambda>e. rt_attempts e \<le> 3) (retransmits (transmit now st i s flags pl))"
  by (simp add: transmit_def Let_def queue_outbound_def build_retransmit_def)

lemma retransmits_socket_packet:
  "set (retransmits (snd (handle_socket_packet now st i p))) \<subseteq> set (retransmits st)"
  by (auto simp: handle_socket_packet_def Let_def case_prod_beta acknowledge_def
      remove_retransmits_def split: option.splits)

lemma retransmits_queued_packet:
  "set (retransmits (snd (handle_queued_accept_packet now st i p))) \<subseteq> set (retransmits st)"
  by (auto simp: handle_queued_accept_packet_def Let_def case_prod_beta acknowledge_def
      remove_retransmits_def)

lemma attempts_handle_packet:
  assumes "list_all (\<lambda>e. rt_attempts e \<le> 3) (retransmits st)"
  shows "list_all (\<lambda>e. rt_attempts e \<le> 3) (retransmits (snd (handle_packet now st p)))"
proof -
  have "set (retransmits (snd (handle_packet now st p))) \<subseteq> set (retransmits st)"
    using handle_packet_cases [of p st now] retransmits_socket_packet retransmits_queued_packet
    by (elim disjE exE conjE) simp_all
  with assms show ?thesis by (auto simp: list_all_iff)
qed

lemma attempts_step:
  "list_all (\<lambda>e. rt_attempts e \<le> 3) (retransmits st) \<Longrightarrow>
   list_all (\<lambda>e. rt_attempts e \<le> 3) (retransmits (tcp_step st ev))"
  by (cases ev)
     (simp_all add: tcp_op_defs poll_budget(1) attempts_handle_packet attempts_transmit Let_def
       split: option.splits TcpState.splits list.splits)

lemma attempts_run:
  "list_all (\<lambda>e. rt_attempts e \<le> 3) (retransmits st) \<Longrightarrow>
   list_all (\<lambda>e. rt_attempts e \<le> 3) (retransmits (fst (tcp_run j st del evs)))"
  by (induction evs arbitrary: st del) (simp_all add: attempts_step)

section \<open>Properties\<close>

text \<open>
  C2: in-order delivery.  Let the peer of an established socket send the byte
  stream S.  Whatever packets arrive, lost, duplicated, reordered or interleaved
  with packets of other connections, and whatever other operations are
  performed on the stack (except reconnecting that socket), the bytes read from
  the socket together with its receive buffer are a prefix of S.
\<close>

theorem tcp_in_order_delivery:
  assumes "j < length (sockets st)" and "state (sockets st ! j) = Established"
    and "rx_buffer (sockets st ! j) = []" and "ack (sockets st ! j) = isn"
    and "length S + 1 < 2 ^ 32"
    and "\<forall>ev\<in>set evs. (\<forall>now ip port. ev \<noteq> EvConnect now j ip port) \<and>
      (\<forall>now p. ev = EvPacket now p \<longrightarrow>
         pk_src_ip p = remote_ip (sockets st ! j) \<and> pk_src_port p = remote_port (sockets st ! j) \<longrightarrow>
         in_stream S isn p)"
  shows "\<exists>n. snd (tcp_run j st [] evs) @ rx_buffer (sockets (fst (tcp_run j st [] evs)) ! j) = take n S"
proof -
  let ?P = "stream_ok S isn (remote_ip (sockets st ! j)) (remote_port (sockets st ! j))"
  have "live ?P [] (sockets st ! j)"
    unfolding live_def stream_ok_def by (intro conjI exI [of _ 0]) (use assms in simp_all)
  from stream.live_run [OF this assms(1) assms(6)] show ?thesis
    by (auto simp: live_def stream_ok_def)
qed

theorem tcp_in_order_delivery_witness:
  "let st = \<lparr>sockets = [(TcpSocket_new 7)\<lparr>state := Established, remote_port := 80, ack := 100\<rparr>],
        accept_queue = [], pending_outbound = [], retransmits = []\<rparr>;
       pkt = (\<lambda>sq pl. \<lparr>pk_src_ip = Ipv4Addr 0 0 0 0, pk_dst_ip = Ipv4Addr 1 1 1 1, pk_src_port = 80,
        pk_dst_port = 7, pk_seq = sq, pk_ack = 1, pk_flags = 0x10, pk_payload = pl\<rparr>);
       run = tcp_run 0 st [] [EvPacket 0 (pkt 102 [12, 13]), EvPacket 0 (pkt 100 [10, 11]), EvRecv 0 1]
   in \<exists>n. snd run @ rx_buffer (sockets (fst run) ! 0) = take n [10, 11, 12, 13]"
proof -
  let ?st = "\<lparr>sockets = [(TcpSocket_new 7)\<lparr>state := Established, remote_port := 80, ack := 100\<rparr>],
    accept_queue = [], pending_outbound = [], retransmits = []\<rparr>"
  let ?p = "\<lambda>sq pl. \<lparr>pk_src_ip = Ipv4Addr 0 0 0 0, pk_dst_ip = Ipv4Addr 1 1 1 1, pk_src_port = 80,
    pk_dst_port = 7, pk_seq = sq, pk_ack = 1, pk_flags = 0x10, pk_payload = pl\<rparr>"
  have "in_stream [10, 11, 12, 13] 100 (?p 102 [12, 13])" "in_stream [10, 11, 12, 13] 100 (?p 100 [10, 11])"
    unfolding in_stream_def
    by (rule disjI2, rule exI [of _ 2], simp add: has_flag_def TCP_FLAG_FIN_def)
       (rule disjI2, rule exI [of _ 0], simp add: has_flag_def TCP_FLAG_FIN_def)
  then show ?thesis
    unfolding Let_def
    by (intro tcp_in_order_delivery [where isn = 100]) (auto simp: TcpSocket_new_def)
qed

text \<open>
  C12: flow control.  After any sequence of operations every socket of the
  stack, including those waiting in the accept queue, holds at most the 4096
  bytes of its receive window, so the window it advertises is never negative.
\<close>

theorem tcp_window_respected:
  "all_sockets (\<lambda>s. length (rx_buffer s) \<le> 4096
       \<and> unat (advertised_window s) + length (rx_buffer s) = 4096)
     (fst (tcp_run j TcpStack_new [] evs))"
proof -
  have run: "all_sockets window_ok (fst (tcp_run j st del evs))" if "all_sockets window_ok st" for st del
    using that
  proof (induction evs arbitrary: st del)
    case (Cons ev evs)
    then show ?case using win.all_step [OF Cons.prems] by simp
  qed simp
  have "all_sockets window_ok TcpStack_new" by (simp add: all_sockets_def TcpStack_new_def)
  from run [OF this, of "[]"] show ?thesis
    by (auto simp: all_sockets_def window_ok_def TCP_RECV_WINDOW_def unat_advertised_window
        recv_window_available_def saturating_sub_def)
qed



text \<open>
  C17: retransmission is bounded.  In every reachable stack a poll either leaves
  the retransmit queue alone and reports no activity, or uses up part of the
  retry budget (four units for each queued segment, less its attempts): no
  segment is retransmitted for ever.
\<close>

theorem tcp_retransmit_bounded:
  "let st = fst (tcp_run j TcpStack_new [] evs) in
   if fst (poll_retransmit st now)
   then retry_budget (retransmits (snd (poll_retransmit st now))) < retry_budget (retransmits st)
   else retransmits (snd (poll_retransmit st now)) = retransmits st"
  using poll_budget [OF attempts_run [of TcpStack_new j "[]" evs]]
  by (simp add: Let_def TcpStack_new_def)

end
