(* ===== verification/Process.thy ===== *)
theory Process
  imports Security Signals
begin

text \<open>
  One process of the kernel (\<open>kernel/src/process/mod.rs\<close>): its record, the
  pending-signal bookkeeping, the descriptor table, the socket handles and the
  timed wait.  Address spaces are named by a handle (the identity of the
  source's \<open>Arc\<close>); strings are byte lists; the saved FPU image is opaque bytes.
  The outcome of \<open>try_reserve_exact\<close> is the flag \<open>mem_ok\<close>.
\<close>

section \<open>Definitions\<close>

type_synonym Pid = nat
type_synonym space = nat

definition INIT_PID :: Pid where "INIT_PID = 1"
definition MAX_FDS :: usize where "MAX_FDS = 256"
definition FD_CLOEXEC :: u32 where "FD_CLOEXEC = 1"
definition SIGNAL_FLAG_NOCLDSTOP :: u32 where "SIGNAL_FLAG_NOCLDSTOP = 1"
definition SIGNAL_FLAG_RESTART :: u32 where "SIGNAL_FLAG_RESTART = 2"
definition MAX_WAKE_PIDS :: usize where "MAX_WAKE_PIDS = MAX_FDS"
definition MAX_WAKE_TIMED_WAITS :: usize where "MAX_WAKE_TIMED_WAITS = 4"
definition USER_STACK_TOP :: usize where "USER_STACK_TOP = 0x70100000"

datatype BlockReason = WaitChild Pid | WaitIo | WaitIoUntil nat

datatype ProcessState = Ready | Running | Blocked BlockReason | Stopped nat | Zombie ExitReason

record FdEntry =
  user_fd :: usize
  vfs_fd :: usize
  status_flags :: u32
  fd_flags :: u32

record TimedWait =
  tw_key :: u64
  tw_deadline_ms :: nat
  tw_woken :: bool

datatype TimedWaitError = NoCurrentProcess | DeadlineOverflow

record SharedMapping =
  sm_addr :: usize
  sm_len :: usize
  sm_file_offset :: usize
  sm_vfs_fd :: usize
  sm_writable :: bool

datatype ControllingTty = Console | Pty usize

record SavedSyscallFrame =
  f_rax :: u64 f_rbx :: u64 f_rcx :: u64 f_rdx :: u64 f_rsi :: u64 f_rdi :: u64 f_rbp :: u64
  f_r8 :: u64 f_r9 :: u64 f_r10 :: u64 f_r11 :: u64 f_r12 :: u64 f_r13 :: u64 f_r14 :: u64
  f_r15 :: u64 f_rip :: u64 f_cs :: u64 f_rflags :: u64 f_rsp :: u64 f_ss :: u64

record Process =
  p_pid :: Pid
  p_parent :: "Pid option"
  p_name :: bytes
  p_cwd :: bytes
  p_pgrp :: Pid
  p_sid :: Pid
  p_controlling_tty :: "ControllingTty option"
  p_pending_signals :: u64
  p_pending_signal_status :: "int option"
  p_signal_mask :: u64
  p_signal_handlers :: "usize list"
  p_signal_action_masks :: "u64 list"
  p_signal_flags :: "u32 list"
  p_state :: ProcessState
  p_address_space :: space
  p_credentials :: Credentials
  p_umask :: u16
  p_rlimit_nofile_cur :: nat
  p_rlimit_nofile_max :: nat
  p_fds :: "FdEntry list"
  p_socket_handles :: "usize list"
  p_shared_mappings :: "SharedMapping list"
  p_timed_wait :: "TimedWait option"
  p_next_fd :: usize
  p_entry :: u64
  p_stack_top :: usize
  p_argc :: usize
  p_argv_ptr :: usize
  p_envp_ptr :: usize
  p_exit_status :: "int option"
  p_stop_reported :: bool
  p_continued_report_pending :: bool
  p_waiters :: "Pid list"
  p_is_user :: bool
  p_saved_syscall :: "SavedSyscallFrame option"
  p_interrupted_syscall :: bool
  p_user_fs_base :: u64
  p_clear_child_tid :: usize
  p_fpu_state :: bytes

definition new_user :: "bytes \<Rightarrow> space \<Rightarrow> Pid \<Rightarrow> Pid option \<Rightarrow> bytes \<Rightarrow> Credentials \<Rightarrow> Process" where
  "new_user fpu_init as pid parent name creds =
     \<lparr>p_pid = pid, p_parent = parent, p_name = name, p_cwd = [0x2f], p_pgrp = pid,
      p_sid = (case parent of None \<Rightarrow> pid | Some q \<Rightarrow> q),
      p_controlling_tty = Some Console, p_pending_signals = 0, p_pending_signal_status = None,
      p_signal_mask = 0, p_signal_handlers = replicate 32 0, p_signal_action_masks = replicate 32 0,
      p_signal_flags = replicate 32 0, p_state = Ready, p_address_space = as, p_credentials = creds,
      p_umask = 0x12, p_rlimit_nofile_cur = MAX_FDS, p_rlimit_nofile_max = MAX_FDS, p_fds = [],
      p_socket_handles = [], p_shared_mappings = [], p_timed_wait = None, p_next_fd = 3,
      p_entry = 0, p_stack_top = USER_STACK_TOP, p_argc = 0, p_argv_ptr = 0, p_envp_ptr = 0,
      p_exit_status = None, p_stop_reported = False, p_continued_report_pending = False,
      p_waiters = [], p_is_user = True, p_saved_syscall = None, p_interrupted_syscall = False,
      p_user_fs_base = 0, p_clear_child_tid = 0, p_fpu_state = fpu_init\<rparr>"

subsection \<open>Pending signals\<close>

definition handler_of :: "Process \<Rightarrow> nat \<Rightarrow> usize" where
  "handler_of p signal =
     (case nth_opt (p_signal_handlers p) signal of None \<Rightarrow> DEFAULT_HANDLER | Some h \<Rightarrow> h)"

definition is_ignored_signal :: "Process \<Rightarrow> int \<Rightarrow> bool" where
  "is_ignored_signal p status =
     (case signal_from_legacy_status status of
        None \<Rightarrow> False
      | Some signal \<Rightarrow>
          if is_uncatchable_signal signal then False
          else let handler = handler_of p signal in
            if handler = DEFAULT_HANDLER \<and>
               (case from_number signal of None \<Rightarrow> False | Some s \<Rightarrow> has_ignore_default s)
            then True
            else handler = IGNORE_HANDLER)"

definition clear_pending_signal :: "Process \<Rightarrow> nat \<Rightarrow> Process" where
  "clear_pending_signal p signal =
     (let p1 = (if signal < 64
                then p\<lparr>p_pending_signals := p_pending_signals p AND NOT (push_bit signal 1)\<rparr> else p)
      in if signal < 32 \<and> p_pending_signal_status p1 = Some (128 + int signal)
         then p1\<lparr>p_pending_signal_status := None\<rparr> else p1)"

definition discard_pending_signal_interactions :: "Process \<Rightarrow> int \<Rightarrow> Process" where
  "discard_pending_signal_interactions p status =
     (case signal_from_legacy_status status of
        None \<Rightarrow> p
      | Some signal_number \<Rightarrow>
          (case from_number signal_number of
             None \<Rightarrow> p
           | Some signal \<Rightarrow>
               if signal = Cont
               then clear_pending_signal (clear_pending_signal (clear_pending_signal
                      (clear_pending_signal p (number Stop)) (number Tstp)) (number Ttin)) (number Ttou)
               else if has_stop_default signal then clear_pending_signal p (number Cont)
               else p))"

text \<open>
  The loop of \<open>next_deliverable_pending_signal\<close>: take the lowest pending bit,
  skip number 0 and masked catchable signals.
\<close>

function deliverable_scan :: "u64 \<Rightarrow> u64 \<Rightarrow> nat option" where
  "deliverable_scan pending signal_mask =
     (if pending = 0 then None
      else
        let signal = trailing_zeros pending;
            b = push_bit signal 1;
            pending' = pending AND NOT b
        in if signal = 0 then deliverable_scan pending' signal_mask
           else if \<not> is_uncatchable_signal signal \<and> signal_mask AND b \<noteq> 0
           then deliverable_scan pending' signal_mask
           else Some signal)"
  by auto
termination
proof (relation "measure (\<lambda>(w, _). card {n. n < 64 \<and> bit w n})", goal_cases)
  case 1
  show ?case by simp
next
  case (2 pending signal_mask x xa xb)
  note tz = trailing_zeros_lowest [OF 2(1)]
  have "{n. n < 64 \<and> bit xb n} \<subset> {n. n < 64 \<and> bit pending n}"
    using tz(1,2) 2(2,3,4) by (auto simp: bit_simps)
  then show ?case by (simp add: psubset_card_mono)
next
  case (3 pending signal_mask x xa xb)
  note tz = trailing_zeros_lowest [OF 3(1)]
  have "{n. n < 64 \<and> bit xb n} \<subset> {n. n < 64 \<and> bit pending n}"
    using tz(1,2) 3(2,3,4) by (auto simp: bit_simps)
  then show ?case by (simp add: psubset_card_mono)
qed

declare deliverable_scan.simps [simp del]

definition next_deliverable_pending_signal :: "Process \<Rightarrow> nat option" where
  "next_deliverable_pending_signal p = deliverable_scan (p_pending_signals p) (p_signal_mask p)"

definition should_queue_signal :: "Process \<Rightarrow> int \<Rightarrow> Pid option \<Rightarrow> bool" where
  "should_queue_signal p status current =
     (if current = Some (p_pid p) then True
      else case signal_from_legacy_status status of
        None \<Rightarrow> False
      | Some signal \<Rightarrow>
          if is_uncatchable_signal signal then False
          else let masked = (signal < 64 \<and> p_signal_mask p AND push_bit signal 1 \<noteq> 0);
                   handler = handler_of p signal
               in masked \<or> handler \<noteq> DEFAULT_HANDLER)"

definition queue_signal :: "Process \<Rightarrow> int \<Rightarrow> Process" where
  "queue_signal p status =
     (let p1 = p\<lparr>p_pending_signal_status := Some status\<rparr> in
      if status \<ge> 128
      then let signal = nat (status - 128) in
           if signal < 64
           then p1\<lparr>p_pending_signals := p_pending_signals p1 OR push_bit signal 1\<rparr> else p1
      else p1)"

subsection \<open>Descriptor table\<close>

datatype FdTableError = TooManyOpenFiles | FdOutOfMemory

definition fd_limit :: "Process \<Rightarrow> usize" where
  "fd_limit p = min (p_rlimit_nofile_cur p) MAX_FDS"

definition set_fd_with_flags ::
    "bool \<Rightarrow> Process \<Rightarrow> usize \<Rightarrow> usize \<Rightarrow> u32 \<Rightarrow> u32 \<Rightarrow> (FdTableError, unit) result \<times> Process" where
  "set_fd_with_flags mem_ok p ufd vfd sflags fflags =
     (if ufd \<ge> fd_limit p then (Err TooManyOpenFiles, p)
      else if list_ex (\<lambda>e. user_fd e = ufd) (p_fds p)
      then (Ok (), p\<lparr>p_fds := update_first (\<lambda>e. user_fd e = ufd)
              (\<lambda>e. e\<lparr>vfs_fd := vfd, status_flags := sflags, fd_flags := fflags\<rparr>) (p_fds p)\<rparr>)
      else if length (p_fds p) \<ge> MAX_FDS then (Err TooManyOpenFiles, p)
      else if \<not> mem_ok then (Err FdOutOfMemory, p)
      else
        let p1 = p\<lparr>p_fds := p_fds p @
              [\<lparr>user_fd = ufd, vfs_fd = vfd, status_flags = sflags, fd_flags = fflags\<rparr>]\<rparr>
        in (Ok (), if ufd \<ge> p_next_fd p1 then p1\<lparr>p_next_fd := ufd + 1\<rparr> else p1))"

definition find_fd :: "Process \<Rightarrow> usize \<Rightarrow> FdEntry option" where
  "find_fd p ufd = find (\<lambda>e. user_fd e = ufd) (p_fds p)"

definition lookup_fd :: "Process \<Rightarrow> usize \<Rightarrow> usize option" where
  "lookup_fd p ufd = map_option vfs_fd (find_fd p ufd)"

definition get_status_flags :: "Process \<Rightarrow> usize \<Rightarrow> u32 option" where
  "get_status_flags p ufd = map_option status_flags (find_fd p ufd)"

definition get_fd_flags :: "Process \<Rightarrow> usize \<Rightarrow> u32 option" where
  "get_fd_flags p ufd = map_option fd_flags (find_fd p ufd)"

function lowest_fd_from :: "FdEntry list \<Rightarrow> usize \<Rightarrow> usize \<Rightarrow> usize option" where
  "lowest_fd_from fds candidate limit =
     (if candidate \<ge> limit then None
      else if list_all (\<lambda>e. user_fd e \<noteq> candidate) fds then Some candidate
      else lowest_fd_from fds (candidate + 1) limit)"
  by auto
termination by (relation "measure (\<lambda>(_, c, l). l - c)") auto

declare lowest_fd_from.simps [simp del]

definition lowest_available_fd :: "Process \<Rightarrow> usize option" where
  "lowest_available_fd p = lowest_fd_from (p_fds p) 0 (fd_limit p)"

definition push_fd_with_all_flags ::
    "bool \<Rightarrow> Process \<Rightarrow> usize \<Rightarrow> u32 \<Rightarrow> u32 \<Rightarrow> (FdTableError, usize) result \<times> Process" where
  "push_fd_with_all_flags mem_ok p vfd sflags fflags =
     (case lowest_available_fd p of
        None \<Rightarrow> (Err TooManyOpenFiles, p)
      | Some ufd \<Rightarrow>
          (case set_fd_with_flags mem_ok p ufd vfd sflags fflags of
             (Inl e, p') \<Rightarrow> (Err e, p')
           | (Inr _, p') \<Rightarrow> (Ok ufd, p')))"

definition remove_fd :: "Process \<Rightarrow> usize \<Rightarrow> usize option \<times> Process" where
  "remove_fd p ufd =
     (case position (\<lambda>e. user_fd e = ufd) (p_fds p) of
        None \<Rightarrow> (None, p)
      | Some i \<Rightarrow> (Some (vfs_fd (p_fds p ! i)), p\<lparr>p_fds := swap_remove i (p_fds p)\<rparr>))"

definition replace_fd_with_flags ::
    "bool \<Rightarrow> Process \<Rightarrow> usize \<Rightarrow> usize \<Rightarrow> u32 \<Rightarrow> u32 \<Rightarrow> (FdTableError, usize option) result \<times> Process" where
  "replace_fd_with_flags mem_ok p ufd vfd sflags fflags =
     (if ufd \<ge> fd_limit p then (Err TooManyOpenFiles, p)
      else case find_fd p ufd of
        Some e \<Rightarrow>
          (Ok (Some (vfs_fd e)), p\<lparr>p_fds := update_first (\<lambda>e. user_fd e = ufd)
              (\<lambda>e. e\<lparr>vfs_fd := vfd, status_flags := sflags, fd_flags := fflags\<rparr>) (p_fds p)\<rparr>)
      | None \<Rightarrow>
          (case set_fd_with_flags mem_ok p ufd vfd sflags fflags of
             (Inl e, p') \<Rightarrow> (Err e, p') | (Inr _, p') \<Rightarrow> (Ok None, p')))"

definition set_status_flags :: "Process \<Rightarrow> usize \<Rightarrow> u32 \<Rightarrow> bool \<times> Process" where
  "set_status_flags p ufd flags =
     (list_ex (\<lambda>e. user_fd e = ufd) (p_fds p),
      p\<lparr>p_fds := update_first (\<lambda>e. user_fd e = ufd) (\<lambda>e. e\<lparr>status_flags := flags\<rparr>) (p_fds p)\<rparr>)"

definition set_fd_flags :: "Process \<Rightarrow> usize \<Rightarrow> u32 \<Rightarrow> bool \<times> Process" where
  "set_fd_flags p ufd flags =
     (list_ex (\<lambda>e. user_fd e = ufd) (p_fds p),
      p\<lparr>p_fds := update_first (\<lambda>e. user_fd e = ufd) (\<lambda>e. e\<lparr>fd_flags := flags\<rparr>) (p_fds p)\<rparr>)"

text \<open>
  \<open>close_on_exec_fds\<close>: the surviving entries and the VFS descriptors closed, in
  the order the loop closes them.
\<close>

function cloexec_loop :: "FdEntry list \<Rightarrow> usize \<Rightarrow> FdEntry list \<times> usize list" where
  "cloexec_loop fds index =
     (if index \<ge> length fds then (fds, [])
      else if fd_flags (fds ! index) AND FD_CLOEXEC \<noteq> 0
      then let (rest, closed) = cloexec_loop (swap_remove index fds) index
           in (rest, vfs_fd (fds ! index) # closed)
      else cloexec_loop fds (index + 1))"
  by auto
termination by (relation "measure (\<lambda>(fds, i). 2 * length fds - i)") auto

declare cloexec_loop.simps [simp del]

definition close_on_exec_fds :: "Process \<Rightarrow> Process \<times> usize list" where
  "close_on_exec_fds p =
     (let (fds, closed) = cloexec_loop (p_fds p) 0 in (p\<lparr>p_fds := fds\<rparr>, closed))"

subsection \<open>Socket handles\<close>

datatype SocketInstallError = SockTooManyOpenFiles | SockOutOfMemory

definition add_socket_handle :: "bool \<Rightarrow> Process \<Rightarrow> usize \<Rightarrow> (SocketInstallError, unit) result \<times> Process" where
  "add_socket_handle mem_ok p handle =
     (if handle \<notin> set (p_socket_handles p)
      then let open_count = saturating_add (length (p_fds p)) (length (p_socket_handles p)) in
           if open_count \<ge> fd_limit p then (Err SockTooManyOpenFiles, p)
           else if \<not> mem_ok then (Err SockOutOfMemory, p)
           else (Ok (), p\<lparr>p_socket_handles := p_socket_handles p @ [handle]\<rparr>)
      else (Ok (), p))"

definition remove_socket_handle :: "Process \<Rightarrow> usize \<Rightarrow> bool \<times> Process" where
  "remove_socket_handle p handle =
     (case position (\<lambda>e. e = handle) (p_socket_handles p) of
        None \<Rightarrow> (False, p)
      | Some i \<Rightarrow> (True, p\<lparr>p_socket_handles := swap_remove i (p_socket_handles p)\<rparr>))"

definition owns_socket_handle :: "Process \<Rightarrow> usize \<Rightarrow> bool" where
  "owns_socket_handle p handle \<longleftrightarrow> handle \<in> set (p_socket_handles p)"

subsection \<open>Timed waits\<close>

definition rotl64 :: "nat \<Rightarrow> u64 \<Rightarrow> u64" where
  "rotl64 n w = push_bit n w OR drop_bit (64 - n) w"

definition timed_wait_key :: "u64 \<Rightarrow> usize \<Rightarrow> usize \<Rightarrow> usize \<Rightarrow> u64" where
  "timed_wait_key nr a0 a1 a2 =
     rotl64 48 nr XOR rotl64 17 (of_nat a0) XOR rotl64 7 (of_nat a1) XOR of_nat a2"

definition NR_futex :: u64 where "NR_futex = 202"

definition clear_child_tid_wait_key :: "usize \<Rightarrow> usize \<Rightarrow> u64" where
  "clear_child_tid_wait_key clear_tid address_space_key =
     timed_wait_key NR_futex clear_tid address_space_key 0"

definition timed_wait_deadline ::
    "Process \<Rightarrow> u64 \<Rightarrow> nat \<Rightarrow> nat \<Rightarrow> (TimedWaitError, nat) result \<times> Process" where
  "timed_wait_deadline p key timeout_ms now_ms =
     (case p_timed_wait p of
        Some wait \<Rightarrow>
          if tw_key wait = key then (Ok (tw_deadline_ms wait), p)
          else (case checked_add now_ms timeout_ms of
                  None \<Rightarrow> (Err DeadlineOverflow, p)
                | Some d \<Rightarrow>
                    (Ok d, p\<lparr>p_timed_wait := Some \<lparr>tw_key = key, tw_deadline_ms = d, tw_woken = False\<rparr>\<rparr>))
      | None \<Rightarrow>
          (case checked_add now_ms timeout_ms of
             None \<Rightarrow> (Err DeadlineOverflow, p)
           | Some d \<Rightarrow>
               (Ok d, p\<lparr>p_timed_wait := Some \<lparr>tw_key = key, tw_deadline_ms = d, tw_woken = False\<rparr>\<rparr>)))"

definition clear_timed_wait :: "Process \<Rightarrow> u64 \<Rightarrow> Process" where
  "clear_timed_wait p key =
     (case p_timed_wait p of
        None \<Rightarrow> p | Some wait \<Rightarrow> if tw_key wait = key then p\<lparr>p_timed_wait := None\<rparr> else p)"

definition take_timed_wait_wake :: "Process \<Rightarrow> u64 \<Rightarrow> bool \<times> Process" where
  "take_timed_wait_wake p key =
     (case p_timed_wait p of
        None \<Rightarrow> (False, p)
      | Some wait \<Rightarrow>
          if tw_key wait = key \<and> tw_woken wait then (True, p\<lparr>p_timed_wait := None\<rparr>) else (False, p))"

subsection \<open>Runs of descriptor operations and their specification\<close>

text \<open>
  The abstract descriptor table is a finite map from descriptor numbers to the
  VFS descriptor and its two flag words.  \<open>fd_spec\<close> is what POSIX promises of
  each operation on that map; \<open>fd_step\<close> dispatches to the code.
\<close>

type_synonym fd_view = "usize \<Rightarrow> (usize \<times> u32 \<times> u32) option"

datatype FdOp =
    FdPush bool usize u32 u32
  | FdReplace bool usize usize u32 u32
  | FdRemove usize
  | FdSetStatus usize u32
  | FdSetFlags usize u32
  | FdExec

datatype FdRes =
    ResNew "(FdTableError, usize) result"
  | ResOld "(FdTableError, usize option) result"
  | ResRemoved "usize option"
  | ResFound bool
  | ResUnit

fun fd_step :: "Process \<Rightarrow> FdOp \<Rightarrow> FdRes \<times> Process" where
  "fd_step p (FdPush m v s f) = (let (r, q) = push_fd_with_all_flags m p v s f in (ResNew r, q))"
| "fd_step p (FdReplace m n v s f) = (let (r, q) = replace_fd_with_flags m p n v s f in (ResOld r, q))"
| "fd_step p (FdRemove n) = (let (r, q) = remove_fd p n in (ResRemoved r, q))"
| "fd_step p (FdSetStatus n s) = (let (r, q) = set_status_flags p n s in (ResFound r, q))"
| "fd_step p (FdSetFlags n f) = (let (r, q) = set_fd_flags p n f in (ResFound r, q))"
| "fd_step p FdExec = (ResUnit, fst (close_on_exec_fds p))"

fun fd_run :: "Process \<Rightarrow> FdOp list \<Rightarrow> FdRes list \<times> Process" where
  "fd_run p [] = ([], p)"
| "fd_run p (x # xs) = (let (r, q) = fd_step p x; (rs, q') = fd_run q xs in (r # rs, q'))"

definition fd_abs :: "Process \<Rightarrow> fd_view" where
  "fd_abs p n = map_option (\<lambda>e. (vfs_fd e, status_flags e, fd_flags e)) (find_fd p n)"

definition lowest_unused :: "usize \<Rightarrow> fd_view \<Rightarrow> usize option" where
  "lowest_unused limit m = find (\<lambda>n. m n = None) [0..<limit]"

fun fd_spec :: "usize \<Rightarrow> fd_view \<Rightarrow> FdOp \<Rightarrow> FdRes \<times> fd_view" where
  "fd_spec limit m (FdPush ok v s f) =
     (case lowest_unused limit m of
        None \<Rightarrow> (ResNew (Err TooManyOpenFiles), m)
      | Some n \<Rightarrow> if ok then (ResNew (Ok n), m(n \<mapsto> (v, s, f))) else (ResNew (Err FdOutOfMemory), m))"
| "fd_spec limit m (FdReplace ok n v s f) =
     (if limit \<le> n then (ResOld (Err TooManyOpenFiles), m)
      else case m n of
        Some (old, _, _) \<Rightarrow> (ResOld (Ok (Some old)), m(n \<mapsto> (v, s, f)))
      | None \<Rightarrow> if ok then (ResOld (Ok None), m(n \<mapsto> (v, s, f))) else (ResOld (Err FdOutOfMemory), m))"
| "fd_spec limit m (FdRemove n) = (ResRemoved (map_option fst (m n)), m(n := None))"
| "fd_spec limit m (FdSetStatus n s) =
     (ResFound (m n \<noteq> None), m(n := map_option (\<lambda>(v, _, f). (v, s, f)) (m n)))"
| "fd_spec limit m (FdSetFlags n f) =
     (ResFound (m n \<noteq> None), m(n := map_option (\<lambda>(v, s, _). (v, s, f)) (m n)))"
| "fd_spec limit m FdExec =
     (ResUnit, \<lambda>n. case m n of Some (v, s, f) \<Rightarrow> if f AND FD_CLOEXEC \<noteq> 0 then None else m n | None \<Rightarrow> None)"

fun fd_spec_run :: "usize \<Rightarrow> fd_view \<Rightarrow> FdOp list \<Rightarrow> FdRes list \<times> fd_view" where
  "fd_spec_run limit m [] = ([], m)"
| "fd_spec_run limit m (x # xs) =
     (let (r, m') = fd_spec limit m x; (rs, m'') = fd_spec_run limit m' xs in (r # rs, m''))"

definition fds_inv :: "Process \<Rightarrow> bool" where
  "fds_inv p \<longleftrightarrow> distinct (map user_fd (p_fds p)) \<and> list_all (\<lambda>e. user_fd e < MAX_FDS) (p_fds p)"

section \<open>Descriptor table\<close>

text \<open>
  The contract a client of the descriptor table relies on: numbers map to
  entries, installing and removing touch one number, and \<open>free\<close> finds the lowest
  unused number below the limit.
\<close>

locale descriptor_table =
  fixes inv :: "'s \<Rightarrow> bool"
    and look :: "'s \<Rightarrow> nat \<Rightarrow> 'e option"
    and limit :: "'s \<Rightarrow> nat"
    and install :: "'s \<Rightarrow> nat \<Rightarrow> 'e \<Rightarrow> 's"
    and remove :: "'s \<Rightarrow> nat \<Rightarrow> 's"
    and free :: "'s \<Rightarrow> nat option"
  assumes look_install: "inv s \<Longrightarrow> n < limit s \<Longrightarrow> look (install s n e) = (look s)(n \<mapsto> e)"
    and look_remove: "inv s \<Longrightarrow> look (remove s n) = (look s)(n := None)"
    and inv_install: "inv s \<Longrightarrow> inv (install s n e)"
    and inv_remove: "inv s \<Longrightarrow> inv (remove s n)"
    and limit_install: "limit (install s n e) = limit s"
    and limit_remove: "limit (remove s n) = limit s"
    and free_lowest: "free s = find (\<lambda>n. look s n = None) [0..<limit s]"
begin

lemma free_SomeD:
  "free s = Some n \<Longrightarrow> n < limit s \<and> look s n = None \<and> (\<forall>m < n. look s m \<noteq> None)"
  by (auto simp: free_lowest find_Some_iff)

lemma free_NoneD: "free s = None \<Longrightarrow> m < limit s \<Longrightarrow> look s m \<noteq> None"
  by (auto simp: free_lowest find_None_iff)

lemma free_eqI:
  assumes "n < limit s" and "look s n = None" and "\<And>m. m < n \<Longrightarrow> look s m \<noteq> None"
  shows "free s = Some n"
proof (cases "free s")
  case None
  with assms show ?thesis using free_NoneD by blast
next
  case (Some k)
  with assms free_SomeD [OF Some] show ?thesis by (metis linorder_neqE_nat)
qed

lemma close_then_allocate:
  assumes "inv s" and "n < limit s" and "\<And>m. m < n \<Longrightarrow> look s m \<noteq> None"
  shows "free (remove s n) = Some n"
  using assms by (intro free_eqI) (simp_all add: look_remove limit_remove)

lemma allocate_fresh:
  assumes "inv s" and "free s = Some n"
  shows "look (install s n e) n = Some e" and "m \<noteq> n \<Longrightarrow> look (install s n e) m = look s m"
  using assms free_SomeD [OF assms(2)] by (simp_all add: look_install)

end

lemma fds_inv_new_user [simp]: "fds_inv (new_user fpu as pid parent name creds)"
  by (simp add: fds_inv_def new_user_def)

lemma fds_room:
  assumes "fds_inv p" and "n < fd_limit p" and "n \<notin> user_fd ` set (p_fds p)"
  shows "length (p_fds p) < MAX_FDS"
proof -
  have "n < MAX_FDS" using assms(2) by (simp add: fd_limit_def)
  then have "insert n (user_fd ` set (p_fds p)) \<subseteq> {..<MAX_FDS}"
    using assms(1) by (auto simp: fds_inv_def list_all_iff)
  then have "card (insert n (user_fd ` set (p_fds p))) \<le> MAX_FDS"
    by (metis card_lessThan card_mono finite_lessThan)
  moreover have "card (user_fd ` set (p_fds p)) = length (p_fds p)"
    using assms(1) by (metis fds_inv_def distinct_card length_map set_map)
  ultimately show ?thesis using assms(3) by simp
qed

lemma list_ex_fd: "list_ex (\<lambda>e. user_fd e = n) xs \<longleftrightarrow> n \<in> user_fd ` set xs"
  by (auto simp: list_ex_iff)

lemma set_fd_result:
  assumes "fds_inv p"
  shows "fst (set_fd_with_flags m p n v s f) =
    (if fd_limit p \<le> n then Err TooManyOpenFiles
     else if find_fd p n = None \<and> \<not> m then Err FdOutOfMemory else Ok ())"
proof -
  have *: "find_fd p n = None \<longleftrightarrow> \<not> list_ex (\<lambda>e. user_fd e = n) (p_fds p)"
    by (simp add: find_fd_def find_None_key list_ex_fd)
  show ?thesis
    using fds_room [OF assms, of n]
    by (cases "fd_limit p \<le> n"; cases "list_ex (\<lambda>e. user_fd e = n) (p_fds p)"; cases m)
      (simp_all add: set_fd_with_flags_def * list_ex_fd Let_def)
qed

lemma set_fd_unchanged: "fst (set_fd_with_flags m p n v s f) = Err e \<Longrightarrow> snd (set_fd_with_flags m p n v s f) = p"
  by (cases "fd_limit p \<le> n"; cases "list_ex (\<lambda>e. user_fd e = n) (p_fds p)"; cases "MAX_FDS \<le> length (p_fds p)"; cases m)
    (simp_all add: set_fd_with_flags_def Let_def)

lemma fd_limit_fds [simp]: "fd_limit (p\<lparr>p_fds := xs\<rparr>) = fd_limit p"
  "fd_limit (p\<lparr>p_next_fd := k\<rparr>) = fd_limit p"
  by (simp_all add: fd_limit_def)

lemma fd_limit_set_fd [simp]: "fd_limit (snd (set_fd_with_flags m p n v s f)) = fd_limit p"
  by (simp add: set_fd_with_flags_def Let_def)

lemma fds_inv_next_fd [simp]: "fds_inv (p\<lparr>p_next_fd := k\<rparr>) = fds_inv p"
  by (simp add: fds_inv_def)

lemma find_fd_next_fd [simp]: "find_fd (p\<lparr>p_next_fd := k\<rparr>) = find_fd p"
  by (simp add: find_fd_def fun_eq_iff)

lemma fds_inv_update_first:
  assumes "fds_inv p" and "\<And>e. user_fd (g e) = user_fd e"
  shows "fds_inv (p\<lparr>p_fds := update_first (\<lambda>e. user_fd e = n) g (p_fds p)\<rparr>)"
  using assms by (auto simp: fds_inv_def list_all_iff map_update_first dest!: set_update_first)

lemma find_fd_update_first:
  assumes "\<And>e. user_fd (g e) = user_fd e"
  shows "find_fd (p\<lparr>p_fds := update_first (\<lambda>e. user_fd e = n) g (p_fds p)\<rparr>) k =
    (if k = n then map_option g (find_fd p k) else find_fd p k)"
  by (simp add: find_fd_def find_update_first [where key = user_fd, OF assms])

lemma fds_inv_set_fd: "fds_inv p \<Longrightarrow> fds_inv (snd (set_fd_with_flags m p n v s f))"
proof -
  assume p: "fds_inv p"
  have new: "fds_inv (p\<lparr>p_fds := p_fds p @ [e]\<rparr>)"
    if "user_fd e = n" "n \<notin> user_fd ` set (p_fds p)" "n < fd_limit p" for e
    using p that by (auto simp: fds_inv_def list_all_iff fd_limit_def)
  show ?thesis
    using p new [of "\<lparr>user_fd = n, vfs_fd = v, status_flags = s, fd_flags = f\<rparr>"]
    by (auto simp: set_fd_with_flags_def list_ex_fd Let_def intro!: fds_inv_update_first)
qed

lemma fd_abs_set_fd:
  assumes "fds_inv p" and "n < fd_limit p" and "find_fd p n = None \<longrightarrow> m"
  shows "fd_abs (snd (set_fd_with_flags m p n v s f)) = (fd_abs p)(n \<mapsto> (v, s, f))"
proof (cases "n \<in> user_fd ` set (p_fds p)")
  case True
  then obtain e where e: "find_fd p n = Some e"
    by (metis find_None_key find_fd_def not_None_eq)
  with True assms(2) show ?thesis
    by (auto simp: set_fd_with_flags_def list_ex_fd fd_abs_def fun_eq_iff find_fd_update_first)
next
  case False
  then have "find_fd p n = None" by (simp add: find_fd_def find_None_key)
  with False assms fds_room [OF assms(1,2) False] show ?thesis
    by (auto simp: set_fd_with_flags_def list_ex_fd fd_abs_def fun_eq_iff find_fd_def find_snoc
        Let_def split: option.splits)
qed

lemma fds_inv_remove_fd: "fds_inv p \<Longrightarrow> fds_inv (snd (remove_fd p n))"
  using position_Some [of "\<lambda>e. user_fd e = n" "p_fds p"]
  by (auto simp: remove_fd_def fds_inv_def list_all_iff distinct_key_swap_remove
      split: option.splits dest: set_swap_removeD)

lemma remove_fd_result: "fst (remove_fd p n) = map_option fst (fd_abs p n)"
  by (auto simp: remove_fd_def fd_abs_def find_fd_def position_find split: option.splits)

lemma fd_abs_remove_fd:
  assumes "fds_inv p"
  shows "fd_abs (snd (remove_fd p n)) = (fd_abs p)(n := None)"
proof (cases "position (\<lambda>e. user_fd e = n) (p_fds p)")
  case None
  then have "find_fd p n = None" by (simp add: find_fd_def position_find)
  with None show ?thesis by (simp add: remove_fd_def fd_abs_def fun_eq_iff)
next
  case (Some i)
  with assms position_Some [OF Some] show ?thesis
    by (simp add: remove_fd_def fd_abs_def find_fd_def fun_eq_iff fds_inv_def find_swap_remove)
qed

lemma fd_limit_remove_fd [simp]: "fd_limit (snd (remove_fd p n)) = fd_limit p"
  by (simp add: remove_fd_def split: option.splits)

lemma find_fd_None_iff: "find_fd p n = None \<longleftrightarrow> fd_abs p n = None"
  by (simp add: fd_abs_def)

lemma lowest_fd_from_find:
  "lowest_fd_from xs c l = find (\<lambda>n. find (\<lambda>e. user_fd e = n) xs = None) [c..<l]"
proof (induction xs c l rule: lowest_fd_from.induct)
  case (1 xs c l)
  have "list_all (\<lambda>e. user_fd e \<noteq> c) xs \<longleftrightarrow> find (\<lambda>e. user_fd e = c) xs = None"
    by (auto simp: list_all_iff find_None_iff)
  then show ?case
    using 1 by (subst lowest_fd_from.simps) (simp add: upt_conv_Cons)
qed

lemma lowest_available_fd_spec: "lowest_available_fd p = lowest_unused (fd_limit p) (fd_abs p)"
  by (simp add: lowest_available_fd_def lowest_unused_def lowest_fd_from_find
      flip: find_fd_def find_fd_None_iff)

interpretation fdt: descriptor_table
  fds_inv fd_abs fd_limit
  "\<lambda>p n (v, s, f). snd (set_fd_with_flags True p n v s f)"
  "\<lambda>p n. snd (remove_fd p n)" lowest_available_fd
  by unfold_locales
    (auto simp: fd_abs_set_fd fd_abs_remove_fd fds_inv_set_fd fds_inv_remove_fd
      lowest_available_fd_spec lowest_unused_def)

subsection \<open>Close on exec\<close>

definition cloexec :: "FdEntry \<Rightarrow> bool" where
  "cloexec e \<longleftrightarrow> fd_flags e AND FD_CLOEXEC \<noteq> 0"

lemma cloexec_loop_mset:
  "(\<And>j. j < i \<Longrightarrow> \<not> cloexec (fds ! j)) \<Longrightarrow> i \<le> length fds \<Longrightarrow> cloexec_loop fds i = (rest, closed) \<Longrightarrow>
   mset rest = filter_mset (\<lambda>e. \<not> cloexec e) (mset fds) \<and>
   mset closed = image_mset vfs_fd (filter_mset cloexec (mset fds))"
proof (induction fds i arbitrary: rest closed rule: cloexec_loop.induct)
  case (1 fds i)
  consider (stop) "length fds \<le> i" | (hit) "i < length fds" "cloexec (fds ! i)"
    | (miss) "i < length fds" "\<not> cloexec (fds ! i)" by linarith
  then show ?case
  proof cases
    case stop
    then have "\<forall>e\<in>set fds. \<not> cloexec e" using "1.prems"(1,2) by (metis in_set_conv_nth le_antisym)
    then show ?thesis
      using stop "1.prems"(3)
      by (auto simp: cloexec_loop.simps simp flip: mset_filter)
  next
    case hit
    obtain rest' closed' where rec: "cloexec_loop (swap_remove i fds) i = (rest', closed')" by fastforce
    from hit "1.prems"(3) rec have out: "rest = rest'" "closed = vfs_fd (fds ! i) # closed'"
      by (auto simp: cloexec_loop.simps [of fds i] cloexec_def)
    have "mset rest' = filter_mset (\<lambda>e. \<not> cloexec e) (mset (swap_remove i fds)) \<and>
      mset closed' = image_mset vfs_fd (filter_mset cloexec (mset (swap_remove i fds)))"
      using hit "1.prems"(1) by (intro "1.IH"(1) [OF _ _ _ _ rec]) (auto simp: cloexec_def nth_swap_remove)
    then show ?thesis using hit out by (simp add: mset_swap_remove image_mset_Diff)
  next
    case miss
    from miss "1.prems"(3) have "cloexec_loop fds (i + 1) = (rest, closed)"
      by (simp add: cloexec_loop.simps [of fds i] cloexec_def)
    then show ?thesis
      using miss "1.prems"(1,2) by (intro "1.IH"(2)) (auto simp: cloexec_def less_Suc_eq)
  qed
qed

lemma close_on_exec_mset:
  "mset (p_fds (fst (close_on_exec_fds p))) = filter_mset (\<lambda>e. \<not> cloexec e) (mset (p_fds p))"
  "mset (snd (close_on_exec_fds p)) = image_mset vfs_fd (filter_mset cloexec (mset (p_fds p)))"
  using cloexec_loop_mset [of 0 "p_fds p" "fst (cloexec_loop (p_fds p) 0)" "snd (cloexec_loop (p_fds p) 0)"]
  by (auto simp: close_on_exec_fds_def split: prod.splits)

lemma fd_limit_close_on_exec [simp]: "fd_limit (fst (close_on_exec_fds p)) = fd_limit p"
  by (simp add: close_on_exec_fds_def split: prod.splits)

lemma close_on_exec_distinct:
  "fds_inv p \<Longrightarrow> distinct (map user_fd (p_fds (fst (close_on_exec_fds p))))"
  using close_on_exec_mset(1) [of p]
  by (metis distinct_map_filter fds_inv_def mset_eq_imp_distinct_iff mset_filter mset_map)

lemma close_on_exec_set: "set (p_fds (fst (close_on_exec_fds p))) = {e \<in> set (p_fds p). \<not> cloexec e}"
  using arg_cong [OF close_on_exec_mset(1), of set_mset p] by simp

lemma fds_inv_close_on_exec: "fds_inv p \<Longrightarrow> fds_inv (fst (close_on_exec_fds p))"
  using close_on_exec_distinct [of p] by (auto simp: fds_inv_def list_all_iff close_on_exec_set)

lemma fd_abs_close_on_exec:
  assumes "fds_inv p"
  shows "fd_abs (fst (close_on_exec_fds p)) n =
    (case fd_abs p n of Some (v, s, f) \<Rightarrow> if f AND FD_CLOEXEC \<noteq> 0 then None else fd_abs p n | None \<Rightarrow> None)"
proof -
  have "find_fd (fst (close_on_exec_fds p)) n = find (\<lambda>e. user_fd e = n) (filter (\<lambda>e. \<not> cloexec e) (p_fds p))"
    unfolding find_fd_def using close_on_exec_distinct [OF assms] assms
    by (intro find_key_eqI) (auto simp: close_on_exec_set fds_inv_def distinct_map_filter)
  then show ?thesis
    using assms
    by (auto simp: fd_abs_def fds_inv_def find_filter_key find_fd_def cloexec_def split: option.splits)
qed

subsection \<open>Refinement of the specification\<close>

lemma push_fd_cases:
  assumes "fds_inv p"
  shows "push_fd_with_all_flags m p v s f =
    (case lowest_unused (fd_limit p) (fd_abs p) of
       None \<Rightarrow> (Err TooManyOpenFiles, p)
     | Some n \<Rightarrow> if m then (Ok n, snd (set_fd_with_flags m p n v s f)) else (Err FdOutOfMemory, p))"
proof (cases "lowest_available_fd p")
  case None
  then show ?thesis by (simp add: push_fd_with_all_flags_def lowest_available_fd_spec)
next
  case (Some n)
  obtain r q where rq: "set_fd_with_flags m p n v s f = (r, q)" by fastforce
  have "r = (if m then Ok () else Err FdOutOfMemory)"
    using set_fd_result [OF assms, of m n v s f] fdt.free_SomeD [OF Some] rq by (simp add: find_fd_None_iff)
  moreover have "\<not> m \<Longrightarrow> q = p"
    using calculation set_fd_unchanged [of m p n v s f FdOutOfMemory] rq by simp
  ultimately show ?thesis
    using Some rq by (cases m) (simp_all add: push_fd_with_all_flags_def flip: lowest_available_fd_spec)
qed

lemma replace_fd_cases:
  assumes "fds_inv p"
  shows "replace_fd_with_flags m p n v s f =
    (if fd_limit p \<le> n then (Err TooManyOpenFiles, p)
     else if fd_abs p n = None \<and> \<not> m then (Err FdOutOfMemory, p)
     else (Ok (map_option fst (fd_abs p n)), snd (set_fd_with_flags m p n v s f)))"
proof (cases "find_fd p n")
  case None
  obtain r q where rq: "set_fd_with_flags m p n v s f = (r, q)" by fastforce
  have "\<not> fd_limit p \<le> n \<Longrightarrow> r = (if m then Ok () else Err FdOutOfMemory)"
    using set_fd_result [OF assms, of m n v s f] None rq by simp
  moreover have "\<not> fd_limit p \<le> n \<Longrightarrow> \<not> m \<Longrightarrow> q = p"
    using calculation set_fd_unchanged [of m p n v s f FdOutOfMemory] rq by simp
  ultimately show ?thesis
    using None rq by (cases m) (simp_all add: replace_fd_with_flags_def fd_abs_def)
next
  case (Some e)
  then have "n \<in> user_fd ` set (p_fds p)" by (metis find_None_key find_fd_def option.discI)
  with Some show ?thesis
    by (simp add: replace_fd_with_flags_def set_fd_with_flags_def list_ex_fd fd_abs_def)
qed

lemma set_flags_found: "list_ex (\<lambda>e. user_fd e = n) (p_fds p) \<longleftrightarrow> fd_abs p n \<noteq> None"
  by (simp add: list_ex_fd fd_abs_def find_fd_def find_None_key)

lemma fd_step_refines:
  assumes "fds_inv p"
  shows "fds_inv (snd (fd_step p x))" and "fd_limit (snd (fd_step p x)) = fd_limit p"
    and "fst (fd_step p x) = fst (fd_spec (fd_limit p) (fd_abs p) x)"
    and "fd_abs (snd (fd_step p x)) = snd (fd_spec (fd_limit p) (fd_abs p) x)"
proof -
  have free: "n < fd_limit p" if "lowest_unused (fd_limit p) (fd_abs p) = Some n" for n
    using that fdt.free_SomeD [of p n] by (simp add: lowest_available_fd_spec)
  show "fds_inv (snd (fd_step p x))" "fd_limit (snd (fd_step p x)) = fd_limit p"
    using assms
    by (cases x; simp add: push_fd_cases replace_fd_cases fds_inv_set_fd fds_inv_remove_fd
        fds_inv_close_on_exec set_status_flags_def set_fd_flags_def fds_inv_update_first case_prod_beta
        split: option.split)+
  show "fst (fd_step p x) = fst (fd_spec (fd_limit p) (fd_abs p) x)"
    using assms
    by (cases x) (auto simp: push_fd_cases replace_fd_cases remove_fd_result set_status_flags_def
        set_fd_flags_def set_flags_found case_prod_beta split: option.split)
  show "fd_abs (snd (fd_step p x)) = snd (fd_spec (fd_limit p) (fd_abs p) x)"
  proof (cases x)
    case (FdSetStatus n s)
    then show ?thesis
      by (auto simp: set_status_flags_def fd_abs_def fun_eq_iff find_fd_update_first option.map_comp comp_def)
  next
    case (FdSetFlags n f)
    then show ?thesis
      by (auto simp: set_fd_flags_def fd_abs_def fun_eq_iff find_fd_update_first option.map_comp comp_def)
  next
    case FdExec
    then show ?thesis using assms by (simp add: fd_abs_close_on_exec fun_eq_iff)
  qed (use assms free in \<open>auto simp: push_fd_cases replace_fd_cases fd_abs_set_fd fd_abs_remove_fd
        case_prod_beta find_fd_None_iff split: option.split\<close>)
qed

text \<open>
  C30: any sequence of descriptor operations (allocate, \<open>dup2\<close>-style replace,
  close, flag updates, close-on-exec) on a process's descriptor vector returns
  the same results and reaches the same table as the POSIX specification on a
  finite map: allocation picks the lowest unused number below the limit, errors
  leave the table alone, and every other number is untouched.
\<close>

theorem fd_table_refines:
  assumes "fds_inv p"
  shows "fst (fd_run p ops) = fst (fd_spec_run (fd_limit p) (fd_abs p) ops) \<and>
    fd_abs (snd (fd_run p ops)) = snd (fd_spec_run (fd_limit p) (fd_abs p) ops)"
  using assms
proof (induction ops arbitrary: p)
  case (Cons x ops)
  note step = fd_step_refines [OF Cons.prems, of x]
  show ?case using Cons.IH [OF step(1)] step(2-4) by (simp add: case_prod_beta)
qed simp

definition demo_process :: Process where
  "demo_process = (new_user [] 0 2 (Some 1) [0x73, 0x68] Credentials_root)\<lparr>p_rlimit_nofile_cur := 8\<rparr>"

theorem fd_table_refines_witness:
  "fds_inv demo_process \<and>
   fst (fd_run demo_process [FdPush True 7 0 0, FdPush True 8 0 1, FdRemove 0, FdPush True 9 2 0, FdExec,
     FdReplace True 5 9 2 0, FdPush False 3 0 0]) =
   [ResNew (Ok 0), ResNew (Ok 1), ResRemoved (Some 7), ResNew (Ok 0), ResUnit, ResOld (Ok None),
    ResNew (Err FdOutOfMemory)]"
proof -
  have inv: "fds_inv demo_process" by (simp add: demo_process_def fds_inv_def new_user_def)
  have lim: "fd_limit demo_process = 8" by (simp add: demo_process_def fd_limit_def MAX_FDS_def)
  have abs: "fd_abs demo_process = (\<lambda>_. None)"
    by (simp add: demo_process_def fd_abs_def find_fd_def new_user_def fun_eq_iff)
  show ?thesis
    using conjunct1 [OF fd_table_refines [OF inv, of "[FdPush True 7 0 0, FdPush True 8 0 1, FdRemove 0,
      FdPush True 9 2 0, FdExec, FdReplace True 5 9 2 0, FdPush False 3 0 0]"]] inv
    by (simp add: lim abs lowest_unused_def upt_rec FD_CLOEXEC_def)
qed

text \<open>
  The shell idiom behind redirection: closing descriptor \<open>n\<close> while every
  lower number is open makes the next allocation return \<open>n\<close>.
\<close>

theorem close_then_open_same_fd:
  assumes "fds_inv p" and "n < fd_limit p" and "\<And>m. m < n \<Longrightarrow> fd_abs p m \<noteq> None"
  shows "fst (push_fd_with_all_flags True (snd (remove_fd p n)) v s f) = Ok n"
  using fdt.close_then_allocate [OF assms]
  by (simp add: push_fd_cases fds_inv_remove_fd assms(1) lowest_available_fd_spec)

theorem close_then_open_same_fd_witness:
  "fst (push_fd_with_all_flags True (snd (remove_fd demo_process 0)) 4 0 0) = Ok 0"
  by (rule close_then_open_same_fd)
    (simp_all add: demo_process_def fds_inv_def fd_limit_def new_user_def MAX_FDS_def)

text \<open>
  \<open>exec\<close> closes exactly the VFS descriptors of the entries marked
  close-on-exec, each once, and keeps every other entry.
\<close>

theorem close_on_exec_exact:
  "mset (p_fds (fst (close_on_exec_fds p))) = filter_mset (\<lambda>e. fd_flags e AND FD_CLOEXEC = 0) (mset (p_fds p)) \<and>
   mset (snd (close_on_exec_fds p)) =
     image_mset vfs_fd (filter_mset (\<lambda>e. fd_flags e AND FD_CLOEXEC \<noteq> 0) (mset (p_fds p)))"
  using close_on_exec_mset [of p] by (simp add: cloexec_def [abs_def])

section \<open>Pending signals\<close>

definition deliverable :: "u64 \<Rightarrow> u64 \<Rightarrow> nat \<Rightarrow> bool" where
  "deliverable pending signal_mask n \<longleftrightarrow>
     bit pending n \<and> (is_uncatchable_signal n \<or> \<not> bit signal_mask n)"

lemma find_upt_eqI:
  assumes "P s" and "a \<le> s" and "s < b" and "\<And>n. a \<le> n \<Longrightarrow> n < s \<Longrightarrow> \<not> P n"
  shows "find P [a..<b] = Some s"
  unfolding find_Some_iff by (rule exI [of _ "s - a"]) (use assms in auto)

lemma deliverable_scan_step:
  assumes "w \<noteq> 0"
  shows "deliverable_scan w m =
    (if trailing_zeros w = 0 \<or> \<not> deliverable w m (trailing_zeros w)
     then deliverable_scan (w AND NOT (push_bit (trailing_zeros w) 1)) m else Some (trailing_zeros w))"
  using assms trailing_zeros_lowest [OF assms]
  by (subst deliverable_scan.simps) (simp add: Let_def deliverable_def and_push_bit_1 del: push_bit_of_1)

lemma deliverable_scan_find: "deliverable_scan w m = find (deliverable w m) [1..<64]"
proof (induction "card {n. n < 64 \<and> bit w n}" arbitrary: w rule: less_induct)
  case less
  show ?case
  proof (cases "w = 0")
    case True
    then have "find (deliverable w m) [1..<64] = None" by (simp add: find_None_iff deliverable_def)
    with True show ?thesis by (simp add: deliverable_scan.simps)
  next
    case False
    define s where "s = trailing_zeros w"
    define w' where "w' = w AND NOT (push_bit s 1)"
    note tz = trailing_zeros_lowest [OF False, folded s_def]
    note step = deliverable_scan_step [OF False, of m, folded s_def, folded w'_def]
    have bit: "bit w' n \<longleftrightarrow> bit w n \<and> n \<noteq> s" if "n < 64" for n
      using that by (auto simp: w'_def bit_simps)
    show ?thesis
    proof (cases "s = 0 \<or> \<not> deliverable w m s")
      case True
      have "{n. n < 64 \<and> bit w' n} \<subset> {n. n < 64 \<and> bit w n}" using bit tz by auto
      then have "deliverable_scan w' m = find (deliverable w' m) [1..<64]"
        by (intro less psubset_card_mono) simp
      also have "\<dots> = find (deliverable w m) [1..<64]"
        using True by (intro find_cong) (auto simp: deliverable_def bit)
      finally show ?thesis using True step by simp
    next
      case 3: False
      then have "find (deliverable w m) [1..<64] = Some s"
        using tz by (intro find_upt_eqI) (auto simp: deliverable_def)
      with 3 step show ?thesis by simp
    qed
  qed
qed

text \<open>
  C37: the signal delivered next is the lowest-numbered pending signal that is
  not blocked, where \<open>SIGKILL\<close> and \<open>SIGSTOP\<close> cannot be blocked.
\<close>

theorem next_deliverable_lowest:
  "next_deliverable_pending_signal p =
     find (\<lambda>n. bit (p_pending_signals p) n \<and> \<not> (bit (p_signal_mask p) n \<and> n \<noteq> number Kill \<and> n \<noteq> number Stop)) [1..<64]"
proof -
  have "deliverable (p_pending_signals p) (p_signal_mask p) =
    (\<lambda>n. bit (p_pending_signals p) n \<and> \<not> (bit (p_signal_mask p) n \<and> n \<noteq> number Kill \<and> n \<noteq> number Stop))"
    by (auto simp: deliverable_def is_uncatchable_signal_def fun_eq_iff)
  then show ?thesis by (simp add: next_deliverable_pending_signal_def deliverable_scan_find)
qed

lemma bit_clear_pending_signal:
  "n < 64 \<Longrightarrow> bit (p_pending_signals (clear_pending_signal p s)) n \<longleftrightarrow> bit (p_pending_signals p) n \<and> n \<noteq> s"
  by (auto simp: clear_pending_signal_def Let_def bit_simps)

lemma bit_queue_signal:
  "n < 64 \<Longrightarrow> bit (p_pending_signals (queue_signal p st)) n \<longleftrightarrow> bit (p_pending_signals p) n \<or> st = 128 + int n"
  by (auto simp: queue_signal_def Let_def bit_simps)

section \<open>Timed waits\<close>

text \<open>
  A restarted wait keeps the deadline of its first attempt: once a deadline is
  recorded for a key, later calls with that key return it whatever the clock
  and the timeout, and change nothing.
\<close>

theorem timed_wait_deadline_stable:
  assumes "timed_wait_deadline p key timeout now = (Ok d, p')"
  shows "timed_wait_deadline p' key timeout' now' = (Ok d, p')"
proof -
  consider w where "p_timed_wait p = Some w" "tw_key w = key" "p' = p" "d = tw_deadline_ms w"
    | "p_timed_wait p' = Some \<lparr>tw_key = key, tw_deadline_ms = d, tw_woken = False\<rparr>"
    using assms by (auto simp: timed_wait_deadline_def split: option.splits if_splits)
  then show ?thesis by cases (simp_all add: timed_wait_deadline_def)
qed

theorem timed_wait_deadline_stable_witness:
  "\<exists>p'. timed_wait_deadline demo_process 5 100 1000 = (Ok 1100, p') \<and>
        timed_wait_deadline p' 5 100 1090 = (Ok 1100, p')"
proof -
  have "timed_wait_deadline demo_process 5 100 1000 =
      (Ok 1100, demo_process\<lparr>p_timed_wait := Some \<lparr>tw_key = 5, tw_deadline_ms = 1100, tw_woken = False\<rparr>\<rparr>)"
    by (simp add: timed_wait_deadline_def demo_process_def new_user_def checked_add_def USIZE_MAX_def)
  from timed_wait_deadline_stable [OF this, of 100 1090] this show ?thesis by blast
qed

end
