(* ===== verification/Kernel_Iface.thy ===== *)
theory Kernel_Iface
  imports Process
begin

text \<open>
  What the process layer uses of the rest of the kernel.  The file system, the
  socket table, address spaces, user memory and the allocator form a world of
  arbitrary type; \<open>KOps\<close> names the calls made into it, each threading that world.
  \<open>Kern\<close> is the process table together with the current process and the world.
\<close>

section \<open>Definitions\<close>

datatype VfsError =
    NotFound | NotFile | VfsBadFd | Utf8 | AlreadyExists | PermissionDenied | VfsWouldBlock
  | VfsTooManyOpenFiles | TooManyLinks | NoSpace | VfsOutOfMemory | BrokenPipe

datatype PagingError =
    OutOfFrames | AlreadyMapped | NotMapped | HugePage | RefcountOverflow | RefcountUnavailable

datatype SocketError =
    SockBadFd | SockInvalid | SockRefcountOverflow | SockWouldBlock | AddressInUse | AlreadyConnected
  | InProgress | ConnectionReset | TimedOut

datatype ForkError = NoSuchProcess | ForkOutOfMemory | InvalidProcessState

datatype ExecError = ExecNotFound | ExecPermissionDenied | InvalidImage | TooManyArguments | ExecOutOfMemory

datatype UserAccess = UserRead | UserWrite | UserExecute

text \<open>The calls of the process layer into the rest of the kernel.\<close>

record 'w KOps =
  op_reserve :: "usize \<Rightarrow> 'w \<Rightarrow> bool \<times> 'w"
  op_fs_close :: "usize \<Rightarrow> 'w \<Rightarrow> (VfsError, unit) result \<times> 'w"
  op_fs_dup :: "usize \<Rightarrow> 'w \<Rightarrow> (VfsError, usize) result \<times> 'w"
  op_fs_lseek :: "usize \<Rightarrow> int \<Rightarrow> nat \<Rightarrow> 'w \<Rightarrow> (VfsError, usize) result \<times> 'w"
  op_fs_write :: "usize \<Rightarrow> bytes \<Rightarrow> 'w \<Rightarrow> (VfsError, usize) result \<times> 'w"
  op_fs_open :: "bytes \<Rightarrow> 'w \<Rightarrow> (VfsError, usize) result \<times> 'w"
  op_sock_dup :: "usize \<Rightarrow> 'w \<Rightarrow> (SocketError, unit) result \<times> 'w"
  op_sock_close :: "usize \<Rightarrow> 'w \<Rightarrow> (SocketError, unit) result \<times> 'w"
  op_sock_fd_flags :: "usize \<Rightarrow> 'w \<Rightarrow> u32 option"
  op_space_new :: "'w \<Rightarrow> (PagingError, space) result \<times> 'w"
  op_space_clone :: "space \<Rightarrow> 'w \<Rightarrow> (PagingError, space) result \<times> 'w"
  op_space_destroy :: "space \<Rightarrow> 'w \<Rightarrow> 'w"
  op_space_activate :: "space \<Rightarrow> 'w \<Rightarrow> 'w"
  op_space_clear :: "space \<Rightarrow> 'w \<Rightarrow> 'w"
  op_p4_phys :: "space \<Rightarrow> 'w \<Rightarrow> usize"
  op_allows_user :: "space \<Rightarrow> usize \<Rightarrow> usize \<Rightarrow> UserAccess \<Rightarrow> 'w \<Rightarrow> bool"
  op_ensure_writable :: "space \<Rightarrow> usize \<Rightarrow> usize \<Rightarrow> 'w \<Rightarrow> bool \<times> 'w"
  op_read_mem :: "usize \<Rightarrow> usize \<Rightarrow> 'w \<Rightarrow> bytes"
  op_write_u32 :: "usize \<Rightarrow> u32 \<Rightarrow> 'w \<Rightarrow> 'w"
  op_boot_context :: "'w \<Rightarrow> 'w"
  op_switch_context :: "usize \<Rightarrow> u64 \<Rightarrow> 'w \<Rightarrow> 'w"
  op_on_fork :: "Pid \<Rightarrow> 'w \<Rightarrow> 'w"
  op_fpu_init :: "bytes"

record 'w Kern =
  k_procs :: "Process list"
  k_next_pid :: Pid
  k_current :: "Pid option"
  k_world :: 'w

subsection \<open>Table access\<close>

definition get_proc :: "'w Kern \<Rightarrow> Pid \<Rightarrow> Process option" where
  "get_proc k pid = find (\<lambda>p. p_pid p = pid) (k_procs k)"

definition upd_proc :: "Pid \<Rightarrow> (Process \<Rightarrow> Process) \<Rightarrow> 'w Kern \<Rightarrow> 'w Kern" where
  "upd_proc pid f k = k\<lparr>k_procs := update_first (\<lambda>p. p_pid p = pid) f (k_procs k)\<rparr>"

definition on_world :: "('w \<Rightarrow> 'w) \<Rightarrow> 'w Kern \<Rightarrow> 'w Kern" where
  "on_world f k = k\<lparr>k_world := f (k_world k)\<rparr>"

text \<open>A call whose result is used, and one whose result is dropped (\<open>let _ = ...\<close>).\<close>

definition call :: "('w \<Rightarrow> 'a \<times> 'w) \<Rightarrow> 'w Kern \<Rightarrow> 'a \<times> 'w Kern" where
  "call f k = (let (r, w) = f (k_world k) in (r, k\<lparr>k_world := w\<rparr>))"

definition ignore :: "('w \<Rightarrow> 'a \<times> 'w) \<Rightarrow> 'w Kern \<Rightarrow> 'w Kern" where
  "ignore f k = snd (call f k)"

definition clear_current :: "'w KOps \<Rightarrow> 'w Kern \<Rightarrow> 'w Kern" where
  "clear_current ops k = on_world (op_boot_context ops) (k\<lparr>k_current := None\<rparr>)"

definition is_zombie :: "Process \<Rightarrow> bool" where
  "is_zombie p = (case p_state p of Zombie _ \<Rightarrow> True | _ \<Rightarrow> False)"

definition is_stopped :: "Process \<Rightarrow> bool" where
  "is_stopped p = (case p_state p of Stopped _ \<Rightarrow> True | _ \<Rightarrow> False)"

definition is_blocked :: "Process \<Rightarrow> bool" where
  "is_blocked p = (case p_state p of Blocked _ \<Rightarrow> True | _ \<Rightarrow> False)"

subsection \<open>Wake lists\<close>

record WakeList =
  wl_pids :: "Pid list"
  wl_overflow :: bool
  wl_timed :: "(u64 \<times> usize) list"
  wl_timed_overflow :: bool

definition WakeList_new :: WakeList where
  "WakeList_new = \<lparr>wl_pids = [], wl_overflow = False, wl_timed = [], wl_timed_overflow = False\<rparr>"

definition push_unique :: "Pid \<Rightarrow> WakeList \<Rightarrow> WakeList" where
  "push_unique pid wl =
     (if pid \<in> set (wl_pids wl) then wl
      else if length (wl_pids wl) = MAX_WAKE_PIDS then wl\<lparr>wl_overflow := True\<rparr>
      else wl\<lparr>wl_pids := wl_pids wl @ [pid]\<rparr>)"

definition push_timed_wait_key :: "u64 \<Rightarrow> usize \<Rightarrow> WakeList \<Rightarrow> WakeList" where
  "push_timed_wait_key key limit wl =
     (if list_ex (\<lambda>w. fst w = key) (wl_timed wl) then wl
      else if length (wl_timed wl) = MAX_WAKE_TIMED_WAITS then wl\<lparr>wl_timed_overflow := True\<rparr>
      else wl\<lparr>wl_timed := wl_timed wl @ [(key, limit)]\<rparr>)"

definition wl_extend :: "WakeList \<Rightarrow> WakeList \<Rightarrow> WakeList" where
  "wl_extend wl other =
     (let wl1 = fold push_unique (wl_pids other) wl;
          wl2 = (if wl_overflow other then wl1\<lparr>wl_overflow := True\<rparr> else wl1);
          wl3 = fold (\<lambda>(key, limit). push_timed_wait_key key limit) (wl_timed other) wl2
      in if wl_timed_overflow other then wl3\<lparr>wl_timed_overflow := True\<rparr> else wl3)"

subsection \<open>Error mappings\<close>

fun map_fork_vfs_error :: "VfsError \<Rightarrow> ForkError" where
  "map_fork_vfs_error e =
     (case e of VfsOutOfMemory \<Rightarrow> ForkOutOfMemory | VfsTooManyOpenFiles \<Rightarrow> ForkOutOfMemory
      | _ \<Rightarrow> InvalidProcessState)"

fun map_fork_paging_error :: "PagingError \<Rightarrow> ForkError" where
  "map_fork_paging_error e =
     (case e of OutOfFrames \<Rightarrow> ForkOutOfMemory | RefcountOverflow \<Rightarrow> ForkOutOfMemory
      | RefcountUnavailable \<Rightarrow> ForkOutOfMemory | _ \<Rightarrow> InvalidProcessState)"

fun map_fork_socket_error :: "SocketError \<Rightarrow> ForkError" where
  "map_fork_socket_error e =
     (case e of SockRefcountOverflow \<Rightarrow> ForkOutOfMemory | _ \<Rightarrow> InvalidProcessState)"

fun map_fd_table_vfs_error :: "FdTableError \<Rightarrow> VfsError" where
  "map_fd_table_vfs_error TooManyOpenFiles = VfsTooManyOpenFiles"
| "map_fd_table_vfs_error FdOutOfMemory = VfsOutOfMemory"

fun map_dup_target_error :: "FdTableError \<Rightarrow> VfsError" where
  "map_dup_target_error TooManyOpenFiles = VfsBadFd"
| "map_dup_target_error FdOutOfMemory = VfsOutOfMemory"

section \<open>Wake list lemmas\<close>

lemma push_unique_invariant:
  "distinct (wl_pids wl) \<Longrightarrow> length (wl_pids wl) \<le> MAX_WAKE_PIDS \<Longrightarrow>
   distinct (wl_pids (push_unique pid wl)) \<and> length (wl_pids (push_unique pid wl)) \<le> MAX_WAKE_PIDS"
  by (auto simp: push_unique_def)

lemma push_unique_covers:
  "pid \<in> set (wl_pids (push_unique pid wl)) \<or> wl_overflow (push_unique pid wl)"
  by (auto simp: push_unique_def)

lemma push_unique_mono:
  "set (wl_pids wl) \<subseteq> set (wl_pids (push_unique pid wl))"
  "wl_overflow wl \<Longrightarrow> wl_overflow (push_unique pid wl)"
  by (auto simp: push_unique_def)

lemma fold_push_unique_covers:
  "set (wl_pids wl) \<subseteq> set (wl_pids (fold push_unique xs wl)) \<and>
   (wl_overflow wl \<longrightarrow> wl_overflow (fold push_unique xs wl)) \<and>
   (wl_overflow (fold push_unique xs wl) \<or> set xs \<subseteq> set (wl_pids (fold push_unique xs wl)))"
proof (induction xs arbitrary: wl)
  case (Cons x xs)
  show ?case
    using Cons.IH [of "push_unique x wl"] push_unique_mono [of wl x] push_unique_covers [of x wl] by auto
qed simp

lemma push_timed_pids [simp]:
  "wl_pids (push_timed_wait_key k l wl) = wl_pids wl"
  "wl_overflow (push_timed_wait_key k l wl) = wl_overflow wl"
  by (simp_all add: push_timed_wait_key_def)

lemma fold_push_timed_pids [simp]:
  "wl_pids (fold (\<lambda>(key, limit). push_timed_wait_key key limit) xs wl) = wl_pids wl"
  "wl_overflow (fold (\<lambda>(key, limit). push_timed_wait_key key limit) xs wl) = wl_overflow wl"
  by (induction xs arbitrary: wl) auto

text \<open>
  Merging wake lists loses no process: every pid of either list is in the
  result, unless the overflow flag is set, which makes the caller wake every
  runnable process.
\<close>

theorem wake_extend_complete:
  "wl_overflow (wl_extend a b) \<or> set (wl_pids a) \<union> set (wl_pids b) \<subseteq> set (wl_pids (wl_extend a b))"
  using fold_push_unique_covers [of a "wl_pids b"] by (auto simp: wl_extend_def Let_def)

text \<open>
  The same is not true of the futex keys: merging five one-key lists drops
  the fifth key, leaving only the flag \<open>timed_wait_overflow\<close>, which no code reads.
\<close>

theorem wake_extend_drops_futex_key:
  "wl_timed (foldl wl_extend WakeList_new
     (map (\<lambda>key. push_timed_wait_key key USIZE_MAX WakeList_new) [1, 2, 3, 4, 5])) =
   [(1, USIZE_MAX), (2, USIZE_MAX), (3, USIZE_MAX), (4, USIZE_MAX)]"
  by (simp add: wl_extend_def push_timed_wait_key_def WakeList_new_def MAX_WAKE_TIMED_WAITS_def)

section \<open>Table access lemmas\<close>

named_theorems kern_simps \<open>projections of the kernel state operations\<close>

lemma on_world_simps [simp, kern_simps]:
  "k_procs (on_world f k) = k_procs k" "k_next_pid (on_world f k) = k_next_pid k"
  "k_current (on_world f k) = k_current k" "k_world (on_world f k) = f (k_world k)"
  by (simp_all add: on_world_def)

lemma call_simps [simp, kern_simps]:
  "k_procs (snd (call f k)) = k_procs k" "k_next_pid (snd (call f k)) = k_next_pid k"
  "k_current (snd (call f k)) = k_current k"
  by (simp_all add: call_def case_prod_beta)

lemma callD:
  "call f k = (r, k') \<Longrightarrow> k_procs k' = k_procs k \<and> k_next_pid k' = k_next_pid k \<and> k_current k' = k_current k"
  using call_simps [of f k] by simp

lemma ignore_simps [simp, kern_simps]:
  "k_procs (ignore f k) = k_procs k" "k_next_pid (ignore f k) = k_next_pid k"
  "k_current (ignore f k) = k_current k"
  by (simp_all add: ignore_def)

lemma clear_current_simps [simp, kern_simps]:
  "k_procs (clear_current ops k) = k_procs k" "k_next_pid (clear_current ops k) = k_next_pid k"
  "k_current (clear_current ops k) = None"
  by (simp_all add: clear_current_def)

lemma upd_proc_simps [simp, kern_simps]:
  "k_next_pid (upd_proc pid f k) = k_next_pid k" "k_current (upd_proc pid f k) = k_current k"
  "k_world (upd_proc pid f k) = k_world k"
  by (simp_all add: upd_proc_def)

lemma get_upd_proc:
  assumes "\<And>p. p_pid (f p) = p_pid p"
  shows "get_proc (upd_proc pid f k) q =
    (if q = pid then map_option f (get_proc k q) else get_proc k q)"
  by (simp add: get_proc_def upd_proc_def find_update_first [where key = p_pid, OF assms])

lemma get_proc_cong: "k_procs k = k_procs k' \<Longrightarrow> get_proc k = get_proc k'"
  by (simp add: get_proc_def fun_eq_iff)

end
