(* ===== verification/Process_Table.thy ===== *)
theory Process_Table
  imports Kernel_Iface "HOL-Library.Monad_Syntax" "HOL-Library.Sublist"
begin

text \<open>
  The process table (\<open>ProcessTable\<close> in \<open>kernel/src/process/mod.rs\<close>): exit,
  orphan handling, job control, signals and reaping.

  \<open>exit_with_reason\<close> calls itself: through the threads that share the dying
  process's address space, and through reparenting, which may send \<open>SIGHUP\<close> to a
  newly orphaned stopped process group and so kill further processes.  The
  recursion is written with fuel; \<open>exit_fuel\<close> is enough in every state (see
  \<open>exit_terminates\<close>).

  \<open>held\<close> lists the address-space handles (\<open>Arc\<close> clones) that live in the stack
  frames of the calls in progress; together with the table it gives the strong
  count the code tests.
\<close>

section \<open>Definitions\<close>

datatype SigchldEvent = ChldExited | JobControl

definition strong_count :: "'w Kern \<Rightarrow> space list \<Rightarrow> space \<Rightarrow> nat" where
  "strong_count k held sp =
     length (filter (\<lambda>p. p_address_space p = sp) (k_procs k)) + length (filter (\<lambda>s. s = sp) held)"

subsection \<open>Releasing descriptors, sockets and mappings\<close>

definition close_fd_entries :: "'w KOps \<Rightarrow> FdEntry list \<Rightarrow> 'w Kern \<Rightarrow> 'w Kern" where
  "close_fd_entries ops entries k = fold (\<lambda>e. ignore (op_fs_close ops (vfs_fd e))) entries k"

definition close_socket_handle_list :: "'w KOps \<Rightarrow> usize list \<Rightarrow> 'w Kern \<Rightarrow> 'w Kern" where
  "close_socket_handle_list ops handles k = fold (\<lambda>h. ignore (op_sock_close ops h)) handles k"

definition isize_of :: "usize \<Rightarrow> int" where
  "isize_of n = (if n \<le> ISIZE_MAX then int n else int n - 2 ^ 64)"

function flush_write :: "'w KOps \<Rightarrow> usize \<Rightarrow> bytes \<Rightarrow> usize \<Rightarrow> 'w Kern \<Rightarrow> (VfsError, unit) result \<times> 'w Kern" where
  "flush_write ops fd data written k =
     (if written < length data
      then case call (op_fs_write ops fd (drop written data)) k of
             (Inl e, k1) \<Rightarrow> (Err e, k1)
           | (Inr n, k1) \<Rightarrow>
               if n = 0 then (Err VfsBadFd, k1) else flush_write ops fd data (written + n) k1
      else (Ok (), k))"
  by auto
termination by (relation "measure (\<lambda>(_, _, data, written, _). length data - written)") auto

declare flush_write.simps [simp del]

definition flush_shared_mapping_range ::
    "'w KOps \<Rightarrow> Process \<Rightarrow> SharedMapping \<Rightarrow> usize \<Rightarrow> usize \<Rightarrow> 'w Kern \<Rightarrow> (VfsError, unit) result \<times> 'w Kern" where
  "flush_shared_mapping_range ops p m addr range_end k =
     (if \<not> sm_writable m then (Ok (), k)
      else
        let mapping_end = saturating_add (sm_addr m) (sm_len m);
            start = max addr (sm_addr m);
            fin = min range_end mapping_end
        in if start \<ge> fin then (Ok (), k)
           else if \<not> op_allows_user ops (p_address_space p) start (fin - start) UserRead (k_world k)
           then (Err VfsBadFd, k)
           else
             let file_offset = sm_file_offset m + (start - sm_addr m) in
             case call (op_fs_lseek ops (sm_vfs_fd m) (isize_of file_offset) 0) k of
               (Inl e, k1) \<Rightarrow> (Err e, k1)
             | (Inr _, k1) \<Rightarrow>
                 flush_write ops (sm_vfs_fd m) (op_read_mem ops start (fin - start) (k_world k1)) 0 k1)"

definition flush_and_close_shared_mappings :: "'w KOps \<Rightarrow> Process \<Rightarrow> 'w Kern \<Rightarrow> 'w Kern" where
  "flush_and_close_shared_mappings ops p k =
     (let k1 = (if k_current k = Some (p_pid p)
                then fold (\<lambda>m k. case checked_add (sm_addr m) (sm_len m) of
                             None \<Rightarrow> k
                           | Some range_end \<Rightarrow>
                               snd (flush_shared_mapping_range ops p m (sm_addr m) range_end k))
                       (p_shared_mappings p) k
                else k)
      in fold (\<lambda>m. ignore (op_fs_close ops (sm_vfs_fd m))) (p_shared_mappings p) k1)"

text \<open>
  \<open>destroy\<close> runs on a process already taken out of the table; its own handle is
  the one the strong count still includes.
\<close>

definition destroy :: "'w KOps \<Rightarrow> space list \<Rightarrow> Process \<Rightarrow> 'w Kern \<Rightarrow> 'w Kern" where
  "destroy ops held p k =
     (let k1 = flush_and_close_shared_mappings ops p k;
          k2 = close_fd_entries ops (p_fds p) k1;
          k3 = close_socket_handle_list ops (p_socket_handles p) k2
      in if strong_count k3 held (p_address_space p) + 1 = 1
         then on_world (op_space_destroy ops (p_address_space p)) k3 else k3)"

definition reap :: "'w KOps \<Rightarrow> space list \<Rightarrow> Pid \<Rightarrow> 'w Kern \<Rightarrow> 'w Kern" where
  "reap ops held pid k =
     (case position (\<lambda>p. p_pid p = pid) (k_procs k) of
        None \<Rightarrow> k
      | Some i \<Rightarrow> destroy ops held (k_procs k ! i) (k\<lparr>k_procs := remove_at i (k_procs k)\<rparr>))"

subsection \<open>Waking and notifying\<close>

definition wake_waiter_for_child :: "Pid \<Rightarrow> Pid \<Rightarrow> WakeList \<times> 'w Kern \<Rightarrow> WakeList \<times> 'w Kern" where
  "wake_waiter_for_child waiter child = (\<lambda>(wake, k).
     case get_proc k waiter of
       None \<Rightarrow> (wake, k)
     | Some p \<Rightarrow>
         (case p_state p of
            Blocked (WaitChild wait_child) \<Rightarrow>
              if wait_child = child \<or> wait_child = 0
              then (push_unique waiter wake, upd_proc waiter (\<lambda>p. p\<lparr>p_state := Ready\<rparr>) k)
              else (wake, k)
          | _ \<Rightarrow> (wake, k)))"

definition queue_sigchld :: "Pid \<Rightarrow> SigchldEvent \<Rightarrow> 'w Kern \<Rightarrow> 'w Kern" where
  "queue_sigchld parent event k =
     (let status = default_status Child in
      case get_proc k parent of
        None \<Rightarrow> k
      | Some p \<Rightarrow>
          if event = JobControl \<and> p_signal_flags p ! number Child AND SIGNAL_FLAG_NOCLDSTOP \<noteq> 0 then k
          else if is_ignored_signal p status then k
          else if should_queue_signal p status (k_current k)
          then upd_proc parent (\<lambda>p. queue_signal p status) k
          else k)"

definition wake_waiters_for :: "Pid \<Rightarrow> 'w Kern \<Rightarrow> WakeList \<times> 'w Kern" where
  "wake_waiters_for pid k =
     (let waiters = (case get_proc k pid of None \<Rightarrow> [] | Some p \<Rightarrow> p_waiters p);
          k1 = upd_proc pid (\<lambda>p. p\<lparr>p_waiters := []\<rparr>) k;
          (wake, k2) = fold (\<lambda>w. wake_waiter_for_child w pid) waiters (WakeList_new, k1)
      in case Option.bind (get_proc k2 pid) p_parent of
           None \<Rightarrow> (wake, k2)
         | Some parent \<Rightarrow> wake_waiter_for_child parent pid (wake, k2))"

definition stop :: "'w KOps \<Rightarrow> Pid \<Rightarrow> nat \<Rightarrow> 'w Kern \<Rightarrow> WakeList option \<times> 'w Kern" where
  "stop ops pid signal k =
     (case get_proc k pid of
        None \<Rightarrow> (None, k)
      | Some p \<Rightarrow>
          if is_zombie p then (Some WakeList_new, k)
          else
            let k1 = upd_proc pid (\<lambda>p. p\<lparr>p_state := Stopped signal, p_exit_status := None,
                       p_stop_reported := False, p_continued_report_pending := False\<rparr>) k;
                k2 = (if k_current k1 = Some pid then clear_current ops k1 else k1);
                k3 = (case p_parent p of None \<Rightarrow> k2 | Some parent \<Rightarrow> queue_sigchld parent JobControl k2);
                (wake, k4) = wake_waiters_for pid k3
            in (Some wake, k4))"

definition continue_process :: "Pid \<Rightarrow> 'w Kern \<Rightarrow> WakeList option \<times> 'w Kern" where
  "continue_process pid k =
     (case get_proc k pid of
        None \<Rightarrow> (None, k)
      | Some p \<Rightarrow>
          if is_stopped p
          then
            let k1 = upd_proc pid (\<lambda>p. p\<lparr>p_state := Ready, p_stop_reported := False,
                       p_continued_report_pending := True\<rparr>) k;
                wake = push_unique pid WakeList_new
            in (case p_parent p of
                  None \<Rightarrow> (Some wake, k1)
                | Some parent \<Rightarrow>
                    let (wake', k2) = wake_waiter_for_child parent pid (wake, queue_sigchld parent JobControl k1)
                    in (Some wake', k2))
          else if is_zombie p then (None, k)
          else (Some WakeList_new, k))"

subsection \<open>Exit\<close>

definition exit_clear_tid ::
    "'w KOps \<Rightarrow> Process \<Rightarrow> bool \<Rightarrow> space option \<Rightarrow> 'w Kern \<Rightarrow> WakeList \<times> 'w Kern" where
  "exit_clear_tid ops p was_current cur_space k =
     (let tid = p_clear_child_tid p; sp = p_address_space p in
      if \<not> op_allows_user ops sp tid 4 UserWrite (k_world k) then (WakeList_new, k)
      else case call (op_ensure_writable ops sp tid 4) k of (ok, k1) \<Rightarrow>
        if \<not> ok then (WakeList_new, k1)
        else
          let k2 = (if was_current then k1 else on_world (op_space_activate ops sp) k1);
              private_key = clear_child_tid_wait_key tid (op_p4_phys ops sp (k_world k2));
              k3 = on_world (op_write_u32 ops tid 0) k2;
              k4 = (if was_current then k3
                    else case cur_space of None \<Rightarrow> k3 | Some c \<Rightarrow> on_world (op_space_activate ops c) k3);
              wake = push_timed_wait_key private_key USIZE_MAX WakeList_new;
              shared_key = clear_child_tid_wait_key tid 0
          in (if shared_key \<noteq> private_key then push_timed_wait_key shared_key USIZE_MAX wake else wake, k4))"

definition current_space :: "'w Kern \<Rightarrow> Pid \<Rightarrow> space option" where
  "current_space k pid =
     (if k_current k = Some pid then None
      else Option.bind (k_current k) (\<lambda>c. map_option p_address_space (get_proc k c)))"

definition exit_held :: "'w Kern \<Rightarrow> space list \<Rightarrow> Process \<Rightarrow> space list" where
  "exit_held k held p =
     p_address_space p # (case current_space k (p_pid p) of None \<Rightarrow> held | Some c \<Rightarrow> c # held)"

definition exit_detach ::
    "'w KOps \<Rightarrow> space list \<Rightarrow> Process \<Rightarrow> ExitReason \<Rightarrow> 'w Kern \<Rightarrow> WakeList \<times> 'w Kern" where
  "exit_detach ops held p reason k =
     (let pid = p_pid p; sp = p_address_space p;
          was_current = (k_current k = Some pid);
          cur_space = current_space k pid;
          k1 = upd_proc pid (\<lambda>p. p\<lparr>p_state := Zombie reason, p_exit_status := Some (legacy_status reason)\<rparr>) k;
          k2 = (if was_current then on_world (op_space_activate ops sp) k1 else k1);
          (wake, k3) = (if p_clear_child_tid p \<noteq> 0 then exit_clear_tid ops p was_current cur_space k2
                        else (WakeList_new, k2));
          last_address_space_owner = (strong_count k3 (exit_held k held p) sp = 1);
          k4 = flush_and_close_shared_mappings ops p k3;
          k5 = close_fd_entries ops (p_fds p) k4;
          k6 = close_socket_handle_list ops (p_socket_handles p) k5;
          k7 = (if last_address_space_owner then on_world (op_space_clear ops sp) k6 else k6);
          k8 = (if was_current then clear_current ops k7 else k7)
      in (wake, k8))"

definition exit_release ::
    "'w KOps \<Rightarrow> space list \<Rightarrow> Process \<Rightarrow> ExitReason \<Rightarrow> 'w Kern \<Rightarrow> WakeList \<times> 'w Kern" where
  "exit_release ops held p reason k =
     (let (wake, k1) = exit_detach ops held p reason k
      in (wake, upd_proc (p_pid p) (\<lambda>p. p\<lparr>p_clear_child_tid := 0, p_shared_mappings := [], p_fds := [],
                    p_socket_handles := [], p_waiters := []\<rparr>) k1))"

text \<open>The recursive calls of exit go through \<open>ex\<close>.\<close>

type_synonym 'w exit_fn = "space list \<Rightarrow> Pid \<Rightarrow> ExitReason \<Rightarrow> 'w Kern \<Rightarrow> (WakeList \<times> 'w Kern) option"

fun reserve_filter :: "'w KOps \<Rightarrow> (Process \<Rightarrow> bool) \<Rightarrow> Process list \<Rightarrow> 'w Kern \<Rightarrow> Pid list \<times> 'w Kern" where
  "reserve_filter ops P [] k = ([], k)"
| "reserve_filter ops P (p # ps) k =
     (if P p
      then let (ok, k1) = call (op_reserve ops 1) k; (pids, k2) = reserve_filter ops P ps k1
           in (if ok then p_pid p # pids else pids, k2)
      else reserve_filter ops P ps k)"

fun exit_each :: "'w exit_fn \<Rightarrow> space list \<Rightarrow> ExitReason \<Rightarrow> Pid list \<Rightarrow> WakeList \<Rightarrow> 'w Kern \<Rightarrow> (WakeList \<times> 'w Kern) option" where
  "exit_each ex held reason [] wake k = Some (wake, k)"
| "exit_each ex held reason (c # cs) wake k =
     (case get_proc k c of
        None \<Rightarrow> exit_each ex held reason cs wake k
      | Some p \<Rightarrow>
          if is_zombie p then exit_each ex held reason cs wake k
          else do { (w, k1) \<leftarrow> ex held c reason k; exit_each ex held reason cs (wl_extend wake w) k1 })"

definition reap_zombies :: "'w KOps \<Rightarrow> space list \<Rightarrow> Pid list \<Rightarrow> 'w Kern \<Rightarrow> 'w Kern" where
  "reap_zombies ops held pids k =
     fold (\<lambda>c k. case get_proc k c of
                   None \<Rightarrow> k | Some p \<Rightarrow> if is_zombie p then reap ops held c k else k) pids k"

definition exit_and_reap_same_space_children ::
    "'w KOps \<Rightarrow> 'w exit_fn \<Rightarrow> space list \<Rightarrow> Pid \<Rightarrow> space \<Rightarrow> ExitReason \<Rightarrow> WakeList \<Rightarrow> 'w Kern \<Rightarrow> (WakeList \<times> 'w Kern) option" where
  "exit_and_reap_same_space_children ops ex held parent sp reason wake k =
     (let (children, k1) = reserve_filter ops (\<lambda>p. p_parent p = Some parent \<and> p_address_space p = sp) (k_procs k) k
      in do { (wake1, k2) \<leftarrow> exit_each ex held reason children wake k1;
              Some (wake1, reap_zombies ops held children k2) })"

subsection \<open>Process groups and signals\<close>

definition process_group_is_orphaned :: "'w Kern \<Rightarrow> Pid \<Rightarrow> bool" where
  "process_group_is_orphaned k pgrp =
     list_all (\<lambda>p. case Option.bind (p_parent p) (get_proc k) of
                     None \<Rightarrow> True
                   | Some parent \<Rightarrow>
                       p_pid parent = INIT_PID \<or>
                       \<not> (p_sid parent = p_sid p \<and> p_pgrp parent \<noteq> p_pgrp p \<and> \<not> is_zombie parent))
       (filter (\<lambda>p. p_pgrp p = pgrp \<and> \<not> is_zombie p) (k_procs k))"

definition process_group_has_stopped_member :: "'w Kern \<Rightarrow> Pid \<Rightarrow> bool" where
  "process_group_has_stopped_member k pgrp = list_ex (\<lambda>p. p_pgrp p = pgrp \<and> is_stopped p) (k_procs k)"

fun reserve_all :: "'w KOps \<Rightarrow> Process list \<Rightarrow> 'w Kern \<Rightarrow> Pid list \<times> 'w Kern" where
  "reserve_all ops [] k = ([], k)"
| "reserve_all ops (p # ps) k =
     (let (ok, k1) = call (op_reserve ops 1) k in
      if \<not> ok then ([], k1)
      else let (pids, k2) = reserve_all ops ps k1 in (p_pid p # pids, k2))"

definition process_group_members :: "'w KOps \<Rightarrow> Pid \<Rightarrow> 'w Kern \<Rightarrow> Pid list \<times> 'w Kern" where
  "process_group_members ops pgrp k =
     reserve_all ops (filter (\<lambda>p. p_pgrp p = pgrp \<and> \<not> is_zombie p) (k_procs k)) k"

definition signal_gen ::
    "'w KOps \<Rightarrow> 'w exit_fn \<Rightarrow> space list \<Rightarrow> Pid \<Rightarrow> int \<Rightarrow> Pid option \<Rightarrow> 'w Kern \<Rightarrow> (WakeList option \<times> 'w Kern) option" where
  "signal_gen ops ex held pid status current k =
     (case get_proc k pid of
        None \<Rightarrow> Some (None, k)
      | Some p0 \<Rightarrow>
          let p = discard_pending_signal_interactions p0 status;
              k1 = upd_proc pid (\<lambda>p. discard_pending_signal_interactions p status) k
          in if is_ignored_signal p status then Some (Some WakeList_new, k1)
             else if should_queue_signal p status current
             then if next_deliverable_pending_signal (queue_signal p status) \<noteq> None \<and> is_blocked p
                  then Some (Some (push_unique pid WakeList_new),
                         upd_proc pid (\<lambda>p. (queue_signal p status)\<lparr>p_interrupted_syscall := True, p_state := Ready\<rparr>) k1)
                  else Some (Some WakeList_new, upd_proc pid (\<lambda>p. queue_signal p status) k1)
             else case stop_signal_from_status status of
                    Some s \<Rightarrow> Some (stop ops pid s k1)
                  | None \<Rightarrow>
                      (case signal_from_legacy_status status of
                         Some s \<Rightarrow> do { (w, k2) \<leftarrow> ex held pid (Signaled s) k1; Some (Some w, k2) }
                       | None \<Rightarrow> do { (w, k2) \<leftarrow> ex held pid (Exited status) k1; Some (Some w, k2) }))"

fun signal_each :: "'w KOps \<Rightarrow> 'w exit_fn \<Rightarrow> space list \<Rightarrow> Signal \<Rightarrow> Pid list \<Rightarrow> WakeList \<Rightarrow> 'w Kern \<Rightarrow> (WakeList \<times> 'w Kern) option" where
  "signal_each ops ex held sig [] wake k = Some (wake, k)"
| "signal_each ops ex held sig (pid # pids) wake k =
     (let (cont, k1) = (if sig = Cont then continue_process pid k else (None, k));
          wake1 = (case cont of None \<Rightarrow> wake | Some w \<Rightarrow> wl_extend wake w)
      in do { (r, k2) \<leftarrow> signal_gen ops ex held pid (default_status sig) (k_current k1) k1;
              signal_each ops ex held sig pids (case r of None \<Rightarrow> wake1 | Some w \<Rightarrow> wl_extend wake1 w) k2 })"

definition signal_process_group ::
    "'w KOps \<Rightarrow> 'w exit_fn \<Rightarrow> space list \<Rightarrow> Pid \<Rightarrow> Signal \<Rightarrow> WakeList \<Rightarrow> 'w Kern \<Rightarrow> (WakeList \<times> 'w Kern) option" where
  "signal_process_group ops ex held pgrp sig wake k =
     (let (members, k1) = process_group_members ops pgrp k in signal_each ops ex held sig members wake k1)"

fun notify_orphaned_stopped_groups ::
    "'w KOps \<Rightarrow> 'w exit_fn \<Rightarrow> space list \<Rightarrow> Pid list \<Rightarrow> WakeList \<Rightarrow> 'w Kern \<Rightarrow> (WakeList \<times> 'w Kern) option" where
  "notify_orphaned_stopped_groups ops ex held [] wake k = Some (wake, k)"
| "notify_orphaned_stopped_groups ops ex held (pgrp # rest) wake k =
     (if process_group_is_orphaned k pgrp \<and> process_group_has_stopped_member k pgrp
      then do { (wake1, k1) \<leftarrow> signal_process_group ops ex held pgrp Hup wake k;
                (wake2, k2) \<leftarrow> signal_process_group ops ex held pgrp Cont wake1 k1;
                notify_orphaned_stopped_groups ops ex held rest wake2 k2 }
      else notify_orphaned_stopped_groups ops ex held rest wake k)"

fun reparent_loop ::
    "'w KOps \<Rightarrow> Pid \<Rightarrow> bool \<Rightarrow> usize list \<Rightarrow> Pid list \<Rightarrow> WakeList \<Rightarrow> 'w Kern \<Rightarrow> Pid list \<times> WakeList \<times> 'w Kern" where
  "reparent_loop ops old_parent init_exists [] candidates wake k = (candidates, wake, k)"
| "reparent_loop ops old_parent init_exists (i # is) candidates wake k =
     (let p = k_procs k ! i in
      if p_parent p \<noteq> Some old_parent
      then reparent_loop ops old_parent init_exists is candidates wake k
      else
        let (candidates1, k1) =
              (if p_pgrp p \<in> set candidates then (candidates, k)
               else let (ok, k1) = call (op_reserve ops 1) k
                    in (if ok then candidates @ [p_pgrp p] else candidates, k1));
            k2 = k1\<lparr>k_procs := (k_procs k1)[i := p\<lparr>p_parent := (if init_exists then Some INIT_PID else None)\<rparr>]\<rparr>;
            (wake1, k3) = (if init_exists \<and> (is_zombie p \<or> is_stopped p)
                           then wake_waiter_for_child INIT_PID (p_pid p) (wake, k2) else (wake, k2))
        in reparent_loop ops old_parent init_exists is candidates1 wake1 k3)"

definition reparent_children_to_init ::
    "'w KOps \<Rightarrow> 'w exit_fn \<Rightarrow> space list \<Rightarrow> Pid \<Rightarrow> WakeList \<Rightarrow> 'w Kern \<Rightarrow> (WakeList \<times> 'w Kern) option" where
  "reparent_children_to_init ops ex held old_parent wake k =
     (if old_parent = INIT_PID then Some (wake, k)
      else
        let init_exists = (get_proc k INIT_PID \<noteq> None);
            (candidates, wake1, k1) = reparent_loop ops old_parent init_exists [0..<length (k_procs k)] [] wake k
        in notify_orphaned_stopped_groups ops ex held candidates wake1 k1)"

definition exit_notify :: "Pid \<Rightarrow> Pid list \<Rightarrow> Pid option \<Rightarrow> WakeList \<Rightarrow> 'w Kern \<Rightarrow> WakeList \<times> 'w Kern" where
  "exit_notify pid waiters parent_pid wake k =
     (let (wake1, k1) = fold (\<lambda>w. wake_waiter_for_child w pid) waiters (wake, k)
      in case parent_pid of
           None \<Rightarrow> (wake1, k1)
         | Some parent \<Rightarrow> wake_waiter_for_child parent pid (wake1, queue_sigchld parent ChldExited k1))"

definition exit_body :: "'w KOps \<Rightarrow> 'w exit_fn \<Rightarrow> 'w exit_fn" where
  "exit_body ops ex held pid reason k =
     (case get_proc k pid of
        None \<Rightarrow> Some (WakeList_new, k)
      | Some p \<Rightarrow>
          let held' = exit_held k held p;
              (wake, k1) = exit_release ops held p reason k
          in do {
            (wake2, k2) \<leftarrow> exit_and_reap_same_space_children ops ex held' pid (p_address_space p) reason wake k1;
            (wake3, k3) \<leftarrow> reparent_children_to_init ops ex held' pid wake2 k2;
            Some (exit_notify pid (p_waiters p) (p_parent p) wake3 k3)
          })"

primrec exit_with_reason :: "nat \<Rightarrow> 'w KOps \<Rightarrow> 'w exit_fn" where
  "exit_with_reason 0 ops = (\<lambda>held pid reason k. None)"
| "exit_with_reason (Suc n) ops = exit_body ops (exit_with_reason n ops)"

text \<open>
  The recursion budget: live processes plus processes whose parent is neither
  absent nor init.
\<close>

definition table_weight :: "Process list \<Rightarrow> nat" where
  "table_weight ps =
     length (filter (\<lambda>p. \<not> is_zombie p) ps) +
     length (filter (\<lambda>p. p_parent p \<noteq> None \<and> p_parent p \<noteq> Some INIT_PID) ps)"

definition exit_fuel :: "'w Kern \<Rightarrow> nat" where
  "exit_fuel k = 2 * table_weight (k_procs k) + 2"

definition exit_process :: "'w KOps \<Rightarrow> space list \<Rightarrow> Pid \<Rightarrow> ExitReason \<Rightarrow> 'w Kern \<Rightarrow> WakeList \<times> 'w Kern" where
  "exit_process ops held pid reason k =
     (case exit_with_reason (exit_fuel k) ops held pid reason k of
        Some r \<Rightarrow> r | None \<Rightarrow> (WakeList_new, k))"

definition signal :: "'w KOps \<Rightarrow> Pid \<Rightarrow> int \<Rightarrow> Pid option \<Rightarrow> 'w Kern \<Rightarrow> WakeList option \<times> 'w Kern" where
  "signal ops pid status current k =
     (case signal_gen ops (\<lambda>held pid reason k. Some (exit_process ops held pid reason k)) [] pid status current k of
        Some r \<Rightarrow> r | None \<Rightarrow> (None, k))"

subsection \<open>Thread groups and waiting\<close>

fun exit_members :: "'w KOps \<Rightarrow> space list \<Rightarrow> int \<Rightarrow> Pid list \<Rightarrow> WakeList \<Rightarrow> 'w Kern \<Rightarrow> WakeList \<times> 'w Kern" where
  "exit_members ops held status [] wake k = (wake, k)"
| "exit_members ops held status (m # ms) wake k =
     (let (w, k1) = exit_process ops held m (Exited status) k
      in exit_members ops held status ms (wl_extend wake w) k1)"

definition exit_group :: "'w KOps \<Rightarrow> Pid \<Rightarrow> int \<Rightarrow> 'w Kern \<Rightarrow> WakeList \<times> 'w Kern" where
  "exit_group ops pid status k =
     (case get_proc k pid of
        None \<Rightarrow> (WakeList_new, k)
      | Some p \<Rightarrow>
          let sp = p_address_space p;
              (members, k1) = reserve_filter ops (\<lambda>q. p_address_space q = sp \<and> \<not> is_zombie q) (k_procs k) k;
              (internal_members, k2) =
                reserve_filter ops (\<lambda>q. p_pid q \<in> set members \<and>
                    (case p_parent q of None \<Rightarrow> False | Some r \<Rightarrow> r \<in> set members)) (k_procs k1) k1;
              sorted = sort members;
              ordered = (case position (\<lambda>m. m = pid) sorted of
                           None \<Rightarrow> sorted | Some i \<Rightarrow> remove_at i sorted @ [pid]);
              (wake, k3) = exit_members ops [sp] status ordered WakeList_new k2
          in (wake, reap_zombies ops [sp] internal_members k3))"

definition wait :: "'w KOps \<Rightarrow> Pid \<Rightarrow> Pid \<Rightarrow> 'w Kern \<Rightarrow> int option \<times> 'w Kern" where
  "wait ops parent child k =
     (case get_proc k child of
        None \<Rightarrow> (None, k)
      | Some p \<Rightarrow>
          if p_parent p \<noteq> Some parent then (None, k)
          else case p_state p of
                 Zombie reason \<Rightarrow> (Some (legacy_status reason), reap ops [] child k)
               | _ \<Rightarrow> (None, upd_proc parent (\<lambda>p. p\<lparr>p_state := Blocked (WaitChild child)\<rparr>) k))"

section \<open>How table operations change the table\<close>

text \<open>
  Every operation of the exit and signal paths moves each process along
  \<open>evolves\<close> and may drop processes.  Identity, group, session, address space and
  credentials are fixed; a zombie stays a zombie; a parent is kept or replaced by
  init (or nobody); descriptors are kept or all closed; and a process never has
  both \<open>SIGCONT\<close> and a stop signal pending unless it already had.
\<close>

definition job_signals_exclusive :: "Process \<Rightarrow> bool" where
  "job_signals_exclusive p \<longleftrightarrow>
     \<not> (bit (p_pending_signals p) (number Cont) \<and>
        (bit (p_pending_signals p) (number Stop) \<or> bit (p_pending_signals p) (number Tstp) \<or>
         bit (p_pending_signals p) (number Ttin) \<or> bit (p_pending_signals p) (number Ttou)))"

definition parent_evolves :: "Pid option \<Rightarrow> Pid option \<Rightarrow> bool" where
  "parent_evolves a b \<longleftrightarrow>
     b = a \<or> a \<noteq> None \<and> a \<noteq> Some INIT_PID \<and> (b = None \<or> b = Some INIT_PID)"

definition evolves :: "Process \<Rightarrow> Process \<Rightarrow> bool" where
  "evolves p q \<longleftrightarrow>
     p_pid q = p_pid p \<and> p_pgrp q = p_pgrp p \<and> p_sid q = p_sid p \<and>
     p_address_space q = p_address_space p \<and> p_credentials q = p_credentials p \<and>
     (is_zombie p \<longrightarrow> is_zombie q) \<and> parent_evolves (p_parent p) (p_parent q) \<and>
     (p_fds q = p_fds p \<or> p_fds q = []) \<and>
     (job_signals_exclusive p \<longrightarrow> job_signals_exclusive q)"

inductive table_evolves :: "Process list \<Rightarrow> Process list \<Rightarrow> bool" where
  te_Nil: "table_evolves [] []"
| te_keep: "evolves p q \<Longrightarrow> table_evolves ps qs \<Longrightarrow> table_evolves (p # ps) (q # qs)"
| te_drop: "table_evolves ps qs \<Longrightarrow> table_evolves (p # ps) qs"

inductive_cases te_NilE: "table_evolves [] qs"
inductive_cases te_ConsE: "table_evolves (p # ps) qs"

definition evo :: "'w Kern \<Rightarrow> 'w Kern \<Rightarrow> bool" where
  "evo k k' \<longleftrightarrow> table_evolves (k_procs k) (k_procs k') \<and> k_next_pid k' = k_next_pid k \<and>
     (k_current k' = k_current k \<or> k_current k' = None)"

definition weight_of :: "Process \<Rightarrow> nat" where
  "weight_of p = (if is_zombie p then 0 else 1) +
     (if p_parent p \<noteq> None \<and> p_parent p \<noteq> Some INIT_PID then 1 else 0)"

subsection \<open>Single processes\<close>

lemma parent_evolves_refl [simp]: "parent_evolves a a"
  by (simp add: parent_evolves_def)

lemma parent_evolves_trans: "parent_evolves a b \<Longrightarrow> parent_evolves b c \<Longrightarrow> parent_evolves a c"
  by (auto simp: parent_evolves_def)

lemma evolves_refl [simp]: "evolves p p"
  by (simp add: evolves_def)

lemma evolves_trans: "evolves p q \<Longrightarrow> evolves q r \<Longrightarrow> evolves p r"
  by (auto simp: evolves_def intro: parent_evolves_trans)

lemma evolves_weight:
  assumes "evolves p q"
  shows "weight_of q \<le> weight_of p"
proof -
  have "is_zombie p \<longrightarrow> is_zombie q" and "parent_evolves (p_parent p) (p_parent q)"
    using assms by (simp_all add: evolves_def)
  then show ?thesis
    by (cases "p_parent p"; cases "p_parent q") (auto simp: weight_of_def parent_evolves_def)
qed

lemma evolvesI:
  assumes "p_pid q = p_pid p" "p_pgrp q = p_pgrp p" "p_sid q = p_sid p"
    "p_address_space q = p_address_space p" "p_credentials q = p_credentials p" "p_parent q = p_parent p"
    "is_zombie p \<Longrightarrow> is_zombie q" "p_fds q = p_fds p \<or> p_fds q = []"
    "job_signals_exclusive p \<Longrightarrow> job_signals_exclusive q"
  shows "evolves p q"
  using assms by (simp add: evolves_def)

lemma job_signals_exclusive_cong:
  "p_pending_signals q = p_pending_signals p \<Longrightarrow> job_signals_exclusive q = job_signals_exclusive p"
  by (simp add: job_signals_exclusive_def)

lemma is_zombie_cong: "p_state q = p_state p \<Longrightarrow> is_zombie q = is_zombie p"
  by (simp add: is_zombie_def)

text \<open>\<open>same_core\<close>: only bookkeeping the relation does not look at has changed.\<close>

definition same_core :: "Process \<Rightarrow> Process \<Rightarrow> bool" where
  "same_core p q \<longleftrightarrow>
     p_pid q = p_pid p \<and> p_pgrp q = p_pgrp p \<and> p_sid q = p_sid p \<and> p_address_space q = p_address_space p \<and>
     p_credentials q = p_credentials p \<and> p_parent q = p_parent p \<and> p_fds q = p_fds p \<and> p_state q = p_state p"

lemma same_core_clear_pending: "same_core p (clear_pending_signal p n)"
  by (simp add: same_core_def clear_pending_signal_def Let_def)

lemma same_core_trans: "same_core p q \<Longrightarrow> same_core q r \<Longrightarrow> same_core p r"
  by (simp add: same_core_def)

lemma same_core_discard: "same_core p (discard_pending_signal_interactions p st)"
proof -
  have refl: "same_core p p" by (simp add: same_core_def)
  note c = same_core_clear_pending
  show ?thesis
    unfolding discard_pending_signal_interactions_def
    using refl c [of p] same_core_trans [OF same_core_trans [OF same_core_trans [OF c c] c] c, of p]
    by (simp split: option.split)
qed

lemma same_core_queue: "same_core p (queue_signal p st)"
  by (simp add: same_core_def queue_signal_def Let_def)

lemma same_coreD:
  assumes "same_core p q"
  shows "p_pid q = p_pid p" "p_pgrp q = p_pgrp p" "p_sid q = p_sid p" "p_address_space q = p_address_space p"
    "p_credentials q = p_credentials p" "p_parent q = p_parent p" "p_fds q = p_fds p" "p_state q = p_state p"
  using assms by (simp_all add: same_core_def)

lemma same_core_evolves:
  assumes "same_core p q" and "job_signals_exclusive p \<Longrightarrow> job_signals_exclusive q"
  shows "evolves p q"
  using same_coreD [OF assms(1)] assms(2) by (intro evolvesI) (simp_all add: is_zombie_def)

lemma number_less_64 [simp]: "number s < 64"
  using number_bounds(2) [of s] by simp

lemma default_status_inject [simp]: "default_status s = default_status t \<longleftrightarrow> s = t"
  by (simp add: default_status_def)

lemma bit_discard:
  assumes "n < 64"
  shows "bit (p_pending_signals (discard_pending_signal_interactions p st)) n \<longleftrightarrow>
    bit (p_pending_signals p) n \<and>
    \<not> (st = default_status Cont \<and> n \<in> {number Stop, number Tstp, number Ttin, number Ttou}) \<and>
    \<not> (st \<in> {default_status Stop, default_status Tstp, default_status Ttin, default_status Ttou} \<and> n = number Cont)"
proof (cases "Option.bind (signal_from_legacy_status st) from_number")
  case None
  then have "st \<noteq> default_status s" for s by auto
  moreover have "discard_pending_signal_interactions p st = p"
    using None by (auto simp: discard_pending_signal_interactions_def split: option.splits)
  ultimately show ?thesis by simp
next
  case (Some s)
  then have st: "st = default_status s"
    by (auto simp: bind_eq_Some_conv signal_from_legacy_status_Some from_number_eq_Some default_status_def)
  have eq: "discard_pending_signal_interactions p (default_status s) =
    (if s = Cont then clear_pending_signal (clear_pending_signal (clear_pending_signal
       (clear_pending_signal p (number Stop)) (number Tstp)) (number Ttin)) (number Ttou)
     else if has_stop_default s then clear_pending_signal p (number Cont) else p)"
    by (simp add: discard_pending_signal_interactions_def)
  show ?thesis
    using assms unfolding st eq by (cases s) (auto simp: bit_clear_pending_signal)
qed

lemma exclusive_discard_queue:
  assumes "job_signals_exclusive p"
  shows "job_signals_exclusive (discard_pending_signal_interactions p st)"
    and "job_signals_exclusive (queue_signal (discard_pending_signal_interactions p st) st)"
  using assms
  by (auto simp: job_signals_exclusive_def bit_discard bit_queue_signal default_status_def)

lemma evolves_discard: "evolves p (discard_pending_signal_interactions p st)"
  by (intro same_core_evolves same_core_discard exclusive_discard_queue)

lemma evolves_discard_queue:
  "evolves p (queue_signal (discard_pending_signal_interactions p st) st)"
  by (intro same_core_evolves same_core_trans [OF same_core_discard same_core_queue] exclusive_discard_queue)

lemma evolves_queue_child: "evolves p (queue_signal p (default_status Child))"
  by (intro same_core_evolves same_core_queue)
    (auto simp: job_signals_exclusive_def bit_queue_signal default_status_def)

lemma evolves_state:
  assumes "is_zombie p \<Longrightarrow> is_zombie q" and "q = p\<lparr>p_state := s\<rparr>"
  shows "evolves p q"
  using assms by (intro evolvesI) (simp_all add: job_signals_exclusive_def)

subsection \<open>Tables\<close>

lemma table_evolves_refl [simp]: "table_evolves ps ps"
  by (induction ps) (auto intro: table_evolves.intros)

lemma table_evolves_trans: "table_evolves ps qs \<Longrightarrow> table_evolves qs rs \<Longrightarrow> table_evolves ps rs"
proof (induction arbitrary: rs rule: table_evolves.induct)
  case (te_keep p q ps qs)
  from te_keep.prems show ?case
    by (rule te_ConsE) (auto intro: table_evolves.intros te_keep evolves_trans)
qed (auto intro: table_evolves.intros)

lemma table_evolves_update:
  "i < length ps \<Longrightarrow> evolves (ps ! i) q \<Longrightarrow> table_evolves ps (ps[i := q])"
  by (induction ps arbitrary: i) (auto simp: nth_Cons split: nat.splits intro: table_evolves.intros)

lemma table_evolves_remove: "i < length ps \<Longrightarrow> table_evolves ps (remove_at i ps)"
  by (induction ps arbitrary: i)
    (auto simp: remove_at_def take_Cons drop_Cons split: nat.splits intro: table_evolves.intros)

lemma table_evolves_mem: "table_evolves ps qs \<Longrightarrow> q \<in> set qs \<Longrightarrow> \<exists>p\<in>set ps. evolves p q"
  by (induction rule: table_evolves.induct) auto

lemma table_evolves_pids: "table_evolves ps qs \<Longrightarrow> subseq (map p_pid qs) (map p_pid ps)"
  by (induction rule: table_evolves.induct) (auto simp: evolves_def)

lemma table_weight_sum: "table_weight ps = sum_list (map weight_of ps)"
  by (induction ps) (auto simp: table_weight_def weight_of_def)

lemma table_evolves_weight: "table_evolves ps qs \<Longrightarrow> table_weight qs \<le> table_weight ps"
proof (induction rule: table_evolves.induct)
  case (te_keep p q ps qs)
  then show ?case using evolves_weight [of p q] by (simp add: table_weight_sum)
qed (simp_all add: table_weight_sum)

lemma table_weight_update_less:
  "i < length ps \<Longrightarrow> weight_of q < weight_of (ps ! i) \<Longrightarrow> table_weight (ps[i := q]) < table_weight ps"
  by (induction ps arbitrary: i) (auto simp: table_weight_sum nth_Cons split: nat.splits)

subsection \<open>World-only operations\<close>

definition same_table :: "'w Kern \<Rightarrow> 'w Kern \<Rightarrow> bool" where
  "same_table k k' \<longleftrightarrow> k_procs k' = k_procs k \<and> k_next_pid k' = k_next_pid k \<and> k_current k' = k_current k"

lemma same_table_refl [simp]: "same_table k k"
  by (simp add: same_table_def)

lemma same_table_trans: "same_table k k' \<Longrightarrow> same_table k' k'' \<Longrightarrow> same_table k k''"
  by (simp add: same_table_def)

lemma same_table_ignore [simp]: "same_table k (ignore f k)"
  by (simp add: same_table_def)

lemma same_table_on_world [simp]: "same_table k (on_world f k)"
  by (simp add: same_table_def)

lemma same_table_call [simp]: "same_table k (snd (call f k))"
  by (simp add: same_table_def)

lemma same_table_callD: "call f k = (r, k') \<Longrightarrow> same_table k k'"
  using same_table_call [of k f] by simp

lemma same_table_fold: "(\<And>x k. same_table k (f x k)) \<Longrightarrow> same_table k (fold f xs k)"
  by (induction xs arbitrary: k) (auto intro: same_table_trans)

lemma same_table_get: "same_table k k' \<Longrightarrow> get_proc k' = get_proc k"
  by (rule get_proc_cong) (simp add: same_table_def)

lemma same_table_close_fds [simp]: "same_table k (close_fd_entries ops es k)"
  by (simp add: close_fd_entries_def same_table_fold)

lemma same_table_close_sockets [simp]: "same_table k (close_socket_handle_list ops hs k)"
  by (simp add: close_socket_handle_list_def same_table_fold)

lemma same_table_flush_write: "same_table k (snd (flush_write ops fd data n k))"
proof (induction ops fd data n k rule: flush_write.induct)
  case (1 ops fd data n k)
  show ?case
  proof (cases "n < length data")
    case True
    obtain r k1 where c: "call (op_fs_write ops fd (drop n data)) k = (r, k1)" by fastforce
    note st = same_table_callD [OF c]
    show ?thesis
    proof (cases r)
      case (Inr m)
      with 1 [OF True c [unfolded Inr, symmetric]] c True st show ?thesis
        by (subst flush_write.simps) (auto intro: same_table_trans)
    qed (use c True st in \<open>subst flush_write.simps, simp\<close>)
  qed (subst flush_write.simps, simp)
qed

lemma same_table_flush_range: "same_table k (snd (flush_shared_mapping_range ops p m a e k))"
  by (auto simp: flush_shared_mapping_range_def Let_def split: prod.split sum.split
      intro: same_table_trans [OF same_table_callD same_table_flush_write] dest: same_table_callD)

lemma same_table_flush_close [simp]: "same_table k (flush_and_close_shared_mappings ops p k)"
proof -
  have close: "same_table k (fold (\<lambda>m. ignore (op_fs_close ops (sm_vfs_fd m))) ms k)" for ms and k :: "'a Kern"
    by (intro same_table_fold) simp
  have flush: "same_table k (fold (\<lambda>m k. case checked_add (sm_addr m) (sm_len m) of
      None \<Rightarrow> k | Some e \<Rightarrow> snd (flush_shared_mapping_range ops p m (sm_addr m) e k)) ms k)" for ms and k :: "'a Kern"
    by (intro same_table_fold) (simp add: same_table_flush_range split: option.split)
  show ?thesis
    unfolding flush_and_close_shared_mappings_def Let_def
    by (cases "k_current k = Some (p_pid p)") (simp_all add: close same_table_trans [OF flush close])
qed

lemma same_table_destroy [simp]: "same_table k (destroy ops held p k)"
proof -
  have "same_table k (close_socket_handle_list ops (p_socket_handles p)
      (close_fd_entries ops (p_fds p) (flush_and_close_shared_mappings ops p k)))"
    by (intro same_table_trans [OF same_table_trans [OF same_table_flush_close same_table_close_fds] same_table_close_sockets])
  then show ?thesis
    unfolding destroy_def Let_def by (simp add: same_table_trans [OF _ same_table_on_world])
qed

lemma same_table_clear_tid: "same_table k (snd (exit_clear_tid ops p wc cs k))"
proof -
  obtain ok k1 where c: "call (op_ensure_writable ops (p_address_space p) (p_clear_child_tid p) 4) k = (ok, k1)"
    by fastforce
  show ?thesis
    using callD [OF c] by (simp add: same_table_def exit_clear_tid_def Let_def c split: option.split)
qed

lemma same_table_procs:
  "k_procs (close_socket_handle_list ops hs k) = k_procs k" "k_procs (close_fd_entries ops es k) = k_procs k"
  "k_procs (flush_and_close_shared_mappings ops p k) = k_procs k"
  "k_procs (snd (exit_clear_tid ops p wc cs k)) = k_procs k"
  using same_table_close_sockets [of k ops hs] same_table_close_fds [of k ops es] same_table_flush_close [of k ops p]
    same_table_clear_tid [of k ops p wc cs]
  by (simp_all add: same_table_def)

lemma reserve_filter_props:
  "same_table k (snd (reserve_filter ops P ps k)) \<and>
   set (fst (reserve_filter ops P ps k)) \<subseteq> p_pid ` {p \<in> set ps. P p}"
proof (induction ps arbitrary: k)
  case (Cons p ps)
  let ?k1 = "snd (call (op_reserve ops 1) k)"
  have "same_table k (snd (reserve_filter ops P ps ?k1))"
    by (rule same_table_trans [OF same_table_call conjunct1 [OF Cons.IH]])
  then show ?case
    using Cons.IH [of k] Cons.IH [of ?k1] by (auto simp: Let_def case_prod_beta)
qed simp

lemma reserve_filterD: "reserve_filter ops P ps k = (pids, k') \<Longrightarrow> same_table k k'"
  using conjunct1 [OF reserve_filter_props, of k ops P ps] by simp

lemma same_table_reserve_all: "same_table k (snd (reserve_all ops ps k))"
proof (induction ps arbitrary: k)
  case (Cons p ps)
  have "same_table k (snd (reserve_all ops ps (snd (call (op_reserve ops 1) k))))"
    by (rule same_table_trans [OF same_table_call Cons.IH])
  then show ?case by (simp add: Let_def case_prod_beta)
qed simp

lemma same_table_group_members: "same_table k (snd (process_group_members ops g k))"
  by (simp add: process_group_members_def same_table_reserve_all)

subsection \<open>The relation on kernel states\<close>

lemma evo_refl [simp]: "evo k k"
  by (simp add: evo_def)

lemma evo_trans: "evo k k' \<Longrightarrow> evo k' k'' \<Longrightarrow> evo k k''"
  by (auto simp: evo_def intro: table_evolves_trans)

lemma same_table_evo: "same_table k k' \<Longrightarrow> evo k k'"
  by (simp add: evo_def same_table_def)

lemma evo_clear_current [simp]: "evo k (clear_current ops k)"
  by (simp add: evo_def)

lemma evo_upd:
  assumes "\<And>p. get_proc k pid = Some p \<Longrightarrow> evolves p (f p)"
  shows "evo k (upd_proc pid f k)"
proof (cases "position (\<lambda>p. p_pid p = pid) (k_procs k)")
  case None
  then show ?thesis by (simp add: evo_def upd_proc_def update_first_position)
next
  case (Some i)
  then have "get_proc k pid = Some (k_procs k ! i)" by (simp add: get_proc_def position_find)
  with Some assms position_Some [OF Some] show ?thesis
    by (simp add: evo_def upd_proc_def update_first_position table_evolves_update)
qed

lemma evo_reap: "evo k (reap ops held pid k)"
proof (cases "position (\<lambda>p. p_pid p = pid) (k_procs k)")
  case (Some i)
  let ?k = "k\<lparr>k_procs := remove_at i (k_procs k)\<rparr>"
  have "evo k ?k" using position_Some [OF Some] by (simp add: evo_def table_evolves_remove)
  then show ?thesis
    using Some same_table_evo [OF same_table_destroy, of ?k ops held "k_procs k ! i"]
    by (simp add: reap_def evo_trans)
qed (simp add: reap_def)

lemma evo_reap_zombies: "evo k (reap_zombies ops held pids k)"
proof -
  have "evo k (fold (\<lambda>c k. case get_proc k c of None \<Rightarrow> k
      | Some p \<Rightarrow> if is_zombie p then reap ops held c k else k) pids k)"
  proof (induction pids arbitrary: k)
    case (Cons c cs)
    show ?case
      using Cons.IH [of k] evo_trans [OF evo_reap [of k ops held c] Cons.IH [of "reap ops held c k"]]
      by (simp split: option.split)
  qed simp
  then show ?thesis by (simp add: reap_zombies_def)
qed

lemma evolves_wake: "is_blocked p \<Longrightarrow> evolves p (p\<lparr>p_state := Ready\<rparr>)"
  by (rule evolves_state) (auto simp: is_zombie_def is_blocked_def split: ProcessState.splits)

lemma evo_wake_waiter: "evo k (snd (wake_waiter_for_child w c (wake, k)))"
proof (cases "get_proc k w")
  case (Some p)
  have "is_blocked p \<Longrightarrow> evo k (upd_proc w (\<lambda>p. p\<lparr>p_state := Ready\<rparr>) k)"
    using Some by (intro evo_upd) (simp add: evolves_wake)
  with Some show ?thesis
    by (auto simp: wake_waiter_for_child_def is_blocked_def split: ProcessState.split BlockReason.split)
qed (simp add: wake_waiter_for_child_def)

lemma evo_wake_waiterD: "wake_waiter_for_child w c (wake, k) = (wake', k') \<Longrightarrow> evo k k'"
  by (metis evo_wake_waiter snd_conv)

lemma evo_fold_wake: "evo k (snd (fold (\<lambda>w. wake_waiter_for_child w c) ws (wake, k)))"
proof (induction ws arbitrary: wake k)
  case (Cons w ws)
  obtain wake1 k1 where w1: "wake_waiter_for_child w c (wake, k) = (wake1, k1)" by fastforce
  show ?case using evo_trans [OF evo_wake_waiterD [OF w1] Cons.IH [of k1 wake1]] w1 by simp
qed simp

lemma evo_fold_wakeD: "fold (\<lambda>w. wake_waiter_for_child w c) ws (wake, k) = (wake', k') \<Longrightarrow> evo k k'"
  by (metis evo_fold_wake snd_conv)

lemma evo_queue_sigchld: "evo k (queue_sigchld parent ev k)"
  using evo_upd [of k parent "\<lambda>p. queue_signal p (default_status Child)", OF evolves_queue_child]
  by (simp add: queue_sigchld_def Let_def split: option.split)

lemma evo_wake_waiters_for: "evo k (snd (wake_waiters_for pid k))"
proof -
  let ?k1 = "upd_proc pid (\<lambda>p. p\<lparr>p_waiters := []\<rparr>) k"
  let ?ws = "case get_proc k pid of None \<Rightarrow> [] | Some p \<Rightarrow> p_waiters p"
  have k1: "evo k ?k1" by (intro evo_upd evolvesI) (simp_all add: is_zombie_def job_signals_exclusive_def)
  obtain wake k2 where f: "fold (\<lambda>w. wake_waiter_for_child w pid) ?ws (WakeList_new, ?k1) = (wake, k2)"
    by fastforce
  have k2: "evo k k2" using evo_trans [OF k1 evo_fold_wakeD [OF f]] .
  then show ?thesis
    using evo_trans [OF k2 evo_wake_waiter] by (simp add: wake_waiters_for_def Let_def f split: option.split)
qed

lemma evo_stop: "evo k (snd (stop ops pid sig k))"
proof (cases "get_proc k pid")
  case (Some p)
  let ?f = "\<lambda>p. p\<lparr>p_state := Stopped sig, p_exit_status := None, p_stop_reported := False,
    p_continued_report_pending := False\<rparr>"
  have "evo k (snd (wake_waiters_for pid k3))" if "evo k k3" for k3
    using evo_trans [OF that evo_wake_waiters_for] .
  moreover have "evo k (queue_sigchld q ev k2)" if "evo k k2" for k2 q ev
    using evo_trans [OF that evo_queue_sigchld] .
  moreover have "evo k (upd_proc pid ?f k)" if "\<not> is_zombie p"
    using that Some by (intro evo_upd evolvesI) (simp_all add: job_signals_exclusive_def)
  moreover have "evo k (clear_current ops k1)" if "evo k k1" for k1
    using evo_trans [OF that evo_clear_current] .
  ultimately show ?thesis
    using Some by (simp add: stop_def Let_def case_prod_beta split: option.split)
qed (simp add: stop_def)

lemma evo_continue: "evo k (snd (continue_process pid k))"
proof (cases "get_proc k pid")
  case (Some p)
  let ?k1 = "upd_proc pid (\<lambda>p. p\<lparr>p_state := Ready, p_stop_reported := False, p_continued_report_pending := True\<rparr>) k"
  have k1: "evo k ?k1" if "is_stopped p"
    using that Some
    by (intro evo_upd evolvesI)
      (auto simp: job_signals_exclusive_def is_zombie_def is_stopped_def split: ProcessState.splits)
  have "evo k (snd (wake_waiter_for_child q pid (w, queue_sigchld q JobControl ?k1)))" if "is_stopped p" for q w
    using evo_trans [OF evo_trans [OF k1 [OF that] evo_queue_sigchld] evo_wake_waiter] .
  with k1 Some show ?thesis
    by (simp add: continue_process_def Let_def case_prod_beta split: option.split)
qed (simp add: continue_process_def)

lemma evo_exit_release:
  fixes k :: "'w Kern"
  assumes p: "get_proc k (p_pid p) = Some p"
  shows "evo (upd_proc (p_pid p) (\<lambda>p. p\<lparr>p_state := Zombie reason, p_exit_status := Some (legacy_status reason)\<rparr>) k)
           (snd (exit_release ops held p reason k))"
proof -
  let ?k1 = "upd_proc (p_pid p) (\<lambda>p. p\<lparr>p_state := Zombie reason, p_exit_status := Some (legacy_status reason)\<rparr>) k"
  have w: "evo ?k1 (on_world f k')" if "evo ?k1 k'" for f and k' :: "'w Kern"
    using evo_trans [OF that same_table_evo [OF same_table_on_world]] .
  have t: "evo ?k1 (snd (exit_clear_tid ops p wc cs k'))" if "evo ?k1 k'" for wc cs and k' :: "'w Kern"
    using evo_trans [OF that same_table_evo [OF same_table_clear_tid]] .
  have c: "evo ?k1 (close_socket_handle_list ops hs (close_fd_entries ops es (flush_and_close_shared_mappings ops p k')))"
    if "evo ?k1 k'" for hs es and k' :: "'w Kern"
    using that by (meson evo_trans same_table_evo same_table_close_sockets same_table_close_fds same_table_flush_close)
  have cc: "evo ?k1 (clear_current ops k')" if "evo ?k1 k'" for k' :: "'w Kern"
    using evo_trans [OF that evo_clear_current] .
  have u: "evo ?k1 (upd_proc (p_pid p) (\<lambda>p. p\<lparr>p_clear_child_tid := 0, p_shared_mappings := [], p_fds := [],
      p_socket_handles := [], p_waiters := []\<rparr>) k')" if "evo ?k1 k'" for k' :: "'w Kern"
    by (intro evo_trans [OF that] evo_upd evolvesI) (simp_all add: is_zombie_def job_signals_exclusive_def)
  show ?thesis
    by (auto simp: exit_release_def exit_detach_def Let_def case_prod_beta intro!: u cc w c t)
qed

lemma evo_zombify: "evo k (upd_proc pid (\<lambda>p. p\<lparr>p_state := Zombie reason, p_exit_status := Some st\<rparr>) k)"
  by (intro evo_upd evolvesI) (simp_all add: is_zombie_def job_signals_exclusive_def)

definition weight :: "'w Kern \<Rightarrow> nat" where
  "weight k = table_weight (k_procs k)"

lemma evo_weight: "evo k k' \<Longrightarrow> weight k' \<le> weight k"
  by (simp add: evo_def weight_def table_evolves_weight)

lemma weight_upd_less:
  assumes "get_proc k pid = Some p" and "weight_of (f p) < weight_of p"
  shows "weight (upd_proc pid f k) < weight k"
proof -
  obtain i where i: "position (\<lambda>p. p_pid p = pid) (k_procs k) = Some i"
    using assms(1) by (auto simp: get_proc_def position_find)
  with assms position_Some [OF i] show ?thesis
    by (simp add: weight_def upd_proc_def update_first_position get_proc_def position_find table_weight_update_less)
qed

lemma weight_exit_release:
  assumes p: "get_proc k (p_pid p) = Some p"
  shows "weight (snd (exit_release ops held p reason k)) \<le> weight k"
    and "\<not> is_zombie p \<Longrightarrow> weight (snd (exit_release ops held p reason k)) < weight k"
proof -
  let ?f = "\<lambda>p. p\<lparr>p_state := Zombie reason, p_exit_status := Some (legacy_status reason)\<rparr>"
  note le = evo_weight [OF evo_exit_release [OF p]]
  show "weight (snd (exit_release ops held p reason k)) \<le> weight k"
    using le evo_weight [OF evo_zombify] by (rule order_trans)
  assume "\<not> is_zombie p"
  then have "weight_of (?f p) < weight_of p" by (simp add: weight_of_def is_zombie_def)
  from le weight_upd_less [OF p, of ?f, OF this]
  show "weight (snd (exit_release ops held p reason k)) < weight k" by (rule order_le_less_trans)
qed

subsection \<open>The recursive part of exit\<close>

definition ex_evo :: "'w exit_fn \<Rightarrow> bool" where
  "ex_evo ex \<longleftrightarrow> (\<forall>held pid r k w k'. ex held pid r k = Some (w, k') \<longrightarrow> evo k k')"

definition ex_total :: "nat \<Rightarrow> 'w exit_fn \<Rightarrow> bool" where
  "ex_total n ex \<longleftrightarrow> (\<forall>held pid r k. weight k < n \<longrightarrow> ex held pid r k \<noteq> None)"

definition ex_total_live :: "nat \<Rightarrow> 'w exit_fn \<Rightarrow> bool" where
  "ex_total_live n ex \<longleftrightarrow>
     (\<forall>held pid r k p. weight k < n \<longrightarrow> get_proc k pid = Some p \<longrightarrow> \<not> is_zombie p \<longrightarrow> ex held pid r k \<noteq> None)"

definition ex_le :: "'w exit_fn \<Rightarrow> 'w exit_fn \<Rightarrow> bool" where
  "ex_le ex ex' \<longleftrightarrow> (\<forall>held pid r k x. ex held pid r k = Some x \<longrightarrow> ex' held pid r k = Some x)"

lemma ex_evoD: "ex_evo ex \<Longrightarrow> ex held pid r k = Some (w, k') \<Longrightarrow> evo k k'"
  by (auto simp: ex_evo_def)

lemma ex_leD: "ex_le ex ex' \<Longrightarrow> ex held pid r k = Some x \<Longrightarrow> ex' held pid r k = Some x"
  unfolding ex_le_def by blast

lemma ex_total_imp_live: "ex_total n ex \<Longrightarrow> ex_total_live n ex"
  by (auto simp: ex_total_def ex_total_live_def)

lemma exit_each_evo:
  assumes ex: "ex_evo ex"
  shows "exit_each ex held r cs wake k = Some (w, k') \<Longrightarrow> evo k k'"
proof (induction cs arbitrary: wake k)
  case (Cons c cs)
  from Cons.prems show ?case
    using Cons.IH
    by (auto split: option.splits if_splits prod.splits simp: bind_eq_Some_conv
        intro: evo_trans [OF ex_evoD [OF ex]])
qed simp

lemma exit_each_total:
  assumes ex: "ex_evo ex" "ex_total_live n ex"
  shows "weight k < n \<Longrightarrow> exit_each ex held r cs wake k \<noteq> None"
proof (induction cs arbitrary: wake k)
  case (Cons c cs)
  show ?case
  proof (cases "get_proc k c")
    case (Some p)
    show ?thesis
    proof (cases "is_zombie p")
      case False
      then obtain w k1 where e: "ex held c r k = Some (w, k1)"
        using ex(2) Cons.prems Some unfolding ex_total_live_def by fastforce
      then have "weight k1 < n" using Cons.prems evo_weight [OF ex_evoD [OF ex(1) e]] by simp
      from Cons.IH [OF this] show ?thesis using Some False e by simp
    qed (use Some Cons in simp)
  qed (use Cons in simp)
qed simp

lemma exit_each_mono:
  assumes "ex_le ex ex'"
  shows "exit_each ex held r cs wake k = Some x \<Longrightarrow> exit_each ex' held r cs wake k = Some x"
proof (induction cs arbitrary: wake k)
  case (Cons c cs)
  from Cons.prems show ?case
    using Cons.IH ex_leD [OF assms]
    by (auto split: option.splits if_splits prod.splits simp: bind_eq_Some_conv)
qed simp

lemma children_evo:
  assumes "ex_evo ex" and "exit_and_reap_same_space_children ops ex held q sp r wake k = Some (w, k')"
  shows "evo k k'"
proof -
  obtain cs k1 where c: "reserve_filter ops (\<lambda>p. p_parent p = Some q \<and> p_address_space p = sp) (k_procs k) k = (cs, k1)"
    by fastforce
  from assms(2) obtain wake1 k2 where e: "exit_each ex held r cs wake k1 = Some (wake1, k2)"
    and k': "k' = reap_zombies ops held cs k2"
    by (auto simp: exit_and_reap_same_space_children_def c bind_eq_Some_conv)
  have "evo k k1" using same_table_evo [OF reserve_filterD [OF c]] .
  then show ?thesis
    unfolding k' using exit_each_evo [OF assms(1) e] evo_reap_zombies evo_trans by blast
qed

lemma children_total:
  assumes "ex_evo ex" "ex_total_live n ex" and "weight k < n"
  shows "exit_and_reap_same_space_children ops ex held q sp r wake k \<noteq> None"
proof -
  obtain cs k1 where c: "reserve_filter ops (\<lambda>p. p_parent p = Some q \<and> p_address_space p = sp) (k_procs k) k = (cs, k1)"
    by fastforce
  have "evo k k1" using same_table_evo [OF reserve_filterD [OF c]] .
  from evo_weight [OF this] assms(3) have "weight k1 < n" by simp
  from exit_each_total [OF assms(1,2) this, of held r cs wake] show ?thesis
    by (auto simp: exit_and_reap_same_space_children_def c)
qed

lemma children_mono:
  assumes "ex_le ex ex'"
    and "exit_and_reap_same_space_children ops ex held q sp r wake k = Some x"
  shows "exit_and_reap_same_space_children ops ex' held q sp r wake k = Some x"
  using assms(2) exit_each_mono [OF assms(1)]
  by (auto simp: exit_and_reap_same_space_children_def bind_eq_Some_conv split: prod.splits)

lemma evo_discard_upd: "evo k (upd_proc pid (\<lambda>p. discard_pending_signal_interactions p st) k)"
  by (intro evo_upd evolves_discard)

lemma evo_queue_upd:
  assumes f: "f = (\<lambda>p. queue_signal p st) \<or>
      (f = (\<lambda>p. (queue_signal p st)\<lparr>p_interrupted_syscall := True, p_state := Ready\<rparr>) \<and> \<not> is_zombie p)"
    and p: "get_proc k pid = Some p"
  shows "evo k (upd_proc pid f (upd_proc pid (\<lambda>p. discard_pending_signal_interactions p st) k))"
proof -
  let ?d = "\<lambda>p. discard_pending_signal_interactions p st"
  have pid: "p_pid (?d q) = p_pid q" for q by (rule same_coreD(1) [OF same_core_discard])
  have eq: "upd_proc pid f (upd_proc pid ?d k) = upd_proc pid (f \<circ> ?d) k"
    by (simp add: upd_proc_def update_first_comp pid)
  have q: "evolves p (queue_signal (?d p) st)" by (rule evolves_discard_queue)
  have "evolves p ((f \<circ> ?d) p)"
  proof (cases "f = (\<lambda>p. queue_signal p st)")
    case False
    with f have f': "f = (\<lambda>p. (queue_signal p st)\<lparr>p_interrupted_syscall := True, p_state := Ready\<rparr>)" "\<not> is_zombie p"
      by auto
    show ?thesis
      using q f'(2) unfolding f'(1) comp_def evolves_def
      by (simp add: job_signals_exclusive_def)
  qed (use q in simp)
  with p show ?thesis unfolding eq by (intro evo_upd) simp
qed

lemma signal_gen_evo:
  assumes ex: "ex_evo ex" and s: "signal_gen ops ex held pid st cur k = Some (w, k')"
  shows "evo k k'"
proof (cases "get_proc k pid")
  case None
  with s show ?thesis by (simp add: signal_gen_def)
next
  case (Some p)
  let ?p = "discard_pending_signal_interactions p st"
  let ?k1 = "upd_proc pid (\<lambda>p. discard_pending_signal_interactions p st) k"
  have b: "\<not> is_zombie p" if "is_blocked ?p"
    using that same_coreD(8) [OF same_core_discard, of p st]
    by (auto simp: is_blocked_def is_zombie_def split: ProcessState.splits)
  note k1 = evo_discard_upd [of k pid st]
  have exit: "evo k k''" if "ex held pid r ?k1 = Some (w', k'')" for r w' k''
    using evo_trans [OF k1 ex_evoD [OF ex that]] .
  have "k' = ?k1 \<or> k' = upd_proc pid (\<lambda>p. queue_signal p st) ?k1 \<or>
    (is_blocked ?p \<and> k' = upd_proc pid (\<lambda>p. (queue_signal p st)\<lparr>p_interrupted_syscall := True, p_state := Ready\<rparr>) ?k1) \<or>
    (\<exists>sig. k' = snd (stop ops pid sig ?k1)) \<or> (\<exists>r w'. ex held pid r ?k1 = Some (w', k'))"
    using s Some
    by (auto simp: signal_gen_def Let_def bind_eq_Some_conv split: if_splits option.splits) (metis snd_conv)+
  then show ?thesis
    using k1 exit evo_trans [OF k1 evo_stop] evo_queue_upd [of _ st p k pid] Some b by blast
qed

lemma signal_gen_total:
  assumes "ex_total n ex" and "weight k < n"
  shows "signal_gen ops ex held pid st cur k \<noteq> None"
proof -
  have "weight (upd_proc pid (\<lambda>p. discard_pending_signal_interactions p st) k) < n"
    using evo_weight [OF evo_discard_upd [of k pid st]] assms(2) by simp
  then have "ex held pid r (upd_proc pid (\<lambda>p. discard_pending_signal_interactions p st) k) \<noteq> None" for r
    using assms(1) by (simp add: ex_total_def)
  then show ?thesis
    by (auto simp: signal_gen_def Let_def bind_eq_None_conv simp del: not_None_eq split: option.split prod.split)
qed

lemma signal_gen_mono:
  assumes "ex_le ex ex'" and "signal_gen ops ex held pid st cur k = Some x"
  shows "signal_gen ops ex' held pid st cur k = Some x"
  using assms(2) ex_leD [OF assms(1)]
  by (auto simp: signal_gen_def Let_def bind_eq_Some_conv split: option.splits if_splits)

lemma signal_each_evo:
  assumes ex: "ex_evo ex"
  shows "signal_each ops ex held sig pids wake k = Some (w, k') \<Longrightarrow> evo k k'"
proof (induction pids arbitrary: wake k)
  case (Cons pid pids)
  obtain c k1 where c: "(if sig = Cont then continue_process pid k else (None, k)) = (c, k1)" by fastforce
  then have k1: "evo k k1" using evo_continue [of k pid] by (auto split: if_splits)
  from Cons.prems c obtain r k2 wake' where s: "signal_gen ops ex held pid (default_status sig) (k_current k1) k1 = Some (r, k2)"
    and rest: "signal_each ops ex held sig pids wake' k2 = Some (w, k')"
    by (auto simp: bind_eq_Some_conv Let_def)
  show ?case
    using evo_trans [OF k1 evo_trans [OF signal_gen_evo [OF ex s] Cons.IH [OF rest]]] .
qed simp

lemma signal_each_total:
  assumes ex: "ex_evo ex" "ex_total n ex"
  shows "weight k < n \<Longrightarrow> signal_each ops ex held sig pids wake k \<noteq> None"
proof (induction pids arbitrary: wake k)
  case (Cons pid pids)
  obtain c k1 where c: "(if sig = Cont then continue_process pid k else (None, k)) = (c, k1)" by fastforce
  then have "evo k k1" using evo_continue [of k pid] by (auto split: if_splits)
  from evo_weight [OF this] Cons.prems have w1: "weight k1 < n" by simp
  obtain r k2 where s: "signal_gen ops ex held pid (default_status sig) (k_current k1) k1 = Some (r, k2)"
    using signal_gen_total [OF ex(2) w1] by fastforce
  from evo_weight [OF signal_gen_evo [OF ex(1) s]] w1 have "weight k2 < n" by simp
  from Cons.IH [OF this] show ?case by (simp add: c s Let_def)
qed simp

lemma signal_each_mono:
  assumes "ex_le ex ex'"
  shows "signal_each ops ex held sig pids wake k = Some x \<Longrightarrow> signal_each ops ex' held sig pids wake k = Some x"
proof (induction pids arbitrary: wake k)
  case (Cons pid pids)
  obtain c k1 where c: "(if sig = Cont then continue_process pid k else (None, k)) = (c, k1)" by fastforce
  from Cons.prems c obtain r k2 wake' where
      s: "signal_gen ops ex held pid (default_status sig) (k_current k1) k1 = Some (r, k2)"
    by (auto simp: bind_eq_Some_conv Let_def)
  then show ?case
    using Cons signal_gen_mono [OF assms s] by (simp add: c Let_def)
qed simp

lemma group_evo:
  assumes "ex_evo ex" and "signal_process_group ops ex held g sig wake k = Some (w, k')"
  shows "evo k k'"
proof -
  obtain ms k1 where m: "process_group_members ops g k = (ms, k1)" by fastforce
  then have "evo k k1" using same_table_evo [OF same_table_group_members, of k ops g] by simp
  moreover have "evo k1 k'"
    using signal_each_evo [OF assms(1)] assms(2) by (simp add: signal_process_group_def m)
  ultimately show ?thesis by (rule evo_trans)
qed

lemma group_total:
  assumes "ex_evo ex" "ex_total n ex" "weight k < n"
  shows "signal_process_group ops ex held g sig wake k \<noteq> None"
proof -
  obtain ms k1 where m: "process_group_members ops g k = (ms, k1)" by fastforce
  then have "evo k k1" using same_table_evo [OF same_table_group_members, of k ops g] by simp
  from evo_weight [OF this] assms(3) have "weight k1 < n" by simp
  from signal_each_total [OF assms(1,2) this] show ?thesis by (simp add: signal_process_group_def m)
qed

lemma notify_evo:
  assumes ex: "ex_evo ex"
  shows "notify_orphaned_stopped_groups ops ex held gs wake k = Some (w, k') \<Longrightarrow> evo k k'"
proof (induction gs arbitrary: wake k)
  case (Cons g gs)
  from Cons.prems show ?case
    using Cons.IH
    by (auto split: if_splits prod.splits simp: bind_eq_Some_conv
        intro: evo_trans [OF group_evo [OF ex] evo_trans [OF group_evo [OF ex]]])
qed simp

lemma notify_total:
  assumes ex: "ex_evo ex" "ex_total n ex"
  shows "weight k < n \<Longrightarrow> notify_orphaned_stopped_groups ops ex held gs wake k \<noteq> None"
proof (induction gs arbitrary: wake k)
  case (Cons g gs)
  obtain w1 k1 where g1: "signal_process_group ops ex held g Hup wake k = Some (w1, k1)"
    using group_total [OF ex Cons.prems] by fastforce
  then have k1: "weight k1 < n" using evo_weight [OF group_evo [OF ex(1) g1]] Cons.prems by simp
  obtain w2 k2 where g2: "signal_process_group ops ex held g Cont w1 k1 = Some (w2, k2)"
    using group_total [OF ex k1] by fastforce
  then have "weight k2 < n" using evo_weight [OF group_evo [OF ex(1) g2]] k1 by simp
  from Cons.IH [OF this] Cons.IH [OF Cons.prems] show ?case by (simp add: g1 g2)
qed simp

lemma notify_mono:
  assumes "ex_le ex ex'"
  shows "notify_orphaned_stopped_groups ops ex held gs wake k = Some x \<Longrightarrow>
    notify_orphaned_stopped_groups ops ex' held gs wake k = Some x"
proof (induction gs arbitrary: wake k)
  case (Cons g gs)
  have m: "signal_process_group ops ex held g sig wake k = Some y \<Longrightarrow>
      signal_process_group ops ex' held g sig wake k = Some y" for sig wake k y
    using signal_each_mono [OF assms] by (simp add: signal_process_group_def split: prod.splits)
  from Cons.prems show ?case
    using Cons.IH m by (auto split: if_splits prod.splits simp: bind_eq_Some_conv)
qed simp

subsection \<open>Reparenting\<close>

lemma wake_waiter_parents:
  "map p_parent (k_procs (snd (wake_waiter_for_child w c (wake, k)))) = map p_parent (k_procs k)"
  by (auto simp: wake_waiter_for_child_def upd_proc_def map_update_first
      split: option.split ProcessState.split BlockReason.split)

lemma wake_waiter_length: "length (k_procs (snd (wake_waiter_for_child w c (wake, k)))) = length (k_procs k)"
  using wake_waiter_parents [of w c wake k] by (metis length_map)

lemma reparent_loop_props:
  assumes old: "old \<noteq> INIT_PID"
  shows "\<forall>i\<in>set js. i < length (k_procs k) \<Longrightarrow> reparent_loop ops old ie js cands wake k = (cands', wake', k') \<Longrightarrow>
    evo k k' \<and> (cands' \<noteq> cands \<longrightarrow> weight k' < weight k) \<and> length (k_procs k') = length (k_procs k) \<and>
    (\<forall>i < length (k_procs k). p_parent (k_procs k' ! i) = Some old \<longrightarrow> i \<notin> set js \<and> p_parent (k_procs k ! i) = Some old)"
proof (induction js arbitrary: cands wake k)
  case (Cons i js)
  let ?p = "k_procs k ! i"
  show ?case
  proof (cases "p_parent ?p = Some old")
    case False
    with Cons.prems have "reparent_loop ops old ie js cands wake k = (cands', wake', k')" by (simp add: Let_def)
    from Cons.IH [OF _ this] Cons.prems(1) False show ?thesis by auto
  next
    case True
    obtain c1 k1 where c1: "(if p_pgrp ?p \<in> set cands then (cands, k)
        else let (ok, k1) = call (op_reserve ops 1) k in (if ok then cands @ [p_pgrp ?p] else cands, k1)) = (c1, k1)"
      by fastforce
    then have t1: "same_table k k1"
      by (auto split: if_splits prod.splits dest: same_table_callD)
    let ?q = "?p\<lparr>p_parent := (if ie then Some INIT_PID else None)\<rparr>"
    let ?k2 = "k1\<lparr>k_procs := (k_procs k1)[i := ?q]\<rparr>"
    obtain w3 k3 where w3: "(if ie \<and> (is_zombie ?p \<or> is_stopped ?p)
        then wake_waiter_for_child INIT_PID (p_pid ?p) (wake, ?k2) else (wake, ?k2)) = (w3, k3)" by fastforce
    have i: "i < length (k_procs k)" using Cons.prems(1) by simp
    have procs1: "k_procs k1 = k_procs k" using t1 by (simp add: same_table_def)
    have q: "evolves ?p ?q"
      using True old
      by (auto simp: evolves_def parent_evolves_def is_zombie_def job_signals_exclusive_def)
    have k2: "evo k ?k2"
      using t1 table_evolves_update [OF i q] by (simp add: evo_def same_table_def)
    have "weight_of ?q < weight_of ?p"
      using True old by (simp add: weight_of_def is_zombie_def)
    then have less: "weight ?k2 < weight k"
      using table_weight_update_less [OF i] by (simp add: weight_def procs1)
    have k23: "evo ?k2 k3" "map p_parent (k_procs k3) = map p_parent (k_procs ?k2)"
      using w3 evo_wake_waiter [of ?k2 INIT_PID "p_pid ?p" wake] wake_waiter_parents [of INIT_PID "p_pid ?p" wake ?k2]
      by (auto split: if_splits)
    have len: "length (k_procs k3) = length (k_procs k)"
      using k23(2) by (metis length_list_update length_map procs1 Kern.simps(1) Kern.ext_inject Kern.surjective Kern.update_convs(1))
    have par: "p_parent (k_procs k3 ! j) = (if j = i then p_parent ?q else p_parent (k_procs k ! j))"
      if "j < length (k_procs k)" for j
      using arg_cong [OF k23(2), of "\<lambda>xs. xs ! j"] that len by (simp add: procs1 nth_list_update)
    from Cons.prems(2) True c1 w3
    have rest: "reparent_loop ops old ie js c1 w3 k3 = (cands', wake', k')" by (simp add: Let_def)
    have bnd: "\<forall>j\<in>set js. j < length (k_procs k3)" using Cons.prems(1) len by simp
    note IH = Cons.IH [OF bnd rest]
    have "evo k k'" using evo_trans [OF k2 evo_trans [OF k23(1)]] IH by blast
    moreover have "weight k' < weight k"
      using evo_weight [OF k23(1)] less IH evo_weight [of k3 k'] by linarith
    ultimately show ?thesis using IH len par old by (auto split: if_splits)
  qed
qed auto

lemma no_child_evo:
  assumes "evo k k'" and "old \<noteq> INIT_PID" and "list_all (\<lambda>p. p_parent p \<noteq> Some old) (k_procs k)"
  shows "list_all (\<lambda>p. p_parent p \<noteq> Some old) (k_procs k')"
  unfolding list_all_iff
proof
  fix q assume "q \<in> set (k_procs k')"
  then obtain p where "p \<in> set (k_procs k)" "evolves p q"
    using assms(1) table_evolves_mem unfolding evo_def by blast
  then have "p_parent p \<noteq> Some old" "parent_evolves (p_parent p) (p_parent q)"
    using assms(3) by (auto simp: list_all_iff evolves_def)
  then show "p_parent q \<noteq> Some old" using assms(2) by (auto simp: parent_evolves_def)
qed

lemma reparent_props:
  assumes ex: "ex_evo ex" and r: "reparent_children_to_init ops ex held old wake k = Some (w, k')"
  shows "evo k k'" and "old \<noteq> INIT_PID \<Longrightarrow> list_all (\<lambda>p. p_parent p \<noteq> Some old) (k_procs k')"
proof -
  have "evo k k' \<and> (old \<noteq> INIT_PID \<longrightarrow> list_all (\<lambda>p. p_parent p \<noteq> Some old) (k_procs k'))"
  proof (cases "old = INIT_PID")
    case True
    with r show ?thesis by (simp add: reparent_children_to_init_def)
  next
    case False
    obtain cs w1 k1 where l: "reparent_loop ops old (get_proc k INIT_PID \<noteq> None) [0..<length (k_procs k)] [] wake k = (cs, w1, k1)"
      by (metis prod_cases3)
    have "evo k k1" and none: "list_all (\<lambda>p. p_parent p \<noteq> Some old) (k_procs k1)"
      using reparent_loop_props [OF False _ l] by (auto simp: list_all_length)
    moreover have n: "evo k1 k'"
      using r False l notify_evo [OF ex] by (simp add: reparent_children_to_init_def)
    ultimately show ?thesis using evo_trans no_child_evo [OF n False none] by blast
  qed
  then show "evo k k'" and "old \<noteq> INIT_PID \<Longrightarrow> list_all (\<lambda>p. p_parent p \<noteq> Some old) (k_procs k')" by blast+
qed

lemma reparent_total:
  assumes ex: "ex_evo ex" "ex_total (weight k) ex"
  shows "reparent_children_to_init ops ex held old wake k \<noteq> None"
proof (cases "old = INIT_PID")
  case True
  then show ?thesis by (simp add: reparent_children_to_init_def)
next
  case False
  obtain cs w1 k1 where l: "reparent_loop ops old (get_proc k INIT_PID \<noteq> None) [0..<length (k_procs k)] [] wake k = (cs, w1, k1)"
    by (metis prod_cases3)
  have "cs \<noteq> [] \<Longrightarrow> weight k1 < weight k" using reparent_loop_props [OF False _ l] by simp
  then have "notify_orphaned_stopped_groups ops ex held cs w1 k1 \<noteq> None"
    using notify_total [OF ex] by (cases "cs = []") auto
  with False l show ?thesis by (simp add: reparent_children_to_init_def)
qed

lemma reparent_mono:
  assumes "ex_le ex ex'" and "reparent_children_to_init ops ex held old wake k = Some x"
  shows "reparent_children_to_init ops ex' held old wake k = Some x"
  using assms(2) notify_mono [OF assms(1)]
  by (simp add: reparent_children_to_init_def Let_def split: if_splits prod.splits)

lemma get_proc_pid: "get_proc k pid = Some p \<Longrightarrow> p_pid p = pid"
  using find_key_SomeD [of p_pid pid] by (fastforce simp: get_proc_def)

lemma exit_notify_evo: "evo k (snd (exit_notify pid ws q wake k))"
proof -
  obtain wake4 k4 where f: "fold (\<lambda>w. wake_waiter_for_child w pid) ws (wake, k) = (wake4, k4)" by fastforce
  show ?thesis
    using evo_fold_wakeD [OF f] evo_trans [OF evo_trans [OF evo_fold_wakeD [OF f] evo_queue_sigchld] evo_wake_waiter]
    by (simp add: exit_notify_def f split: option.split)
qed

lemma exit_bodyE:
  assumes "exit_body ops ex held pid r k = Some x" and "get_proc k pid = Some p"
  obtains wake k1 wake2 k2 wake3 k3 where
    "exit_release ops held p r k = (wake, k1)"
    "exit_and_reap_same_space_children ops ex (exit_held k held p) pid (p_address_space p) r wake k1 = Some (wake2, k2)"
    "reparent_children_to_init ops ex (exit_held k held p) pid wake2 k2 = Some (wake3, k3)"
    "x = exit_notify pid (p_waiters p) (p_parent p) wake3 k3"
  using assms by (auto simp: exit_body_def bind_eq_Some_conv Let_def split: prod.splits)

lemma exit_body_evo:
  assumes "ex_evo ex" and "exit_body ops ex held pid r k = Some (w, k')"
  shows "evo k k'"
proof (cases "get_proc k pid")
  case None
  with assms(2) show ?thesis by (simp add: exit_body_def)
next
  case (Some p)
  from exit_bodyE [OF assms(2) Some] obtain wake k1 wake2 k2 wake3 k3 where
    e: "exit_release ops held p r k = (wake, k1)"
    "exit_and_reap_same_space_children ops ex (exit_held k held p) pid (p_address_space p) r wake k1 = Some (wake2, k2)"
    "reparent_children_to_init ops ex (exit_held k held p) pid wake2 k2 = Some (wake3, k3)"
    "(w, k') = exit_notify pid (p_waiters p) (p_parent p) wake3 k3" .
  have "evo k3 k'" using exit_notify_evo e(4) by (metis snd_conv)
  moreover  have "evo k k1"
    using evo_trans [OF evo_zombify evo_exit_release, of k p] get_proc_pid [OF Some] Some e(1) by (metis snd_conv)
  ultimately show ?thesis
    using children_evo [OF assms(1) e(2)] reparent_props(1) [OF assms(1) e(3)] evo_trans by blast
qed

lemma exit_with_reason_evo: "ex_evo (exit_with_reason n ops)"
proof (induction n)
  case (Suc n)
  then show ?case using exit_body_evo unfolding ex_evo_def [of "exit_with_reason (Suc n) ops"] by fastforce
qed (simp add: ex_evo_def)

lemma exit_body_total:
  assumes ex: "ex_evo ex" "ex_total (weight k) ex"
    and live: "ex_total_live (Suc (weight k)) ex \<or> (\<exists>p. get_proc k pid = Some p \<and> \<not> is_zombie p)"
  shows "exit_body ops ex held pid r k \<noteq> None"
proof (cases "get_proc k pid")
  case None
  then show ?thesis by (simp add: exit_body_def)
next
  case (Some p)
  obtain wake k1 where rel: "exit_release ops held p r k = (wake, k1)" by fastforce
  have p: "get_proc k (p_pid p) = Some p" using Some get_proc_pid [OF Some] by simp
  note w = weight_exit_release [OF p, of ops held r, unfolded rel snd_conv]
  have "ex_total_live (if is_zombie p then Suc (weight k) else weight k) ex"
    using live Some ex_total_imp_live [OF ex(2)] by auto
  from children_total [OF ex(1) this] w obtain wake2 k2 where
    c: "exit_and_reap_same_space_children ops ex (exit_held k held p) pid (p_address_space p) r wake k1 = Some (wake2, k2)"
    by (metis less_Suc_eq_le not_None_eq surj_pair)
  have "weight k2 \<le> weight k" using evo_weight [OF children_evo [OF ex(1) c]] w(1) by simp
  then have "ex_total (weight k2) ex" using ex(2) by (auto simp: ex_total_def)
  from reparent_total [OF ex(1) this] obtain wake3 k3 where
    "reparent_children_to_init ops ex (exit_held k held p) pid wake2 k2 = Some (wake3, k3)" by fastforce
  with Some rel c show ?thesis by (simp add: exit_body_def Let_def split: option.split prod.split)
qed

lemma exit_body_mono:
  assumes "ex_le ex ex'" and "exit_body ops ex held pid r k = Some x"
  shows "exit_body ops ex' held pid r k = Some x"
proof (cases "get_proc k pid")
  case None
  with assms(2) show ?thesis by (simp add: exit_body_def)
next
  case (Some p)
  from exit_bodyE [OF assms(2) Some] obtain wake k1 wake2 k2 wake3 k3 where
    e: "exit_release ops held p r k = (wake, k1)"
    "exit_and_reap_same_space_children ops ex (exit_held k held p) pid (p_address_space p) r wake k1 = Some (wake2, k2)"
    "reparent_children_to_init ops ex (exit_held k held p) pid wake2 k2 = Some (wake3, k3)"
    "x = exit_notify pid (p_waiters p) (p_parent p) wake3 k3" .
  show ?thesis
    using Some e(1,4) children_mono [OF assms(1) e(2)] reparent_mono [OF assms(1) e(3)]
    by (simp add: exit_body_def)
qed

lemma exit_with_reason_total:
  "(2 * weight k + 2 \<le> n \<or>
    2 * weight k + 1 \<le> n \<and> (\<exists>p. get_proc k pid = Some p \<and> \<not> is_zombie p)) \<Longrightarrow>
   exit_with_reason n ops held pid r k \<noteq> None"
proof (induction n arbitrary: held pid r k)
  case (Suc n)
  have n: "2 * weight k \<le> n" using Suc.prems by linarith
  have tot: "ex_total (weight k) (exit_with_reason n ops)"
    unfolding ex_total_def
  proof (intro allI impI)
    fix held pid r k' assume "weight (k' :: 'a Kern) < weight k"
    then have "2 * weight k' + 2 \<le> n" using n by linarith
    then show "exit_with_reason n ops held pid r k' \<noteq> None" using Suc.IH by blast
  qed
  have "ex_total_live (Suc (weight k)) (exit_with_reason n ops)" if w: "2 * weight k + 2 \<le> Suc n"
    unfolding ex_total_live_def
  proof (intro allI impI)
    fix held pid r k' p
    assume "weight (k' :: 'a Kern) < Suc (weight k)" and p: "get_proc k' pid = Some p" "\<not> is_zombie p"
    then have "2 * weight k' + 1 \<le> n" using w by linarith
    then show "exit_with_reason n ops held pid r k' \<noteq> None" using Suc.IH p by blast
  qed
  then have "ex_total_live (Suc (weight k)) (exit_with_reason n ops) \<or> (\<exists>p. get_proc k pid = Some p \<and> \<not> is_zombie p)"
    using Suc.prems by blast
  from exit_body_total [OF exit_with_reason_evo tot this] show ?case by simp
qed simp

lemma exit_with_reason_mono: "ex_le (exit_with_reason n ops) (exit_with_reason (n + m) ops)"
proof (induction n)
  case (Suc n)
  then show ?case using exit_body_mono [OF Suc] by (simp add: ex_le_def)
qed (simp add: ex_le_def)

lemma exit_process_eq: "exit_with_reason (exit_fuel k) ops held pid r k = Some (exit_process ops held pid r k)"
  using exit_with_reason_total [of k "exit_fuel k" pid ops held r]
  by (auto simp: exit_process_def exit_fuel_def weight_def)

lemma exit_process_any_fuel:
  assumes "exit_with_reason n ops held pid r k = Some x"
  shows "exit_process ops held pid r k = x"
proof -
  have "exit_with_reason (n + exit_fuel k) ops held pid r k = Some x"
    using assms ex_leD [OF exit_with_reason_mono] by blast
  moreover have "exit_with_reason (exit_fuel k + n) ops held pid r k = Some (exit_process ops held pid r k)"
    using exit_process_eq ex_leD [OF exit_with_reason_mono] by blast
  ultimately show ?thesis by (simp add: add.commute)
qed

lemma exit_process_evo: "evo k (snd (exit_process ops held pid r k))"
  using ex_evoD [OF exit_with_reason_evo] exit_process_eq [of k ops held pid r]
  by (cases "exit_process ops held pid r k") auto

lemma exit_process_unfold:
  "exit_body ops (\<lambda>held pid reason k. Some (exit_process ops held pid reason k)) held pid r k =
     Some (exit_process ops held pid r k)"
proof -
  obtain n where n: "exit_fuel k = Suc n" by (simp add: exit_fuel_def)
  have "ex_le (exit_with_reason n ops) (\<lambda>held pid reason k. Some (exit_process ops held pid reason k))"
    unfolding ex_le_def using exit_process_any_fuel by fastforce
  moreover have "exit_body ops (exit_with_reason n ops) held pid r k = Some (exit_process ops held pid r k)"
    using exit_process_eq [of k ops held pid r] n by simp
  ultimately show ?thesis by (rule exit_body_mono)
qed

lemma exit_fn_evo: "ex_evo (\<lambda>held pid reason k. Some (exit_process ops held pid reason k))"
  unfolding ex_evo_def using exit_process_evo by (metis option.inject snd_conv)

lemma signal_evo: "evo k (snd (signal ops pid st cur k))"
proof -
  have "ex_total (Suc (weight k)) (\<lambda>held pid reason k. Some (exit_process ops held pid reason k))"
    by (simp add: ex_total_def)
  from signal_gen_total [OF this, of k] obtain w k' where
    "signal_gen ops (\<lambda>held pid reason k. Some (exit_process ops held pid reason k)) [] pid st cur k = Some (w, k')"
    by fastforce
  with signal_gen_evo [OF exit_fn_evo this] show ?thesis by (simp add: signal_def)
qed

lemma exit_members_evo: "evo k (snd (exit_members ops held st ms wake k))"
proof (induction ms arbitrary: wake k)
  case (Cons m ms)
  show ?case
    using evo_trans [OF exit_process_evo Cons.IH]
    by (simp add: Let_def case_prod_beta)
qed simp

lemma exit_group_evo: "evo k (snd (exit_group ops pid st k))"
proof (cases "get_proc k pid")
  case (Some p)
  let ?sp = "p_address_space p"
  obtain ms k1 where a: "reserve_filter ops (\<lambda>q. p_address_space q = ?sp \<and> \<not> is_zombie q) (k_procs k) k = (ms, k1)"
    by fastforce
  obtain im k2 where b: "reserve_filter ops (\<lambda>q. p_pid q \<in> set ms \<and>
      (case p_parent q of None \<Rightarrow> False | Some r \<Rightarrow> r \<in> set ms)) (k_procs k1) k1 = (im, k2)"
    by fastforce
  have "evo k k2"
    using same_table_evo [OF same_table_trans [OF reserve_filterD [OF a] reserve_filterD [OF b]]] .
  let ?ord = "case position (\<lambda>m. m = pid) (sort ms) of None \<Rightarrow> sort ms | Some i \<Rightarrow> remove_at i (sort ms) @ [pid]"
  obtain wake k3 where c: "exit_members ops [?sp] st ?ord WakeList_new k2 = (wake, k3)" by fastforce
  have "evo k2 k3" using exit_members_evo c by (metis snd_conv)
  then have "evo k (reap_zombies ops [?sp] im k3)" using \<open>evo k k2\<close> evo_trans evo_reap_zombies by blast
  then show ?thesis using Some by (simp add: exit_group_def a b c Let_def)
qed (simp add: exit_group_def)

lemma exit_process_no_child:
  assumes "get_proc k pid = Some p" and "pid \<noteq> INIT_PID"
  shows "list_all (\<lambda>q. p_parent q \<noteq> Some pid) (k_procs (snd (exit_process ops held pid r k)))"
proof -
  from exit_bodyE [OF exit_process_unfold [of ops held pid r k] assms(1)] obtain wake2 k2 wake3 k3 where
    e: "reparent_children_to_init ops (\<lambda>held pid reason k. Some (exit_process ops held pid reason k))
         (exit_held k held p) pid wake2 k2 = Some (wake3, k3)"
    "exit_process ops held pid r k = exit_notify pid (p_waiters p) (p_parent p) wake3 k3" by metis
  show ?thesis
    using no_child_evo [OF exit_notify_evo assms(2) reparent_props(2) [OF exit_fn_evo e(1) assms(2)]] e(2) by simp
qed

lemma dead_evo:
  assumes "evo k k'" and "list_all (\<lambda>q. p_pid q = pid \<longrightarrow> is_zombie q \<and> p_fds q = []) (k_procs k)"
  shows "list_all (\<lambda>q. p_pid q = pid \<longrightarrow> is_zombie q \<and> p_fds q = []) (k_procs k')"
  unfolding list_all_iff
proof
  fix q assume "q \<in> set (k_procs k')"
  then obtain p where "p \<in> set (k_procs k)" "evolves p q"
    using assms(1) table_evolves_mem unfolding evo_def by blast
  then show "p_pid q = pid \<longrightarrow> is_zombie q \<and> p_fds q = []"
    using assms(2) by (auto simp: list_all_iff evolves_def)
qed

lemma update_first_all:
  assumes "distinct (map key xs)" and "\<And>x. key x = k \<Longrightarrow> P (f x)"
    and "\<And>x. x \<in> set xs \<Longrightarrow> key x \<noteq> k \<Longrightarrow> P x"
  shows "list_all P (update_first (\<lambda>x. key x = k) f xs)"
  using assms(1,3)
proof (induction xs)
  case (Cons x xs)
  show ?case
  proof (cases "key x = k")
    case True
    with Cons.prems(1) have "key y \<noteq> k" if "y \<in> set xs" for y using that by (auto simp: image_iff)
    with Cons.prems(2) have "list_all P xs" by (simp add: list_all_iff)
    with True show ?thesis by (simp add: assms(2))
  qed (use Cons in simp)
qed simp

lemma exit_release_dead:
  assumes p: "get_proc k (p_pid p) = Some p" and d: "distinct (map p_pid (k_procs k))"
  shows "list_all (\<lambda>q. p_pid q = p_pid p \<longrightarrow> is_zombie q \<and> p_fds q = []) (k_procs (snd (exit_release ops held p r k)))"
proof -
  let ?z = "\<lambda>p. p\<lparr>p_state := Zombie r, p_exit_status := Some (legacy_status r)\<rparr>"
  let ?rel = "\<lambda>p. p\<lparr>p_clear_child_tid := 0, p_shared_mappings := [], p_fds := [], p_socket_handles := [], p_waiters := []\<rparr>"
  let ?k1 = "upd_proc (p_pid p) ?z k"
  have k8: "k_procs (snd (exit_detach ops held p r k)) = k_procs ?k1"
    by (simp add: exit_detach_def Let_def case_prod_beta same_table_procs)
  have procs: "k_procs (snd (exit_release ops held p r k)) =
      update_first (\<lambda>q. p_pid q = p_pid p) (?rel \<circ> ?z) (k_procs k)"
    by (simp add: exit_release_def case_prod_beta upd_proc_def k8 update_first_comp)
  show ?thesis
    unfolding procs by (intro update_first_all [OF d]) (auto simp: is_zombie_def)
qed

section \<open>Properties\<close>

text \<open>
  A concrete world for evaluating examples: every call succeeds and the world
  records the VFS descriptors closed.
\<close>

definition demo_ops :: "usize list KOps" where
  "demo_ops =
     \<lparr>op_reserve = (\<lambda>_ w. (True, w)), op_fs_close = (\<lambda>fd w. (Ok (), fd # w)), op_fs_dup = (\<lambda>fd w. (Ok fd, w)),
      op_fs_lseek = (\<lambda>_ off _ w. (Ok (nat off), w)), op_fs_write = (\<lambda>_ d w. (Ok (length d), w)),
      op_fs_open = (\<lambda>_ w. (Ok 0, w)), op_sock_dup = (\<lambda>_ w. (Ok (), w)), op_sock_close = (\<lambda>_ w. (Ok (), w)),
      op_sock_fd_flags = (\<lambda>_ _. Some 0), op_space_new = (\<lambda>w. (Ok 0, w)), op_space_clone = (\<lambda>s w. (Ok (s + 100), w)),
      op_space_destroy = (\<lambda>_ w. w), op_space_activate = (\<lambda>_ w. w), op_space_clear = (\<lambda>_ w. w),
      op_p4_phys = (\<lambda>s _. s), op_allows_user = (\<lambda>_ _ _ _ _. True), op_ensure_writable = (\<lambda>_ _ _ w. (True, w)),
      op_read_mem = (\<lambda>_ n _. replicate n 0), op_write_u32 = (\<lambda>_ _ w. w), op_boot_context = (\<lambda>w. w),
      op_switch_context = (\<lambda>_ _ w. w), op_on_fork = (\<lambda>_ w. w), op_fpu_init = []\<rparr>"

definition demo_kern :: "usize list Kern" where
  "demo_kern =
     \<lparr>k_procs =
        [new_user [] 10 1 None [] Credentials_root,
         (new_user [] 20 2 (Some 1) [] Credentials_root)\<lparr>p_fds := [\<lparr>user_fd = 0, vfs_fd = 7, status_flags = 0, fd_flags = 0\<rparr>]\<rparr>,
         new_user [] 30 3 (Some 2) [] Credentials_root],
      k_next_pid = 4, k_current = None, k_world = []\<rparr>"

definition table_inv :: "'w Kern \<Rightarrow> bool" where
  "table_inv k \<longleftrightarrow>
     distinct (map p_pid (k_procs k)) \<and>
     list_all (\<lambda>p. 1 \<le> p_pid p \<and> p_pid p < k_next_pid k \<and>
       (case p_parent p of None \<Rightarrow> True | Some q \<Rightarrow> 1 \<le> q \<and> q < p_pid p)) (k_procs k)"

lemma evo_table_inv:
  assumes e: "evo k k'" and inv: "table_inv k"
  shows "table_inv k'"
proof -
  have t: "table_evolves (k_procs k) (k_procs k')" and n: "k_next_pid k' = k_next_pid k"
    using e by (auto simp: evo_def)
  have "distinct (map p_pid (k_procs k'))"
    using table_evolves_pids [OF t] inv by (metis distinct_nthsI subseq_conv_nths table_inv_def)
  moreover have "1 \<le> p_pid q \<and> p_pid q < k_next_pid k' \<and>
      (case p_parent q of None \<Rightarrow> True | Some r \<Rightarrow> 1 \<le> r \<and> r < p_pid q)" if q: "q \<in> set (k_procs k')" for q
  proof -
    from table_evolves_mem [OF t q] obtain p where p: "p \<in> set (k_procs k)" "evolves p q" by blast
    have pid: "p_pid q = p_pid p" and par: "parent_evolves (p_parent p) (p_parent q)"
      using p(2) by (simp_all add: evolves_def)
    have old: "1 \<le> p_pid p \<and> p_pid p < k_next_pid k \<and>
        (case p_parent p of None \<Rightarrow> True | Some r \<Rightarrow> 1 \<le> r \<and> r < p_pid p)"
      using inv p(1) by (simp add: table_inv_def list_all_iff)
    then show ?thesis
      using par unfolding pid n parent_evolves_def INIT_PID_def by (auto split: option.splits)
  qed
  ultimately show ?thesis by (simp add: table_inv_def list_all_iff)
qed

text \<open>
  C29: exit terminates.  With the budget \<open>exit_fuel\<close> the recursive exit always
  returns, and the result solves the recursion equation of the source with
  itself as the recursive call, so the budget is not observable.
\<close>

theorem exit_terminates:
  "exit_body ops (\<lambda>held pid reason k. Some (exit_process ops held pid reason k)) held pid reason k =
     Some (exit_process ops held pid reason k)"
  by (rule exit_process_unfold)

text \<open>
  C28: a process other than init leaves no orphans: after its exit no process in
  the table has it as parent, whatever further processes died on the way.
\<close>

theorem exit_no_orphans:
  assumes "get_proc k pid = Some p" and "pid \<noteq> INIT_PID"
  shows "list_all (\<lambda>q. p_parent q \<noteq> Some pid) (k_procs (snd (exit_process ops held pid reason k)))"
  using assms by (rule exit_process_no_child)

theorem exit_no_orphans_witness:
  "(\<exists>p. get_proc demo_kern 2 = Some p) \<and>
   list_all (\<lambda>q. p_parent q \<noteq> Some 2) (k_procs (snd (exit_process demo_ops [] 2 (Exited 0) demo_kern)))"
proof -
  have "get_proc demo_kern 2 = Some (k_procs demo_kern ! 1)"
    by (simp add: demo_kern_def get_proc_def new_user_def)
  from this exit_no_orphans [OF this, of demo_ops "[]" "Exited 0"] show ?thesis by (simp add: INIT_PID_def)
qed





text \<open>
  C32: no process ever has both \<open>SIGCONT\<close> and a stop signal pending: delivering
  any signal, with all the exits it may cause, preserves this for the whole table.
\<close>

theorem signal_keeps_job_control_exclusive:
  assumes "list_all job_signals_exclusive (k_procs k)"
  shows "list_all job_signals_exclusive (k_procs (snd (signal ops pid status current k)))"
  unfolding list_all_iff
proof
  fix q assume "q \<in> set (k_procs (snd (signal ops pid status current k)))"
  then obtain p where "p \<in> set (k_procs k)" "evolves p q"
    using signal_evo [of k ops pid status current] table_evolves_mem unfolding evo_def by blast
  then show "job_signals_exclusive q" using assms by (simp add: list_all_iff evolves_def)
qed

theorem signal_keeps_job_control_exclusive_witness:
  "list_all job_signals_exclusive (k_procs demo_kern) \<and>
   list_all job_signals_exclusive (k_procs (snd (signal demo_ops 3 (default_status Tstp) (Some 3) demo_kern)))"
proof -
  have e: "list_all job_signals_exclusive (k_procs demo_kern)"
    by (simp add: demo_kern_def new_user_def job_signals_exclusive_def)
  from e signal_keeps_job_control_exclusive [OF e] show ?thesis by blast
qed

end
