(* ===== verification/Paths.thy ===== *)
theory Paths
  imports Kernel_Iface
begin

text \<open>
  Path strings: the lexical path functions of the VFS (\<open>kernel/src/fs/vfs.rs\<close>) and
  of the process layer (\<open>kernel/src/process/mod.rs\<close>).  Paths are byte lists.  The
  functions allocate; \<open>mem_ok\<close> is whether their allocations succeed, and a failed
  allocation is \<open>OutOfMemory\<close> without any other effect.
\<close>

section \<open>Definitions\<close>

abbreviation SLASH :: u8 where "SLASH \<equiv> 0x2f"
abbreviation DOT :: u8 where "DOT \<equiv> 0x2e"

text \<open>\<open>str::split('/')\<close>.\<close>

fun split_slash :: "bytes \<Rightarrow> bytes list" where
  "split_slash [] = [[]]"
| "split_slash (c # cs) =
     (if c = SLASH then [] # split_slash cs
      else case split_slash cs of [] \<Rightarrow> [[c]] | p # ps \<Rightarrow> (c # p) # ps)"

definition push_part :: "bytes \<Rightarrow> bytes list \<Rightarrow> bytes list" where
  "push_part part parts =
     (if part = [] \<or> part = [DOT] then parts
      else if part = [DOT, DOT] then butlast parts
      else parts @ [part])"

text \<open>\<open>path_parts\<close> is the loop that fills \<open>parts\<close>, \<open>parts_len\<close> the checked length sum.\<close>

definition path_parts :: "bytes \<Rightarrow> bytes list" where
  "path_parts path = fold push_part (split_slash path) []"

fun parts_len :: "bytes list \<Rightarrow> usize \<Rightarrow> usize option" where
  "parts_len [] len = Some len"
| "parts_len (p # ps) len =
     (case checked_add len 1 of
        None \<Rightarrow> None
      | Some l \<Rightarrow> (case checked_add l (length p) of None \<Rightarrow> None | Some l' \<Rightarrow> parts_len ps l'))"

definition render_parts :: "bytes list \<Rightarrow> bytes" where
  "render_parts parts = concat (map (\<lambda>p. SLASH # p) parts)"

definition starts_with_slash :: "bytes \<Rightarrow> bool" where
  "starts_with_slash path = (case path of [] \<Rightarrow> False | c # _ \<Rightarrow> c = SLASH)"

definition normalize_path :: "bool \<Rightarrow> bytes \<Rightarrow> (VfsError, bytes) result" where
  "normalize_path mem_ok path =
     (if \<not> starts_with_slash path then Err NotFound
      else if \<not> mem_ok then Err VfsOutOfMemory
      else
        let parts = path_parts path in
        if parts = [] then Ok [SLASH]
        else case parts_len parts 0 of None \<Rightarrow> Err VfsOutOfMemory | Some _ \<Rightarrow> Ok (render_parts parts))"

text \<open>\<open>trim_end_matches('/')\<close> and \<open>rfind('/')\<close>.\<close>

definition trim_end_slashes :: "bytes \<Rightarrow> bytes" where
  "trim_end_slashes path = rev (dropWhile (\<lambda>c. c = SLASH) (rev path))"

definition rfind_slash :: "bytes \<Rightarrow> usize option" where
  "rfind_slash path =
     (case position (\<lambda>c. c = SLASH) (rev path) of None \<Rightarrow> None | Some i \<Rightarrow> Some (length path - 1 - i))"

definition parent_path :: "bool \<Rightarrow> bytes \<Rightarrow> (VfsError, bytes) result" where
  "parent_path mem_ok path =
     (case normalize_path mem_ok path of
        Inl e \<Rightarrow> Err e
      | Inr normalized \<Rightarrow>
          let trimmed = trim_end_slashes normalized in
          case rfind_slash trimmed of
            None \<Rightarrow> Ok [SLASH]
          | Some i \<Rightarrow> if i = 0 then Ok [SLASH] else Ok (take i trimmed))"

definition file_name :: "bool \<Rightarrow> bytes \<Rightarrow> (VfsError, bytes) result" where
  "file_name mem_ok path =
     (case normalize_path mem_ok path of
        Inl e \<Rightarrow> Err e | Inr normalized \<Rightarrow> Ok (last (split_slash (trim_end_slashes normalized))))"

definition join_path :: "bool \<Rightarrow> bytes \<Rightarrow> bytes \<Rightarrow> (VfsError, bytes) result" where
  "join_path mem_ok parent name =
     (if starts_with_slash name then normalize_path mem_ok name
      else
        let parent = trim_end_slashes parent;
            len = (if parent = [] \<or> parent = [SLASH] then checked_add (length name) 1
                   else Option.bind (checked_add (length parent) 1) (\<lambda>l. checked_add l (length name)))
        in case len of
             None \<Rightarrow> Err VfsOutOfMemory
           | Some _ \<Rightarrow>
               if \<not> mem_ok then Err VfsOutOfMemory
               else if parent = [] \<or> parent = [SLASH] then normalize_path mem_ok (SLASH # name)
               else normalize_path mem_ok (parent @ SLASH # name))"

definition child_path_prefix :: "bool \<Rightarrow> bytes \<Rightarrow> (VfsError, bytes) result" where
  "child_path_prefix mem_ok path =
     (let trimmed = trim_end_slashes path in
      case checked_add (length trimmed) 1 of
        None \<Rightarrow> Err VfsOutOfMemory
      | Some _ \<Rightarrow> if mem_ok then Ok (trimmed @ [SLASH]) else Err VfsOutOfMemory)"

definition replace_path_prefix :: "bool \<Rightarrow> bytes \<Rightarrow> bytes \<Rightarrow> bytes \<Rightarrow> (VfsError, bytes) result" where
  "replace_path_prefix mem_ok path old_prefix new_prefix =
     (if length path < length old_prefix then Err NotFound
      else
        let suffix = drop (length old_prefix) path in
        case checked_add (length new_prefix) (length suffix) of
          None \<Rightarrow> Err VfsOutOfMemory
        | Some _ \<Rightarrow> if mem_ok then Ok (new_prefix @ suffix) else Err VfsOutOfMemory)"

subsection \<open>Decimal numbers\<close>

fun decimal_len :: "nat \<Rightarrow> usize" where
  "decimal_len value = (if value < 10 then 1 else Suc (decimal_len (value div 10)))"

declare decimal_len.simps [simp del]

fun push_usize_decimal :: "nat \<Rightarrow> bytes" where
  "push_usize_decimal value =
     (if value < 10 then [0x30 + of_nat value]
      else push_usize_decimal (value div 10) @ [0x30 + of_nat (value mod 10)])"

declare push_usize_decimal.simps [simp del]

definition PTS_PREFIX :: bytes where
  "PTS_PREFIX = [0x2f, 0x64, 0x65, 0x76, 0x2f, 0x70, 0x74, 0x73, 0x2f]"

definition try_pts_path :: "bool \<Rightarrow> usize \<Rightarrow> (VfsError, bytes) result" where
  "try_pts_path mem_ok pty =
     (case checked_add (length PTS_PREFIX) (decimal_len pty) of
        None \<Rightarrow> Err VfsOutOfMemory
      | Some _ \<Rightarrow> if mem_ok then Ok (PTS_PREFIX @ push_usize_decimal pty) else Err VfsOutOfMemory)"

subsection \<open>Paths relative to a process\<close>

definition normalize_process_path :: "bool \<Rightarrow> bytes \<Rightarrow> (VfsError, bytes) result" where
  "normalize_process_path mem_ok path =
     (if \<not> starts_with_slash path then Err NotFound
      else if \<not> mem_ok then Err VfsOutOfMemory
      else
        let parts = path_parts path in
        if parts = [] then Ok [SLASH]
        else case parts_len parts 0 of None \<Rightarrow> Err VfsOutOfMemory | Some _ \<Rightarrow> Ok (render_parts parts))"

definition resolve_process_path :: "bool \<Rightarrow> Process \<Rightarrow> bytes \<Rightarrow> (VfsError, bytes) result" where
  "resolve_process_path mem_ok p path =
     (if path = [] then Err NotFound
      else if starts_with_slash path then normalize_process_path mem_ok path
      else
        let cwd = (if p_cwd p = [] then [SLASH] else p_cwd p);
            needs_slash = (last cwd \<noteq> SLASH)
        in case Option.bind (checked_add (length cwd) (if needs_slash then 1 else 0))
                  (\<lambda>l. checked_add l (length path)) of
             None \<Rightarrow> Err VfsOutOfMemory
           | Some _ \<Rightarrow>
               if \<not> mem_ok then Err VfsOutOfMemory
               else normalize_process_path mem_ok (cwd @ (if needs_slash then [SLASH] else []) @ path))"

definition DEV_TTY :: bytes where
  "DEV_TTY = [0x2f, 0x64, 0x65, 0x76, 0x2f, 0x74, 0x74, 0x79]"

definition resolve_open_path :: "bool \<Rightarrow> Process \<Rightarrow> bytes \<Rightarrow> (VfsError, bytes) result" where
  "resolve_open_path mem_ok p path =
     (case resolve_process_path mem_ok p path of
        Inl e \<Rightarrow> Err e
      | Inr path \<Rightarrow>
          if path \<noteq> DEV_TTY then Ok path
          else case p_controlling_tty p of
                 Some Console \<Rightarrow> Ok path
               | Some (Pty pty) \<Rightarrow> try_pts_path mem_ok pty
               | None \<Rightarrow> Err NotFound)"

section \<open>Splitting and rendering\<close>

definition plain_part :: "bytes \<Rightarrow> bool" where
  "plain_part p \<longleftrightarrow> p \<noteq> [] \<and> p \<noteq> [DOT] \<and> p \<noteq> [DOT, DOT] \<and> SLASH \<notin> set p"

lemma split_slash_nonempty [simp]: "split_slash cs \<noteq> []"
  by (induction cs) (auto split: list.splits)

lemma split_slash_no_slash: "list_all (\<lambda>p. SLASH \<notin> set p) (split_slash cs)"
  by (induction cs) (auto split: list.splits)

lemma split_slash_append:
  "SLASH \<notin> set p \<Longrightarrow> split_slash (p @ SLASH # cs) = p # split_slash cs"
  by (induction p) auto

lemma split_slash_plain: "SLASH \<notin> set p \<Longrightarrow> split_slash p = [p]"
  by (induction p) auto

lemma split_render:
  "list_all (\<lambda>p. SLASH \<notin> set p) (p # ps) \<Longrightarrow> split_slash (render_parts (p # ps)) = [] # p # ps"
proof (induction ps arbitrary: p)
  case Nil
  then show ?case by (simp add: render_parts_def split_slash_plain)
next
  case (Cons q ps)
  from Cons.IH [of q] Cons.prems have rest: "split_slash (render_parts (q # ps)) = [] # q # ps" by simp
  have "render_parts (q # ps) = SLASH # q @ concat (map (\<lambda>p. SLASH # p) ps)" by (simp add: render_parts_def)
  then have tail: "split_slash (q @ concat (map (\<lambda>p. SLASH # p) ps)) = q # ps" using rest by simp
  show ?case
    using Cons.prems tail split_slash_append [of p "q @ concat (map (\<lambda>p. SLASH # p) ps)"]
    by (simp add: render_parts_def)
qed

lemma render_parts_Nil: "render_parts [] = []"
  by (simp add: render_parts_def)

lemma push_part_plain: "plain_part p \<Longrightarrow> push_part p parts = parts @ [p]"
  by (auto simp: push_part_def plain_part_def)

lemma fold_push_plain: "list_all plain_part ps \<Longrightarrow> fold push_part ps acc = acc @ ps"
  by (induction ps arbitrary: acc) (auto simp: push_part_plain)

lemma push_part_keeps_plain:
  "list_all plain_part parts \<Longrightarrow> SLASH \<notin> set p \<Longrightarrow> list_all plain_part (push_part p parts)"
  by (auto simp: push_part_def plain_part_def list_all_iff dest: in_set_butlastD)

lemma path_parts_plain: "list_all plain_part (path_parts path)"
proof -
  have "list_all plain_part (fold push_part ps acc)"
    if "list_all (\<lambda>p. SLASH \<notin> set p) ps" "list_all plain_part acc" for ps acc
    using that by (induction ps arbitrary: acc) (auto simp: push_part_keeps_plain)
  then show ?thesis by (simp add: path_parts_def split_slash_no_slash)
qed

lemma plain_no_slash: "list_all plain_part ps \<Longrightarrow> list_all (\<lambda>p. SLASH \<notin> set p) ps"
  by (auto simp: list_all_iff plain_part_def)

lemma path_parts_render: "list_all plain_part ps \<Longrightarrow> ps \<noteq> [] \<Longrightarrow> path_parts (render_parts ps) = ps"
proof (cases ps)
  case (Cons p qs)
  assume plain: "list_all plain_part ps"
  then have "split_slash (render_parts ps) = [] # ps"
    using split_render [OF plain_no_slash, of p qs] by (simp add: Cons)
  then show ?thesis using plain by (simp add: path_parts_def push_part_def fold_push_plain)
qed simp

lemma parts_len_eq:
  "len + length (render_parts ps) \<le> USIZE_MAX \<Longrightarrow> parts_len ps len = Some (len + length (render_parts ps))"
  by (induction ps arbitrary: len) (auto simp: render_parts_def checked_add_def)

lemma length_split_slash: "length (render_parts (split_slash path)) = Suc (length path)"
  by (induction path) (auto simp: render_parts_def split: list.splits)

lemma length_render_fold:
  "length (render_parts (fold push_part ps acc)) \<le> length (render_parts acc) + length (render_parts ps)"
proof (induction ps arbitrary: acc)
  case (Cons p ps)
  have "length (render_parts (butlast acc)) \<le> length (render_parts acc)"
    by (cases acc rule: rev_cases) (auto simp: render_parts_def)
  then have "length (render_parts (push_part p acc)) \<le> length (render_parts acc) + length (render_parts [p])"
    by (auto simp: push_part_def render_parts_def)
  then show ?case using Cons.IH [of "push_part p acc"] by (auto simp: render_parts_def)
qed (simp add: render_parts_def)

lemma length_path_parts: "length (render_parts (path_parts path)) \<le> Suc (length path)"
  using length_render_fold [of "split_slash path" "[]"]
  by (simp add: path_parts_def length_split_slash render_parts_Nil)

text \<open>With memory and a representable length, normalisation is the rendering of the parts.\<close>

lemma normalize_eq:
  assumes "starts_with_slash path" and "length path < USIZE_MAX"
  shows "normalize_path True path =
    Ok (if path_parts path = [] then [SLASH] else render_parts (path_parts path))"
proof -
  have "0 + length (render_parts (path_parts path)) \<le> USIZE_MAX"
    using assms(2) length_path_parts [of path] by linarith
  from parts_len_eq [OF this] show ?thesis using assms(1) by (simp add: normalize_path_def Let_def)
qed

lemma starts_render: "ps \<noteq> [] \<Longrightarrow> starts_with_slash (render_parts ps)"
  by (cases ps) (auto simp: render_parts_def starts_with_slash_def)

text \<open>
  C34: normalisation is idempotent and its result is canonical: it is \<open>/\<close> or a
  sequence of components, each introduced by one slash, none empty, \<open>.\<close> or \<open>..\<close>.
\<close>

theorem normalize_path_canonical:
  assumes "length path < USIZE_MAX" and "normalize_path True path = Ok q"
  shows "normalize_path True q = Ok q \<and>
    (q = [SLASH] \<or> (\<exists>parts. parts \<noteq> [] \<and> list_all plain_part parts \<and> q = render_parts parts))"
proof -
  have s: "starts_with_slash path" using assms(2) by (auto simp: normalize_path_def split: if_splits)
  define ps where "ps = path_parts path"
  have q: "q = (if ps = [] then [SLASH] else render_parts ps)"
    using assms normalize_eq [OF s assms(1)] by (auto simp: ps_def split: if_splits)
  have plain: "list_all plain_part ps" by (simp add: ps_def path_parts_plain)
  have "0 + length (render_parts ps) \<le> USIZE_MAX"
    using assms(1) length_path_parts [of path] unfolding ps_def by linarith
  note len = parts_len_eq [OF this]
  show ?thesis
  proof (cases "ps = []")
    case True
    have "normalize_path True [SLASH] = Ok [SLASH]"
      by (simp add: normalize_path_def starts_with_slash_def path_parts_def push_part_def)
    with True q show ?thesis by simp
  next
    case False
    have "normalize_path True (render_parts ps) = Ok (render_parts ps)"
      unfolding normalize_path_def Let_def path_parts_render [OF plain False] len
      using False starts_render [OF False] by simp
    with False q plain show ?thesis by auto
  qed
qed

theorem normalize_path_canonical_witness:
  "normalize_path True [SLASH, 0x61, SLASH, DOT, SLASH, SLASH, 0x62, SLASH, DOT, DOT, SLASH, 0x63] = Ok [SLASH, 0x61, SLASH, 0x63] \<and>
   normalize_path True [SLASH, 0x61, SLASH, 0x63] = Ok [SLASH, 0x61, SLASH, 0x63]"
proof -
  have e: "normalize_path True [SLASH, 0x61, SLASH, DOT, SLASH, SLASH, 0x62, SLASH, DOT, DOT, SLASH, 0x63] =
      Ok [SLASH, 0x61, SLASH, 0x63]"
    by (simp add: normalize_path_def starts_with_slash_def path_parts_def push_part_def checked_add_def
        USIZE_MAX_def render_parts_def)
  from normalize_path_canonical [OF _ e] e show ?thesis by (simp add: USIZE_MAX_def)
qed

section \<open>Parent and last component\<close>

lemma render_parts_snoc: "render_parts (ps @ [n]) = render_parts ps @ SLASH # n"
  by (simp add: render_parts_def)

lemma trim_end_render: "plain_part n \<Longrightarrow> trim_end_slashes (xs @ SLASH # n) = xs @ SLASH # n"
  by (cases n rule: rev_cases) (auto simp: trim_end_slashes_def plain_part_def)

lemma position_append_not: "y \<notin> set xs \<Longrightarrow> position (\<lambda>x. x = y) (xs @ y # ys) = Some (length xs)"
  by (induction xs) auto

lemma rfind_render: "SLASH \<notin> set n \<Longrightarrow> rfind_slash (xs @ SLASH # n) = Some (length xs)"
  by (subst rfind_slash_def) (simp add: position_append_not)

lemma normalize_render:
  assumes "list_all plain_part ps" and "ps \<noteq> []" and "length (render_parts ps) \<le> USIZE_MAX"
  shows "normalize_path True (render_parts ps) = Ok (render_parts ps)"
  using parts_len_eq [of 0 ps] assms starts_render [OF assms(2)]
  by (simp add: normalize_path_def path_parts_render Let_def)

lemma split_slash_snoc: "SLASH \<notin> set n \<Longrightarrow> split_slash (xs @ SLASH # n) = split_slash xs @ [n]"
  by (induction xs) (auto simp: split_slash_plain split: list.splits)

lemma last_split_snoc: "SLASH \<notin> set n \<Longrightarrow> last (split_slash (xs @ SLASH # n)) = n"
  by (simp add: split_slash_snoc)

lemma parent_of_render:
  assumes "list_all plain_part (ps @ [n])" and "length (render_parts (ps @ [n])) \<le> USIZE_MAX"
  shows "parent_path True (render_parts (ps @ [n])) = Ok (if ps = [] then [SLASH] else render_parts ps)"
    and "file_name True (render_parts (ps @ [n])) = Ok n"
proof -
  have n: "plain_part n" "SLASH \<notin> set n" using assms(1) by (auto simp: plain_part_def)
  have norm: "normalize_path True (render_parts (ps @ [n])) = Ok (render_parts (ps @ [n]))"
    using assms by (intro normalize_render) auto
  have "render_parts ps = [] \<longleftrightarrow> ps = []" by (cases ps) (auto simp: render_parts_def)
  then show "parent_path True (render_parts (ps @ [n])) = Ok (if ps = [] then [SLASH] else render_parts ps)"
    using norm n by (auto simp: parent_path_def render_parts_snoc trim_end_render rfind_render Let_def)
  show "file_name True (render_parts (ps @ [n])) = Ok n"
    using norm n by (simp add: file_name_def render_parts_snoc trim_end_render last_split_snoc)
qed

text \<open>
  Joining the parent of a canonical path with its last component gives the
  path back; the last component is never empty, \<open>.\<close> or \<open>..\<close>.
\<close>

theorem join_parent_file_name:
  assumes "list_all plain_part parts" and "parts \<noteq> []" and "length (render_parts parts) < USIZE_MAX"
  shows "\<exists>parent name. parent_path True (render_parts parts) = Ok parent \<and>
    file_name True (render_parts parts) = Ok name \<and> plain_part name \<and>
    join_path True parent name = Ok (render_parts parts)"
proof -
  obtain ps n where pn: "parts = ps @ [n]" using assms(2) by (metis rev_exhaust)
  have len: "length (render_parts (ps @ [n])) \<le> USIZE_MAX" using assms(3) pn by simp
  have plain: "list_all plain_part (ps @ [n])" and n: "plain_part n" using assms(1) pn by auto
  have norm: "normalize_path True (render_parts (ps @ [n])) = Ok (render_parts (ps @ [n]))"
    using plain len by (intro normalize_render) auto
  have nstart: "\<not> starts_with_slash n"
    using n by (cases n) (auto simp: starts_with_slash_def plain_part_def)
  have "join_path True (if ps = [] then [SLASH] else render_parts ps) n = Ok (render_parts (ps @ [n]))"
  proof (cases ps rule: rev_cases)
    case Nil
    have "checked_add (length n) 1 \<noteq> None" using len Nil by (simp add: checked_add_def render_parts_def)
    then show ?thesis
      using norm nstart Nil by (auto simp: join_path_def Let_def render_parts_def trim_end_slashes_def)
  next
    case (snoc qs q)
    have "plain_part q" using plain snoc by simp
    then have trim: "trim_end_slashes (render_parts ps) = render_parts ps"
      using snoc by (simp add: render_parts_snoc trim_end_render)
    have ne: "render_parts ps \<noteq> []" "render_parts ps \<noteq> [SLASH]"
      using snoc \<open>plain_part q\<close> by (auto simp: render_parts_snoc plain_part_def append_eq_Cons_conv)
    have "length (render_parts ps) + 1 + length n \<le> USIZE_MAX" using len by (simp add: render_parts_snoc)
    then have "Option.bind (checked_add (length (render_parts ps)) 1) (\<lambda>l. checked_add l (length n)) \<noteq> None"
      by (simp add: checked_add_def)
    moreover have "ps \<noteq> []" using snoc by simp
    ultimately show ?thesis
      using norm [unfolded render_parts_snoc] nstart trim ne
      unfolding join_path_def Let_def render_parts_snoc by auto
  qed
  then show ?thesis using parent_of_render [OF plain len] n pn by auto
qed

theorem join_parent_file_name_witness:
  "\<exists>parent name. parent_path True (render_parts [[0x75], [0x78, 0x79]]) = Ok parent \<and>
    file_name True (render_parts [[0x75], [0x78, 0x79]]) = Ok name \<and> plain_part name \<and>
    join_path True parent name = Ok (render_parts [[0x75], [0x78, 0x79]])"
  by (rule join_parent_file_name) (simp_all add: plain_part_def render_parts_def USIZE_MAX_def)

section \<open>Decimal rendering\<close>

lemma length_push_usize_decimal: "length (push_usize_decimal n) = decimal_len n"
  by (induction n rule: push_usize_decimal.induct)
    (subst push_usize_decimal.simps, subst decimal_len.simps, simp)

definition decimal_value :: "bytes \<Rightarrow> nat" where
  "decimal_value ds = foldl (\<lambda>acc d. acc * 10 + (unat d - 0x30)) 0 ds"

lemma digit_value: "d < 10 \<Longrightarrow> unat (0x30 + of_nat d :: u8) - 0x30 = d"
proof -
  assume "d < 10"
  then have "d \<in> {0, 1, 2, 3, 4, 5, 6, 7, 8, 9}" by auto
  then show ?thesis by auto
qed

lemma decimal_value_snoc: "decimal_value (ds @ [d]) = decimal_value ds * 10 + (unat d - 0x30)"
  by (simp add: decimal_value_def)

text \<open>
  The decimal digits written for a number read back as that number, and the
  length reserved for them is exact.
\<close>

theorem decimal_roundtrip:
  "decimal_value (push_usize_decimal n) = n \<and> length (push_usize_decimal n) = decimal_len n"
proof (intro conjI length_push_usize_decimal)
  show "decimal_value (push_usize_decimal n) = n"
  proof (induction n rule: push_usize_decimal.induct)
    case (1 n)
    show ?case
    proof (cases "n < 10")
      case True
      then show ?thesis
        by (subst push_usize_decimal.simps) (simp add: decimal_value_def digit_value del: of_nat_less_iff)
    next
      case False
      then show ?thesis
        using 1 by (subst push_usize_decimal.simps) (simp add: decimal_value_snoc digit_value)
    qed
  qed
qed

end
