(* ===== verification/Pipes.thy ===== *)
theory Pipes
  imports Kernel_Iface
begin

text \<open>
  Pipes and pseudo-terminals (\<open>PipeState\<close>, \<open>PtyState\<close> and the queue helpers of
  \<open>kernel/src/fs/vfs.rs\<close>).  A read takes the length of the caller's buffer and
  returns the bytes stored into it.  \<open>write_master_input\<close> also returns the signals
  it queues for the foreground process group (\<open>PTY_SIGNALS\<close>).
\<close>

section \<open>Definitions\<close>

subsection \<open>Pipes\<close>

record PipeState =
  pipe_buffer :: bytes
  pipe_capacity :: usize
  pipe_readers :: usize
  pipe_writers :: usize

definition PipeState_new :: "usize \<Rightarrow> PipeState" where
  "PipeState_new capacity =
     \<lparr>pipe_buffer = [], pipe_capacity = capacity, pipe_readers = 1, pipe_writers = 1\<rparr>"

definition add_reader :: "PipeState \<Rightarrow> PipeState" where
  "add_reader s = s\<lparr>pipe_readers := pipe_readers s + 1\<rparr>"

definition add_writer :: "PipeState \<Rightarrow> PipeState" where
  "add_writer s = s\<lparr>pipe_writers := pipe_writers s + 1\<rparr>"

definition close_reader :: "PipeState \<Rightarrow> PipeState" where
  "close_reader s = s\<lparr>pipe_readers := saturating_sub (pipe_readers s) 1\<rparr>"

definition close_writer :: "PipeState \<Rightarrow> PipeState" where
  "close_writer s = s\<lparr>pipe_writers := saturating_sub (pipe_writers s) 1\<rparr>"

text \<open>The copy loops: \<open>pop_front\<close> until the buffer is full or the queue empty, and \<open>push_back\<close> until the queue is at capacity.\<close>

fun pop_loop :: "usize \<Rightarrow> bytes \<Rightarrow> bytes \<times> bytes" where
  "pop_loop 0 queue = ([], queue)"
| "pop_loop (Suc n) [] = ([], [])"
| "pop_loop (Suc n) (b # queue) = (let (out, rest) = pop_loop n queue in (b # out, rest))"

fun push_loop :: "usize \<Rightarrow> bytes \<Rightarrow> bytes \<Rightarrow> bytes \<times> usize" where
  "push_loop capacity queue [] = (queue, 0)"
| "push_loop capacity queue (b # input) =
     (if length queue = capacity then (queue, 0)
      else let (queue', n) = push_loop capacity (queue @ [b]) input in (queue', n + 1))"

definition pipe_read :: "usize \<Rightarrow> PipeState \<Rightarrow> (VfsError, bytes) result \<times> PipeState" where
  "pipe_read len s =
     (let (out, rest) = pop_loop len (pipe_buffer s); s' = s\<lparr>pipe_buffer := rest\<rparr> in
      if length out = 0 \<and> pipe_writers s > 0 then (Err VfsWouldBlock, s') else (Ok out, s'))"

definition pipe_write :: "bytes \<Rightarrow> PipeState \<Rightarrow> (VfsError, usize) result \<times> PipeState" where
  "pipe_write input s =
     (if input = [] then (Ok 0, s)
      else if pipe_readers s = 0 then (Err BrokenPipe, s)
      else
        let (queue, written) = push_loop (pipe_capacity s) (pipe_buffer s) input;
            s' = s\<lparr>pipe_buffer := queue\<rparr>
        in if written = 0 \<and> input \<noteq> [] then (Err VfsWouldBlock, s') else (Ok written, s'))"

definition poll_read :: "PipeState \<Rightarrow> bool" where
  "poll_read s \<longleftrightarrow> pipe_buffer s \<noteq> [] \<or> pipe_writers s = 0"

definition poll_write :: "PipeState \<Rightarrow> bool" where
  "poll_write s \<longleftrightarrow> pipe_readers s > 0 \<and> length (pipe_buffer s) < pipe_capacity s"

subsection \<open>Pseudo-terminals\<close>

definition TERMIOS_SIZE :: usize where "TERMIOS_SIZE = 60"

record PtyState =
  master_to_slave :: bytes
  slave_to_master :: bytes
  input_line :: bytes
  pty_capacity :: usize
  pty_masters :: usize
  pty_slaves :: usize
  pty_locked :: bool
  pty_termios :: bytes
  pty_winsize :: bytes
  foreground_pgrp :: Pid

definition PtyState_new :: "bytes \<Rightarrow> usize \<Rightarrow> PtyState" where
  "PtyState_new default_termios capacity =
     \<lparr>master_to_slave = [], slave_to_master = [], input_line = [], pty_capacity = capacity,
      pty_masters = 1, pty_slaves = 0, pty_locked = True, pty_termios = default_termios,
      pty_winsize = [24, 0, 80, 0, 0, 0, 0, 0], foreground_pgrp = 1\<rparr>"

definition add_master :: "PtyState \<Rightarrow> PtyState" where
  "add_master s = s\<lparr>pty_masters := pty_masters s + 1\<rparr>"

definition add_slave :: "PtyState \<Rightarrow> PtyState" where
  "add_slave s = s\<lparr>pty_slaves := pty_slaves s + 1\<rparr>"

definition close_master :: "PtyState \<Rightarrow> PtyState" where
  "close_master s = s\<lparr>pty_masters := saturating_sub (pty_masters s) 1\<rparr>"

definition close_slave :: "PtyState \<Rightarrow> PtyState" where
  "close_slave s = s\<lparr>pty_slaves := saturating_sub (pty_slaves s) 1\<rparr>"

definition read_queue :: "bytes \<Rightarrow> usize \<Rightarrow> usize \<Rightarrow> (VfsError, bytes) result \<times> bytes" where
  "read_queue queue writers len =
     (if len = 0 then (Ok [], queue)
      else
        let (out, rest) = pop_loop len queue in
        if length out = 0 \<and> writers > 0 then (Err VfsWouldBlock, rest) else (Ok out, rest))"

definition read_master :: "usize \<Rightarrow> PtyState \<Rightarrow> (VfsError, bytes) result \<times> PtyState" where
  "read_master len s =
     (let (r, queue) = read_queue (slave_to_master s) (pty_slaves s) len in (r, s\<lparr>slave_to_master := queue\<rparr>))"

definition read_slave :: "usize \<Rightarrow> PtyState \<Rightarrow> (VfsError, bytes) result \<times> PtyState" where
  "read_slave len s =
     (let (r, queue) = read_queue (master_to_slave s) (pty_masters s) len in (r, s\<lparr>master_to_slave := queue\<rparr>))"

definition termios_u32 :: "bytes \<Rightarrow> usize \<Rightarrow> u32" where
  "termios_u32 t i = u32_from_le (t ! i) (t ! (i + 1)) (t ! (i + 2)) (t ! (i + 3))"

definition translate_newline :: "PtyState \<Rightarrow> bool" where
  "translate_newline s \<longleftrightarrow> termios_u32 (pty_termios s) 4 AND (0x1 OR 0x4) = 0x1 OR 0x4"

definition output_bytes :: "PtyState \<Rightarrow> u8 \<Rightarrow> bytes" where
  "output_bytes s b = (if translate_newline s \<and> b = 0x0a then [0x0d, b] else [b])"

fun slave_output_loop :: "PtyState \<Rightarrow> bytes \<Rightarrow> bytes \<Rightarrow> bytes \<times> usize" where
  "slave_output_loop s queue [] = (queue, 0)"
| "slave_output_loop s queue (b # input) =
     (let required = (if translate_newline s \<and> b = 0x0a then 2 else 1) in
      if saturating_add (length queue) required > pty_capacity s then (queue, 0)
      else
        let queue1 = (if translate_newline s \<and> b = 0x0a then queue @ [0x0d] else queue);
            (queue', n) = slave_output_loop s (queue1 @ [b]) input
        in (queue', n + 1))"

definition write_slave_output :: "bytes \<Rightarrow> PtyState \<Rightarrow> (VfsError, usize) result \<times> PtyState" where
  "write_slave_output input s =
     (if input = [] then (Ok 0, s)
      else if pty_masters s = 0 then (Err VfsBadFd, s)
      else
        let (queue, written) = slave_output_loop s (slave_to_master s) input;
            s' = s\<lparr>slave_to_master := queue\<rparr>
        in if written = 0 then (Err VfsWouldBlock, s') else (Ok written, s'))"

definition control_char :: "bytes \<Rightarrow> usize \<Rightarrow> u8 option" where
  "control_char termios index =
     (case nth_opt termios (17 + index) of
        None \<Rightarrow> None | Some b \<Rightarrow> if b = 0 then None else Some b)"

definition push_pty_output :: "bytes \<Rightarrow> usize \<Rightarrow> u8 \<Rightarrow> (VfsError, unit) result \<times> bytes" where
  "push_pty_output queue capacity b =
     (if length queue = capacity then (Err VfsWouldBlock, queue) else (Ok (), queue @ [b]))"

fun commit_loop :: "bytes \<Rightarrow> bytes \<Rightarrow> usize \<Rightarrow> bytes \<times> bytes" where
  "commit_loop queue [] capacity = (queue, [])"
| "commit_loop queue (b # line) capacity =
     (if length queue < capacity then commit_loop (queue @ [b]) line capacity else (queue, b # line))"

definition commit_pty_line :: "bytes \<Rightarrow> bytes \<Rightarrow> usize \<Rightarrow> bytes \<times> bytes" where
  "commit_pty_line queue line capacity =
     (let (queue', line') = commit_loop queue line capacity in if line' = [] then (queue', []) else (queue', []))"

definition isig_signal :: "PtyState \<Rightarrow> u32 \<Rightarrow> u8 \<Rightarrow> Signal option" where
  "isig_signal s lflag b =
     (let isig = (lflag AND 0x1 \<noteq> 0) in
      if isig \<and> Some b = control_char (pty_termios s) 0 then Some Signal_Int
      else if isig \<and> Some b = control_char (pty_termios s) 1 then Some Quit
      else if isig \<and> Some b = control_char (pty_termios s) 10 then Some Tstp
      else None)"

definition echo_erase :: "PtyState \<Rightarrow> PtyState" where
  "echo_erase s =
     (let q1 = snd (push_pty_output (slave_to_master s) (pty_capacity s) 0x08);
          q2 = snd (push_pty_output q1 (pty_capacity s) 0x20);
          q3 = snd (push_pty_output q2 (pty_capacity s) 0x08)
      in s\<lparr>slave_to_master := q3\<rparr>)"

definition commit_line :: "PtyState \<Rightarrow> PtyState" where
  "commit_line s =
     (let (queue, line) = commit_pty_line (master_to_slave s) (input_line s) (pty_capacity s)
      in s\<lparr>master_to_slave := queue, input_line := line\<rparr>)"

text \<open>One iteration of the input loop; \<open>None\<close> is the \<open>break\<close>.\<close>

definition master_byte :: "u8 \<Rightarrow> PtyState \<Rightarrow> (PtyState \<times> (Pid \<times> Signal) list) option" where
  "master_byte raw s =
     (let iflag = termios_u32 (pty_termios s) 0;
          lflag = termios_u32 (pty_termios s) 12;
          canonical = (lflag AND 0x2 \<noteq> 0);
          echo = (lflag AND 0x8 \<noteq> 0);
          b = (if raw = 0x0d \<and> iflag AND 0x100 \<noteq> 0 then 0x0a else raw)
      in case isig_signal s lflag b of
           Some sig \<Rightarrow> Some (s, [(foreground_pgrp s, sig)])
         | None \<Rightarrow>
             if canonical
             then
               if Some b = control_char (pty_termios s) 2 \<or> b = 0x08 \<or> b = 0x7f
               then
                 if input_line s \<noteq> []
                 then let s1 = s\<lparr>input_line := butlast (input_line s)\<rparr>
                      in Some (if echo then echo_erase s1 else s1, [])
                 else Some (s, [])
               else if Some b = control_char (pty_termios s) 4
               then Some (if input_line s \<noteq> [] then commit_line s else s, [])
               else if length (input_line s) = pty_capacity s then None
               else
                 let s1 = s\<lparr>input_line := input_line s @ [b]\<rparr>;
                     s2 = (if echo then snd (write_slave_output [b] s1) else s1)
                 in Some (if b = 0x0a then commit_line s2 else s2, [])
             else if length (master_to_slave s) = pty_capacity s then None
             else Some (s\<lparr>master_to_slave := master_to_slave s @ [b]\<rparr>, []))"

fun master_loop :: "bytes \<Rightarrow> PtyState \<Rightarrow> usize \<times> PtyState \<times> (Pid \<times> Signal) list" where
  "master_loop [] s = (0, s, [])"
| "master_loop (b # input) s =
     (case master_byte b s of
        None \<Rightarrow> (0, s, [])
      | Some (s1, sigs) \<Rightarrow> let (n, s2, sigs') = master_loop input s1 in (n + 1, s2, sigs @ sigs'))"

definition write_master_input :: "bytes \<Rightarrow> PtyState \<Rightarrow> (VfsError, usize) result \<times> PtyState \<times> (Pid \<times> Signal) list" where
  "write_master_input input s =
     (if input = [] then (Ok 0, s, [])
      else if pty_slaves s = 0 then (Err VfsBadFd, s, [])
      else
        let (written, s', sigs) = master_loop input s
        in if written = 0 then (Err VfsWouldBlock, s', sigs) else (Ok written, s', sigs))"

section \<open>The copy loops\<close>

lemma pop_loop_eq [simp]: "pop_loop n queue = (take n queue, drop n queue)"
  by (induction n queue rule: pop_loop.induct) auto

lemma push_loop_eq:
  "length queue \<le> capacity \<Longrightarrow>
   push_loop capacity queue input =
     (queue @ take (capacity - length queue) input, min (capacity - length queue) (length input))"
proof (induction capacity queue input rule: push_loop.induct)
  case (2 capacity queue b input)
  show ?case
  proof (cases "length queue = capacity")
    case False
    then obtain d where d: "capacity - length queue = Suc d"
      using 2(2) by (metis diff_is_0_eq le_antisym not0_implies_Suc)
    then have "capacity - Suc (length queue) = d" by linarith
    then show ?thesis using 2 False d by simp
  qed simp
qed simp

lemma commit_loop_eq:
  "length queue \<le> capacity \<Longrightarrow>
   commit_loop queue line capacity =
     (queue @ take (capacity - length queue) line, drop (capacity - length queue) line)"
proof (induction queue line capacity rule: commit_loop.induct)
  case (2 queue b line capacity)
  show ?case
  proof (cases "length queue < capacity")
    case True
    then obtain d where d: "capacity - length queue = Suc d" by (metis Suc_diff_Suc)
    then have "capacity - Suc (length queue) = d" by linarith
    then show ?thesis using 2 True d by simp
  qed (use 2 in simp)
qed simp

lemma commit_pty_line_eq:
  "length queue \<le> capacity \<Longrightarrow>
   commit_pty_line queue line capacity = (queue @ take (capacity - length queue) line, [])"
  by (simp add: commit_pty_line_def commit_loop_eq)

lemma slave_output_loop_props:
  "slave_output_loop s queue input = (queue', n) \<Longrightarrow> length queue \<le> pty_capacity s \<Longrightarrow>
   pty_capacity s < USIZE_MAX \<Longrightarrow>
   n \<le> length input \<and> queue' = queue @ concat (map (output_bytes s) (take n input)) \<and> length queue' \<le> pty_capacity s"
proof (induction s queue input arbitrary: queue' n rule: slave_output_loop.induct)
  case (2 s queue b input)
  let ?req = "if translate_newline s \<and> b = 0x0a then 2 else 1 :: nat"
  let ?queue1 = "if translate_newline s \<and> b = 0x0a then queue @ [0x0d] else queue"
  show ?case
  proof (cases "saturating_add (length queue) ?req > pty_capacity s")
    case True
    then show ?thesis using 2 by (auto simp: Let_def)
  next
    case False
    obtain q1 m where rec: "slave_output_loop s (?queue1 @ [b]) input = (q1, m)" by fastforce
    have out: "queue' = q1" "n = m + 1" using 2(2) False rec by (auto simp: Let_def split: if_splits)
    have app: "?queue1 @ [b] = queue @ output_bytes s b" by (simp add: output_bytes_def)
    have "length (?queue1 @ [b]) \<le> pty_capacity s"
      using False 2(4) by (auto simp: saturating_add_def split: if_splits)
    from 2(1) [OF refl False refl rec this 2(4)]
    show ?thesis unfolding app out by auto
  qed
qed simp

section \<open>Byte channels\<close>

text \<open>
  A byte channel accepts a prefix of each write, expanded byte by byte by \<open>enc\<close>,
  at the end of its contents, and serves each read from the front.  The lemma
  \<open>stream\<close> holds of every such channel.
\<close>

fun channel_run ::
    "(bytes \<Rightarrow> 's \<Rightarrow> nat \<times> 's) \<Rightarrow> (nat \<Rightarrow> 's \<Rightarrow> bytes \<times> 's) \<Rightarrow> (bytes + nat) list \<Rightarrow> 's \<Rightarrow> bytes \<times> bytes \<times> 's" where
  "channel_run put get [] s = ([], [], s)"
| "channel_run put get (Inl bs # xs) s =
     (let (n, s1) = put bs s; (acc, out, s2) = channel_run put get xs s1 in (take n bs @ acc, out, s2))"
| "channel_run put get (Inr n # xs) s =
     (let (d, s1) = get n s; (acc, out, s2) = channel_run put get xs s1 in (acc, d @ out, s2))"

locale byte_channel =
  fixes inv :: "'s \<Rightarrow> bool"
    and contents :: "'s \<Rightarrow> bytes"
    and enc :: "'s \<Rightarrow> u8 \<Rightarrow> bytes"
    and put :: "bytes \<Rightarrow> 's \<Rightarrow> nat \<times> 's"
    and get :: "nat \<Rightarrow> 's \<Rightarrow> bytes \<times> 's"
  assumes put_contents:
      "inv s \<Longrightarrow> put bs s = (n, s') \<Longrightarrow>
       inv s' \<and> n \<le> length bs \<and> contents s' = contents s @ concat (map (enc s) (take n bs)) \<and> enc s' = enc s"
    and get_contents:
      "inv s \<Longrightarrow> get n s = (out, s') \<Longrightarrow>
       inv s' \<and> contents s = out @ contents s' \<and> length out \<le> n \<and> enc s' = enc s"
begin

lemma stream:
  "inv s \<Longrightarrow> channel_run put get xs s = (acc, out, s') \<Longrightarrow>
   inv s' \<and> enc s' = enc s \<and> out @ contents s' = contents s @ concat (map (enc s) acc)"
proof (induction xs arbitrary: s acc out s')
  case (Cons x xs)
  show ?case
  proof (cases x)
    case (Inl bs)
    obtain n s1 where p: "put bs s = (n, s1)" by fastforce
    obtain acc1 out1 s2 where r: "channel_run put get xs s1 = (acc1, out1, s2)" by (metis prod_cases3)
    note s1 = put_contents [OF Cons.prems(1) p]
    show ?thesis using Cons.IH [OF _ r] s1 Cons.prems(2) Inl p r by auto
  next
    case (Inr n)
    obtain d s1 where g: "get n s = (d, s1)" by fastforce
    obtain acc1 out1 s2 where r: "channel_run put get xs s1 = (acc1, out1, s2)" by (metis prod_cases3)
    note s1 = get_contents [OF Cons.prems(1) g]
    show ?thesis using Cons.IH [OF _ r] s1 Cons.prems(2) Inr g r by auto
  qed
qed simp

end

subsection \<open>Pipes are byte channels\<close>

definition pipe_put :: "bytes \<Rightarrow> PipeState \<Rightarrow> nat \<times> PipeState" where
  "pipe_put input s = (let (r, s') = pipe_write input s in (case r of Inl _ \<Rightarrow> 0 | Inr n \<Rightarrow> n, s'))"

definition pipe_get :: "nat \<Rightarrow> PipeState \<Rightarrow> bytes \<times> PipeState" where
  "pipe_get len s = (let (r, s') = pipe_read len s in (case r of Inl _ \<Rightarrow> [] | Inr out \<Rightarrow> out, s'))"

definition pipe_inv :: "PipeState \<Rightarrow> bool" where
  "pipe_inv s \<longleftrightarrow> length (pipe_buffer s) \<le> pipe_capacity s"

lemma pipe_write_cases:
  assumes "pipe_inv s" and "input \<noteq> []" and "pipe_readers s > 0"
  shows "pipe_write input s =
    (let room = pipe_capacity s - length (pipe_buffer s);
         s' = s\<lparr>pipe_buffer := pipe_buffer s @ take room input\<rparr>
     in if room = 0 then (Err VfsWouldBlock, s') else (Ok (min room (length input)), s'))"
  using assms by (simp add: pipe_write_def pipe_inv_def push_loop_eq Let_def min_def)

interpretation pipe: byte_channel pipe_inv pipe_buffer "\<lambda>_ b. [b]" pipe_put pipe_get
proof
  fix s bs n s'
  assume inv: "pipe_inv s" and p: "pipe_put bs s = (n, s')"
  show "pipe_inv s' \<and> n \<le> length bs \<and> pipe_buffer s' = pipe_buffer s @ concat (map (\<lambda>b. [b]) (take n bs)) \<and>
      (\<lambda>b. [b]) = (\<lambda>b. [b])"
  proof (cases "bs = [] \<or> pipe_readers s = 0")
    case True
    then show ?thesis using p inv by (auto simp: pipe_put_def pipe_write_def split: if_splits)
  next
    case False
    then show ?thesis
      using p inv pipe_write_cases [OF inv, of bs]
      by (auto simp: pipe_put_def Let_def pipe_inv_def min_def split: if_splits)
  qed
next
  fix s n out s'
  assume "pipe_inv s" and "pipe_get n s = (out, s')"
  then show "pipe_inv s' \<and> pipe_buffer s = out @ pipe_buffer s' \<and> length out \<le> n \<and> (\<lambda>b. [b]) = (\<lambda>b. [b])"
    by (auto simp: pipe_get_def pipe_read_def pipe_inv_def Let_def split: if_splits)
qed

text \<open>
  C31: a pipe neither loses, duplicates nor reorders bytes: after any sequence of
  writes and reads, the bytes read followed by the bytes still buffered are the
  bytes initially buffered followed by the accepted prefixes of the writes; and
  the buffer never exceeds its capacity.
\<close>

theorem pipe_fifo:
  assumes "length (pipe_buffer s) \<le> pipe_capacity s"
    and "channel_run pipe_put pipe_get ops s = (accepted, delivered, s')"
  shows "delivered @ pipe_buffer s' = pipe_buffer s @ accepted \<and> length (pipe_buffer s') \<le> pipe_capacity s'"
proof -
  have "concat (map (\<lambda>b. [b]) xs) = xs" for xs :: bytes by (induction xs) auto
  then show ?thesis
    using pipe.stream [OF _ assms(2)] assms(1) by (simp add: pipe_inv_def)
qed

theorem pipe_fifo_witness:
  "channel_run pipe_put pipe_get [Inl [1, 2, 3], Inr 2, Inl [4, 5], Inr 9] (PipeState_new 3) =
     ([1, 2, 3, 4, 5], [1, 2, 3, 4, 5], PipeState_new 3) \<and>
   [1, 2, 3, 4, 5] @ pipe_buffer (PipeState_new 3) = pipe_buffer (PipeState_new 3) @ ([1, 2, 3, 4, 5] :: bytes)"
proof -
  have e: "channel_run pipe_put pipe_get [Inl [1, 2, 3], Inr 2, Inl [4, 5], Inr 9] (PipeState_new 3) =
     ([1, 2, 3, 4, 5], [1, 2, 3, 4, 5], PipeState_new 3)"
    by (simp add: pipe_put_def pipe_get_def pipe_write_def pipe_read_def PipeState_new_def)
  from pipe_fifo [OF _ e] e show ?thesis by (simp add: PipeState_new_def)
qed



section \<open>Pseudo-terminals\<close>

definition pty_inv :: "PtyState \<Rightarrow> bool" where
  "pty_inv s \<longleftrightarrow> length (slave_to_master s) \<le> pty_capacity s \<and> length (master_to_slave s) \<le> pty_capacity s \<and>
     length (input_line s) \<le> pty_capacity s \<and> pty_capacity s < USIZE_MAX"

definition slave_put :: "bytes \<Rightarrow> PtyState \<Rightarrow> nat \<times> PtyState" where
  "slave_put input s = (let (r, s') = write_slave_output input s in (case r of Inl _ \<Rightarrow> 0 | Inr n \<Rightarrow> n, s'))"

definition master_get :: "nat \<Rightarrow> PtyState \<Rightarrow> bytes \<times> PtyState" where
  "master_get len s = (let (r, s') = read_master len s in (case r of Inl _ \<Rightarrow> [] | Inr out \<Rightarrow> out, s'))"

lemma output_bytes_queue [simp]:
  "output_bytes (s\<lparr>slave_to_master := q\<rparr>) = output_bytes s"
  by (simp add: output_bytes_def translate_newline_def fun_eq_iff)

lemma write_slave_output_props:
  assumes "pty_inv s" and "write_slave_output input s = (r, s')"
  shows "\<exists>q. s' = s\<lparr>slave_to_master := q\<rparr> \<and> length q \<le> pty_capacity s"
    and "case r of Inl _ \<Rightarrow> slave_to_master s' = slave_to_master s
       | Inr n \<Rightarrow> n \<le> length input \<and> slave_to_master s' = slave_to_master s @ concat (map (output_bytes s) (take n input))"
proof -
  obtain q n where l: "slave_output_loop s (slave_to_master s) input = (q, n)" by fastforce
  have p: "n \<le> length input \<and> q = slave_to_master s @ concat (map (output_bytes s) (take n input)) \<and> length q \<le> pty_capacity s"
    using slave_output_loop_props [OF l] assms(1) unfolding pty_inv_def by blast
  have "s' = s\<lparr>slave_to_master := slave_to_master s\<rparr> \<or> s' = s\<lparr>slave_to_master := q\<rparr>"
    using assms(2) l by (auto simp: write_slave_output_def Let_def split: if_splits)
  then show "\<exists>q. s' = s\<lparr>slave_to_master := q\<rparr> \<and> length q \<le> pty_capacity s"
    using p assms(1) unfolding pty_inv_def by blast
  show "case r of Inl _ \<Rightarrow> slave_to_master s' = slave_to_master s
       | Inr n \<Rightarrow> n \<le> length input \<and> slave_to_master s' = slave_to_master s @ concat (map (output_bytes s) (take n input))"
    using assms p l by (auto simp: write_slave_output_def Let_def split: if_splits)
qed

lemma pty_inv_s2m: "pty_inv s \<Longrightarrow> length q \<le> pty_capacity s \<Longrightarrow> pty_inv (s\<lparr>slave_to_master := q\<rparr>)"
  by (simp add: pty_inv_def)

interpretation pty_out: byte_channel pty_inv slave_to_master output_bytes slave_put master_get
proof
  fix s bs n s'
  assume inv: "pty_inv s" and p: "slave_put bs s = (n, s')"
  obtain r where w: "write_slave_output bs s = (r, s')" and n: "n = (case r of Inl _ \<Rightarrow> 0 | Inr n \<Rightarrow> n)"
    using p by (auto simp: slave_put_def split: prod.splits)
  note props = write_slave_output_props [OF inv w]
  show "pty_inv s' \<and> n \<le> length bs \<and>
      slave_to_master s' = slave_to_master s @ concat (map (output_bytes s) (take n bs)) \<and> output_bytes s' = output_bytes s"
    using props n inv pty_inv_s2m [OF inv] by (auto split: sum.splits)
next
  fix s n out s'
  assume "pty_inv s" and "master_get n s = (out, s')"
  then show "pty_inv s' \<and> slave_to_master s = out @ slave_to_master s' \<and> length out \<le> n \<and> output_bytes s' = output_bytes s"
    by (auto simp: master_get_def read_master_def read_queue_def pty_inv_def Let_def split: if_splits)
qed

text \<open>
  C35: terminal output reaches the master unchanged except for the newline
  translation: after any sequence of slave writes and master reads, the bytes the
  master has read followed by the bytes still queued are the bytes initially
  queued followed by the expansion of the accepted bytes (newline to CR LF when
  OPOST and ONLCR are set).
\<close>

theorem pty_output_stream:
  assumes "pty_inv s" and "channel_run slave_put master_get ops s = (accepted, delivered, s')"
  shows "delivered @ slave_to_master s' = slave_to_master s @ concat (map (output_bytes s) accepted) \<and> pty_inv s'"
  using pty_out.stream [OF assms] by blast

definition demo_pty :: PtyState where
  "demo_pty = (PtyState_new (replicate 4 0 @ [5] @ replicate 55 0) 8)\<lparr>pty_slaves := 1\<rparr>"

theorem pty_output_stream_witness:
  "pty_inv demo_pty \<and>
   (\<exists>s'. channel_run slave_put master_get [Inl [0x61, 0x0a], Inr 8] demo_pty = ([0x61, 0x0a], [0x61, 0x0d, 0x0a], s') \<and>
     [0x61, 0x0d, 0x0a] @ slave_to_master s' =
       slave_to_master demo_pty @ concat (map (output_bytes demo_pty) [0x61, 0x0a]) \<and> pty_inv s')"
proof -
  have inv: "pty_inv demo_pty" by (simp add: pty_inv_def demo_pty_def PtyState_new_def USIZE_MAX_def)
  have t: "translate_newline demo_pty"
    by (simp add: demo_pty_def PtyState_new_def translate_newline_def termios_u32_def u32_from_le_def u32_from_be_def nth_append)
  have f: "slave_to_master demo_pty = []" "pty_capacity demo_pty = 8" "pty_masters demo_pty = 1" "pty_slaves demo_pty = 1"
    by (simp_all add: demo_pty_def PtyState_new_def)
  have "\<exists>s'. channel_run slave_put master_get [Inl [0x61, 0x0a], Inr 8] demo_pty =
      ([0x61, 0x0a], [0x61, 0x0d, 0x0a], s')"
    by (simp add: slave_put_def master_get_def write_slave_output_def read_master_def read_queue_def t
        saturating_add_def USIZE_MAX_def f)
  then show ?thesis using inv pty_output_stream [OF inv] by blast
qed

subsection \<open>Terminal input\<close>

lemma pty_inv_commit: "pty_inv s \<Longrightarrow> pty_inv (commit_line s)"
  by (auto simp: commit_line_def commit_pty_line_eq pty_inv_def)

lemma pty_inv_echo_erase: "pty_inv s \<Longrightarrow> pty_inv (echo_erase s)"
  by (auto simp: echo_erase_def push_pty_output_def pty_inv_def Let_def)

lemma pty_inv_write_slave: "pty_inv s \<Longrightarrow> pty_inv (snd (write_slave_output input s))"
  using write_slave_output_props(1) [of s input] pty_inv_s2m [of s]
  by (metis prod.collapse)

lemma pty_inv_master_byte:
  assumes inv: "pty_inv s" and m: "master_byte raw s = Some (s', sigs)"
  shows "pty_inv s'"
proof -
  have line: "pty_inv (s\<lparr>input_line := l\<rparr>)" if "length l \<le> pty_capacity s" for l
    using inv that by (simp add: pty_inv_def)
  have "length (butlast (input_line s)) \<le> pty_capacity s" using inv by (simp add: pty_inv_def le_diff_conv)
  note erase = line [OF this]
  have push: "pty_inv (s\<lparr>input_line := input_line s @ [b]\<rparr>)" if "length (input_line s) \<noteq> pty_capacity s" for b
    using inv that by (intro line) (simp add: pty_inv_def)
  have raw_push: "pty_inv (s\<lparr>master_to_slave := master_to_slave s @ [b]\<rparr>)"
    if "length (master_to_slave s) \<noteq> pty_capacity s" for b
    using inv that by (simp add: pty_inv_def)
  show ?thesis
    using m inv
    by (auto simp: master_byte_def Let_def split: option.splits if_splits
        intro!: erase push raw_push pty_inv_commit pty_inv_echo_erase pty_inv_write_slave)
qed

lemma pty_inv_master_loop: "pty_inv s \<Longrightarrow> pty_inv (fst (snd (master_loop input s)))"
proof (induction input arbitrary: s)
  case (Cons b input)
  then show ?case
    using pty_inv_master_byte [OF Cons.prems, of b]
    by (auto simp: case_prod_beta Let_def split: option.splits)
qed simp

lemma master_loop_le: "fst (master_loop input s) \<le> length input"
  by (induction input arbitrary: s) (auto simp: case_prod_beta Let_def split: option.splits)

text \<open>
  C36: no queue of a pseudo-terminal ever exceeds its capacity, whatever the
  master writes, and a write never reports more bytes than it was given.
\<close>

theorem pty_input_bounded:
  assumes "pty_inv s" and "write_master_input input s = (r, s', sigs)"
  shows "pty_inv s' \<and> (case r of Inl _ \<Rightarrow> True | Inr n \<Rightarrow> n \<le> length input)"
  using assms pty_inv_master_loop [OF assms(1), of input] master_loop_le [of input s]
  by (auto simp: write_master_input_def case_prod_beta Let_def split: if_splits)

theorem pty_input_bounded_witness:
  "\<exists>r s' sigs. write_master_input [0x61, 0x62] demo_pty = (r, s', sigs) \<and>
     pty_inv s' \<and> (case r of Inl _ \<Rightarrow> True | Inr n \<Rightarrow> n \<le> length [0x61 :: u8, 0x62])"
proof -
  have inv: "pty_inv demo_pty" by (simp add: pty_inv_def demo_pty_def PtyState_new_def USIZE_MAX_def)
  obtain r s' sigs where w: "write_master_input [0x61, 0x62] demo_pty = (r, s', sigs)" by (metis prod_cases3)
  from pty_input_bounded [OF inv w] w show ?thesis by blast
qed

text \<open>
  Canonical mode.  A byte that is neither newline (after ICRNL) nor the end-of-file
  character leaves the reader's queue alone.
\<close>

lemma write_slave_m2s [simp]: "master_to_slave (snd (write_slave_output input s)) = master_to_slave s"
  by (simp add: write_slave_output_def case_prod_beta Let_def)

lemma echo_erase_m2s [simp]: "master_to_slave (echo_erase s) = master_to_slave s"
  by (simp add: echo_erase_def Let_def)



end
