(* ===== verification/Vfs_Base.thy ===== *)
theory Vfs_Base
  imports Paths Pipes "HOL-Library.List_Lexorder"
begin

text \<open>
  The state of the virtual file system (\<open>kernel/src/fs/vfs.rs\<close>) and the helpers its
  operations share: nodes and their data, open handles, mounts, symbolic and hard
  links, the overlay of the root ext2 file system, and the names under \<open>/proc\<close>.

  The disk driver, the terminal, the clock, the generator of the \<open>/proc\<close> texts and
  the ext2 implementation are called through \<open>VOps\<close>; the world they act on is the
  field \<open>v_world\<close>, an ext2 file system the value of a mount.  An operation that
  allocates takes \<open>mem\<close>, the outcome of its allocations in program order; where any
  failed allocation ends in the same error without another effect, one flag stands
  for all of them.  An index expression or slice that panics is the value \<open>None\<close>.
\<close>

section \<open>Types\<close>

definition ascii :: "string \<Rightarrow> bytes" where
  "ascii s = map of_char s"

record BlockDevice =
  start_sector :: nat
  sector_count :: nat

datatype DeviceKind =
    Dev_Null | Dev_Zero | Dev_Random | Dev_URandom | Dev_Console | Dev_Serial
  | Dev_Block BlockDevice | Dev_Keyboard | Dev_Tty | Dev_Ptmx | Dev_PtySlave usize | Dev_Framebuffer

datatype NodeKind = Kind_File | Kind_Directory | Kind_Symlink | Kind_Device DeviceKind

record FileTimestamps =
  created_at :: u64
  modified_at :: u64

datatype FileData = Owned bytes | Static bytes

record Node =
  n_path :: bytes
  n_kind :: NodeKind
  n_metadata :: FileMetadata
  n_timestamps :: FileTimestamps
  n_data :: FileData
  n_link_target :: "usize option"

record OpenRights =
  r_read :: bool
  r_write :: bool

datatype OpenHandle =
    H_Node usize usize OpenRights
  | H_PipeRead usize
  | H_PipeWrite usize
  | H_PtyMaster usize OpenRights
  | H_PtySlave usize OpenRights
  | H_Ext2File bytes usize OpenRights
  | H_Ext2Dir bytes usize

record DirectoryEntry =
  de_name :: bytes
  de_kind :: NodeKind

datatype Ext2Error =
    X_InvalidSuperblock | X_NotFound | X_NotDirectory | X_NotFile | X_AlreadyExists | X_TooManyLinks
  | X_NoSpace | X_DirectoryFull | X_OutOfMemory | X_IoError | X_Unsupported

datatype Ext2NodeKind = X_File | X_Directory | X_Symlink

record Ext2Metadata =
  xm_kind :: Ext2NodeKind
  xm_metadata :: FileMetadata
  xm_size :: nat
  xm_links :: u16
  xm_mtime :: u64

record Ext2Stats =
  xs_block_size :: nat
  xs_blocks_count :: u32
  xs_inodes_count :: u32
  xs_free_blocks_count :: u32
  xs_free_inodes_count :: u32
  xs_groups :: nat

record 'x MountPoint =
  mountpoint :: bytes
  m_ext2 :: "'x option"

record ('x, 'w) Vfs =
  nodes :: "Node list"
  open_files :: "OpenHandle option list"
  open_cap :: usize
  pipes :: "PipeState list"
  ptys :: "PtyState list"
  mounts :: "'x MountPoint list"
  pty_signals :: "(Pid \<times> Signal) list"
  v_world :: 'w

text \<open>
  Calls out of the VFS.  The ext2 calls that take \<open>&self\<close> read the file system and
  the disk; the others return both updated.
\<close>

type_synonym ('x, 'w) ext2_update = "'x \<Rightarrow> 'w \<Rightarrow> (Ext2Error, unit) result \<times> 'x \<times> 'w"

record ('x, 'w) VOps =
  vo_timestamp :: "'w \<Rightarrow> u64 \<times> 'w"
  vo_default_termios :: bytes
  vo_fill_random :: "usize \<Rightarrow> 'w \<Rightarrow> bytes \<times> 'w"
  vo_sector_count :: "'w \<Rightarrow> nat"
  vo_read_sectors :: "nat \<Rightarrow> nat \<Rightarrow> 'w \<Rightarrow> bytes option \<times> 'w"
  vo_blk_read :: "nat \<Rightarrow> usize \<Rightarrow> 'w \<Rightarrow> bytes option \<times> 'w"
  vo_blk_write :: "nat \<Rightarrow> bytes \<Rightarrow> 'w \<Rightarrow> usize option \<times> 'w"
  vo_pop_scancode :: "'w \<Rightarrow> u8 option \<times> 'w"
  vo_tty_read :: "usize \<Rightarrow> 'w \<Rightarrow> bytes \<times> 'w"
  vo_tty_has_data :: "'w \<Rightarrow> bool"
  vo_log_write :: "bytes \<Rightarrow> 'w \<Rightarrow> 'w"
  vo_serial_print :: "bytes \<Rightarrow> 'w \<Rightarrow> 'w"
  vo_fb_write :: "bytes \<Rightarrow> 'w \<Rightarrow> usize \<times> 'w"
  vo_wake_io :: "'w \<Rightarrow> 'w"
  vo_send_pgrp :: "Pid \<Rightarrow> Signal \<Rightarrow> 'w \<Rightarrow> 'w"
  vo_current_pid :: "'w \<Rightarrow> Pid option"
  vo_process_exists :: "Pid \<Rightarrow> 'w \<Rightarrow> bool"
  vo_next_pid_after :: "Pid \<Rightarrow> 'w \<Rightarrow> Pid option"
  vo_proc_text :: "bytes \<Rightarrow> 'w \<Rightarrow> bytes option"
  x_metadata :: "bytes \<Rightarrow> 'x \<Rightarrow> 'w \<Rightarrow> (Ext2Error, Ext2Metadata) result"
  x_lstat :: "bytes \<Rightarrow> 'x \<Rightarrow> 'w \<Rightarrow> (Ext2Error, Ext2Metadata) result"
  x_read_file :: "bytes \<Rightarrow> 'x \<Rightarrow> 'w \<Rightarrow> (Ext2Error, bytes) result"
  x_read_range :: "bytes \<Rightarrow> usize \<Rightarrow> usize \<Rightarrow> 'x \<Rightarrow> 'w \<Rightarrow> (Ext2Error, bytes) result"
  x_list_dir :: "bytes \<Rightarrow> 'x \<Rightarrow> 'w \<Rightarrow> (Ext2Error, bytes list) result"
  x_readlink :: "bytes \<Rightarrow> 'x \<Rightarrow> 'w \<Rightarrow> (Ext2Error, bytes) result"
  x_create_file :: "bytes \<Rightarrow> u32 \<Rightarrow> u32 \<Rightarrow> u16 \<Rightarrow> ('x, 'w) ext2_update"
  x_create_dir :: "bytes \<Rightarrow> u32 \<Rightarrow> u32 \<Rightarrow> u16 \<Rightarrow> ('x, 'w) ext2_update"
  x_truncate :: "bytes \<Rightarrow> ('x, 'w) ext2_update"
  x_write_file :: "bytes \<Rightarrow> bytes \<Rightarrow> ('x, 'w) ext2_update"
  x_rmdir :: "bytes \<Rightarrow> ('x, 'w) ext2_update"
  x_unlink :: "bytes \<Rightarrow> ('x, 'w) ext2_update"
  x_rename :: "bytes \<Rightarrow> bytes \<Rightarrow> ('x, 'w) ext2_update"
  x_symlink :: "bytes \<Rightarrow> bytes \<Rightarrow> u32 \<Rightarrow> u32 \<Rightarrow> ('x, 'w) ext2_update"
  x_link :: "bytes \<Rightarrow> bytes \<Rightarrow> ('x, 'w) ext2_update"
  x_chown :: "bytes \<Rightarrow> u32 \<Rightarrow> u32 \<Rightarrow> ('x, 'w) ext2_update"
  x_chmod :: "bytes \<Rightarrow> u16 \<Rightarrow> ('x, 'w) ext2_update"
  x_set_mtime :: "bytes \<Rightarrow> u64 \<Rightarrow> ('x, 'w) ext2_update"
  x_stats :: "'x \<Rightarrow> Ext2Stats"
  x_mount_at :: "nat \<Rightarrow> 'w \<Rightarrow> (Ext2Error, 'x) result \<times> 'w"

section \<open>File data\<close>

fun as_slice :: "FileData \<Rightarrow> bytes" where
  "as_slice (Owned data) = data"
| "as_slice (Static data) = data"

definition FileData_empty :: FileData where
  "FileData_empty = Owned []"

definition FileData_len :: "FileData \<Rightarrow> usize" where
  "FileData_len d = length (as_slice d)"

fun make_mut :: "bool \<Rightarrow> FileData \<Rightarrow> (VfsError, unit) result \<times> FileData" where
  "make_mut mem (Static data) = (if mem then (Ok (), Owned data) else (Err NoSpace, Static data))"
| "make_mut mem (Owned data) = (Ok (), Owned data)"

definition resize_file_buffer :: "bool \<Rightarrow> bytes \<Rightarrow> usize \<Rightarrow> (VfsError, bytes) result" where
  "resize_file_buffer mem data len =
     (if len \<le> length data then Ok (take len data)
      else if \<not> mem then Err NoSpace
      else Ok (data @ replicate (len - length data) 0))"

definition FileData_resize :: "bool \<Rightarrow> bool \<Rightarrow> usize \<Rightarrow> FileData \<Rightarrow> (VfsError, unit) result \<times> FileData" where
  "FileData_resize mem1 mem2 len d =
     (case make_mut mem1 d of
        (Inl e, d1) \<Rightarrow> (Err e, d1)
      | (Inr _, d1) \<Rightarrow>
          (case resize_file_buffer mem2 (as_slice d1) len of
             Inl e \<Rightarrow> (Err e, d1) | Inr data \<Rightarrow> (Ok (), Owned data)))"

section \<open>Offsets\<close>

definition checked_file_end :: "usize \<Rightarrow> usize \<Rightarrow> (VfsError, usize) result" where
  "checked_file_end off len =
     (case checked_add off len of
        None \<Rightarrow> Err NoSpace
      | Some fin \<Rightarrow> if fin > ISIZE_MAX then Err NoSpace else Ok fin)"

definition checked_seek_offset :: "usize \<Rightarrow> int \<Rightarrow> (VfsError, usize) result" where
  "checked_seek_offset base off =
     (case (if off \<ge> 0 then checked_add base (nat off)
            else if off = - int ISIZE_MAX - 1 then None
            else checked_sub base (nat (- off))) of
        None \<Rightarrow> Err VfsBadFd
      | Some target \<Rightarrow> if target > ISIZE_MAX then Err VfsBadFd else Ok target)"

definition seek_target :: "usize \<Rightarrow> usize \<Rightarrow> int \<Rightarrow> nat \<Rightarrow> (VfsError, usize) result" where
  "seek_target cursor file_size off whence =
     (if whence = 0 then if off < 0 then Err VfsBadFd else Ok (nat off)
      else if whence = 1 then checked_seek_offset cursor off
      else if whence = 2 then checked_seek_offset file_size off
      else Err VfsBadFd)"

section \<open>Names\<close>

definition starts_with :: "bytes \<Rightarrow> bytes \<Rightarrow> bool" where
  "starts_with path p \<longleftrightarrow> take (length p) path = p"

definition ends_with :: "bytes \<Rightarrow> bytes \<Rightarrow> bool" where
  "ends_with path s \<longleftrightarrow> length s \<le> length path \<and> drop (length path - length s) path = s"

definition strip_prefix :: "bytes \<Rightarrow> bytes \<Rightarrow> bytes option" where
  "strip_prefix path p = (if starts_with path p then Some (drop (length p) path) else None)"

definition strip_suffix :: "bytes \<Rightarrow> bytes \<Rightarrow> bytes option" where
  "strip_suffix path s = (if ends_with path s then Some (take (length path - length s) path) else None)"

text \<open>\<open>str::parse::<u64>\<close>: an optional plus sign, at least one digit, no overflow.\<close>

fun parse_digits :: "bytes \<Rightarrow> nat \<Rightarrow> nat option" where
  "parse_digits [] acc = Some acc"
| "parse_digits (c # cs) acc =
     (if 0x30 \<le> c \<and> c \<le> 0x39
      then let acc' = acc * 10 + unat (c - 0x30) in if acc' > USIZE_MAX then None else parse_digits cs acc'
      else None)"

definition parse_u64 :: "bytes \<Rightarrow> nat option" where
  "parse_u64 text =
     (let digits = (case text of c # cs \<Rightarrow> if c = 0x2b then cs else text | [] \<Rightarrow> text)
      in if digits = [] then None else parse_digits digits 0)"

definition try_u64_string :: "bool \<Rightarrow> nat \<Rightarrow> (VfsError, bytes) result" where
  "try_u64_string mem value = (if mem then Ok (push_usize_decimal value) else Err VfsOutOfMemory)"

definition try_pty_slave_path :: "bool \<Rightarrow> usize \<Rightarrow> (VfsError, bytes) result" where
  "try_pty_slave_path mem pty =
     (case try_u64_string mem pty of
        Inl e \<Rightarrow> Err e
      | Inr suffix \<Rightarrow>
          (case checked_add (length PTS_PREFIX) (length suffix) of
             None \<Rightarrow> Err VfsOutOfMemory
           | Some _ \<Rightarrow> if mem then Ok (PTS_PREFIX @ suffix) else Err VfsOutOfMemory))"

definition under :: "string \<Rightarrow> bytes \<Rightarrow> bool" where
  "under dir path \<longleftrightarrow> path = ascii dir \<or> starts_with path (ascii (dir @ ''/''))"

definition use_root_ext2 :: "bytes \<Rightarrow> bool" where
  "use_root_ext2 path \<longleftrightarrow>
     \<not> (under ''/dev'' path \<or> under ''/proc'' path \<or> under ''/tmp'' path \<or> under ''/initrd'' path)"

section \<open>Nodes\<close>

fun canonical_steps :: "nat \<Rightarrow> Node list \<Rightarrow> usize \<Rightarrow> usize" where
  "canonical_steps 0 ns current = current"
| "canonical_steps (Suc n) ns current =
     (case Option.bind (nth_opt ns current) n_link_target of
        None \<Rightarrow> current | Some next \<Rightarrow> canonical_steps n ns next)"

definition canonical_node_index :: "Node list \<Rightarrow> usize \<Rightarrow> usize" where
  "canonical_node_index ns index = canonical_steps 8 ns index"

definition node_at :: "bytes \<Rightarrow> Node list \<Rightarrow> usize option" where
  "node_at path ns = position (\<lambda>n. n_path n = path) ns"

definition node_link_count :: "Node list \<Rightarrow> usize \<Rightarrow> nat" where
  "node_link_count ns target =
     (let target = canonical_node_index ns target in
      max 1 (length (filter (\<lambda>i. n_path (ns ! i) \<noteq> [] \<and> n_kind (ns ! i) = Kind_File \<and>
                                  canonical_node_index ns i = target) [0..<length ns])))"

fun resolve_steps :: "nat \<Rightarrow> bool \<Rightarrow> Node list \<Rightarrow> bytes \<Rightarrow> (VfsError, bytes) result" where
  "resolve_steps 0 mem ns current = Err NotFound"
| "resolve_steps (Suc k) mem ns current =
     (case find (\<lambda>n. n_path n = current) ns of
        None \<Rightarrow> Ok current
      | Some node \<Rightarrow>
          if n_kind node \<noteq> Kind_Symlink then Ok current
          else case from_utf8 (as_slice (n_data node)) of
                 None \<Rightarrow> Err Utf8
               | Some target \<Rightarrow>
                   (case (if starts_with_slash target then normalize_path mem target
                          else case parent_path mem current of
                                 Inl e \<Rightarrow> Err e | Inr parent \<Rightarrow> join_path mem parent target) of
                      Inl e \<Rightarrow> Err e
                    | Inr next \<Rightarrow> resolve_steps k mem ns next))"

definition resolve_symlink_path :: "bool \<Rightarrow> Node list \<Rightarrow> bytes \<Rightarrow> (VfsError, bytes) result" where
  "resolve_symlink_path mem ns path =
     (case normalize_path mem path of Inl e \<Rightarrow> Err e | Inr current \<Rightarrow> resolve_steps 8 mem ns current)"

definition ensure_parent_directory ::
    "Node list \<Rightarrow> bytes \<Rightarrow> (Credentials \<times> Access) option \<Rightarrow> (VfsError, unit) result" where
  "ensure_parent_directory ns path required =
     (if \<not> starts_with_slash path \<or> path = [SLASH] then Err NotFound
      else case rfind_slash path of
             None \<Rightarrow> Err NotFound
           | Some slash \<Rightarrow>
               let parent = (if slash = 0 then [SLASH] else take slash path) in
               case find (\<lambda>n. n_path n = parent) ns of
                 None \<Rightarrow> Err NotFound
               | Some node \<Rightarrow>
                   if n_kind node \<noteq> Kind_Directory then Err NotFile
                   else case required of
                          None \<Rightarrow> Ok ()
                        | Some (creds, access) \<Rightarrow>
                            if can_access (n_metadata node) creds access then Ok () else Err PermissionDenied)"

section \<open>State access\<close>

definition timestamp :: "('x, 'w) VOps \<Rightarrow> ('x, 'w) Vfs \<Rightarrow> u64 \<times> ('x, 'w) Vfs" where
  "timestamp ops v = (let (t, w) = vo_timestamp ops (v_world v) in (t, v\<lparr>v_world := w\<rparr>))"

definition root_ext2 :: "('x, 'w) Vfs \<Rightarrow> 'x option" where
  "root_ext2 v = Option.bind (find (\<lambda>m. mountpoint m = [SLASH]) (mounts v)) m_ext2"

definition set_root_ext2 :: "'x \<Rightarrow> ('x, 'w) Vfs \<Rightarrow> ('x, 'w) Vfs" where
  "set_root_ext2 x v =
     v\<lparr>mounts := update_first (\<lambda>m. mountpoint m = [SLASH]) (\<lambda>m. m\<lparr>m_ext2 := Some x\<rparr>) (mounts v)\<rparr>"

fun map_ext2_error :: "Ext2Error \<Rightarrow> VfsError" where
  "map_ext2_error X_NotFound = NotFound"
| "map_ext2_error X_NotDirectory = NotFile"
| "map_ext2_error X_NotFile = NotFile"
| "map_ext2_error X_AlreadyExists = AlreadyExists"
| "map_ext2_error X_TooManyLinks = TooManyLinks"
| "map_ext2_error X_NoSpace = NoSpace"
| "map_ext2_error X_DirectoryFull = NoSpace"
| "map_ext2_error X_OutOfMemory = VfsOutOfMemory"
| "map_ext2_error X_InvalidSuperblock = VfsBadFd"
| "map_ext2_error X_IoError = VfsBadFd"
| "map_ext2_error X_Unsupported = VfsBadFd"

text \<open>A mutating ext2 call on the root file system, with \<open>map_err(map_ext2_error)\<close>.\<close>

definition ext2_run ::
    "('x, 'w) ext2_update \<Rightarrow> 'x \<Rightarrow> ('x, 'w) Vfs \<Rightarrow> (VfsError, unit) result \<times> ('x, 'w) Vfs" where
  "ext2_run f x v =
     (case f x (v_world v) of
        (Inl e, x', w) \<Rightarrow> (Err (map_ext2_error e), (set_root_ext2 x' v)\<lparr>v_world := w\<rparr>)
      | (Inr _, x', w) \<Rightarrow> (Ok (), (set_root_ext2 x' v)\<lparr>v_world := w\<rparr>))"

text \<open>
  The check on a parent directory made before ext2 is changed: it must be a
  directory the caller may write and (unless only write is asked) search.
\<close>

definition ext2_parent_check ::
    "('x, 'w) VOps \<Rightarrow> bytes \<Rightarrow> Credentials \<Rightarrow> Access list \<Rightarrow> 'x \<Rightarrow> ('x, 'w) Vfs \<Rightarrow> (VfsError, unit) result" where
  "ext2_parent_check ops parent creds accesses x v =
     (case x_metadata ops parent x (v_world v) of
        Inl e \<Rightarrow> Err (map_ext2_error e)
      | Inr m \<Rightarrow>
          if xm_kind m \<noteq> X_Directory then Err NotFile
          else if list_all (can_access (xm_metadata m) creds) accesses then Ok () else Err PermissionDenied)"

section \<open>Names under /proc\<close>

definition proc_status_pid :: "('x, 'w) VOps \<Rightarrow> 'w \<Rightarrow> bytes \<Rightarrow> Pid option" where
  "proc_status_pid ops w path =
     (case strip_prefix path (ascii ''/proc/'') of
        None \<Rightarrow> None
      | Some rest \<Rightarrow>
          (case strip_suffix rest (ascii ''/status'') of
             None \<Rightarrow> None
           | Some pid_text \<Rightarrow> if pid_text = ascii ''self'' then vo_current_pid ops w else parse_u64 pid_text))"

definition proc_process_dir_pid :: "('x, 'w) VOps \<Rightarrow> 'w \<Rightarrow> bytes \<Rightarrow> Pid option" where
  "proc_process_dir_pid ops w path =
     (case strip_prefix path (ascii ''/proc/'') of
        None \<Rightarrow> None
      | Some pid_text \<Rightarrow> if pid_text = ascii ''self'' then vo_current_pid ops w else parse_u64 pid_text)"

definition proc_existing_process_dir_pid :: "('x, 'w) VOps \<Rightarrow> 'w \<Rightarrow> bytes \<Rightarrow> Pid option" where
  "proc_existing_process_dir_pid ops w path =
     (case proc_process_dir_pid ops w path of
        None \<Rightarrow> None | Some pid \<Rightarrow> if vo_process_exists ops pid w then Some pid else None)"

definition proc_files :: "bytes list" where
  "proc_files = map ascii [''/proc/cmdline'', ''/proc/meminfo'', ''/proc/mounts'', ''/proc/stat'',
     ''/proc/uptime'', ''/proc/netinfo'']"

definition proc_virtual_kind :: "('x, 'w) VOps \<Rightarrow> 'w \<Rightarrow> bytes \<Rightarrow> NodeKind option" where
  "proc_virtual_kind ops w path =
     (if path \<in> set proc_files \<or> proc_status_pid ops w path \<noteq> None then Some Kind_File
      else if proc_process_dir_pid ops w path \<noteq> None then Some Kind_Directory
      else None)"

text \<open>\<open>read_proc_text\<close>: the slice \<open>bytes[offset..offset + count]\<close> panics past the end.\<close>

definition read_proc_text :: "bytes \<Rightarrow> usize \<Rightarrow> usize \<Rightarrow> bytes option" where
  "read_proc_text text off n =
     (let count = min (saturating_sub (length text) off) n in
      if off + count \<le> length text then Some (take count (drop off text)) else None)"

section \<open>Open handles\<close>

text \<open>
  \<open>open_cap\<close> is the capacity of the vector of open files: a reservation within it
  needs no allocation, which is what makes the pushes after a reservation succeed.
\<close>

definition reserve_open_handle_slots ::
    "bool \<Rightarrow> usize \<Rightarrow> ('x, 'w) Vfs \<Rightarrow> (VfsError, unit) result \<times> ('x, 'w) Vfs" where
  "reserve_open_handle_slots mem n v =
     (let free_slots = length (filter (\<lambda>slot. slot = None) (open_files v)) in
      if free_slots \<ge> n then (Ok (), v)
      else
        let needed = length (open_files v) + (n - free_slots) in
        if needed \<le> open_cap v then (Ok (), v)
        else if mem then (Ok (), v\<lparr>open_cap := needed\<rparr>)
        else (Err VfsOutOfMemory, v))"

definition install_handle :: "OpenHandle \<Rightarrow> OpenHandle option list \<Rightarrow> usize \<times> OpenHandle option list" where
  "install_handle h slots =
     (case position (\<lambda>slot. slot = None) slots of
        Some fd \<Rightarrow> (fd, slots[fd := Some h])
      | None \<Rightarrow> (length slots, slots @ [Some h]))"

definition push_open_handle ::
    "bool \<Rightarrow> OpenHandle \<Rightarrow> ('x, 'w) Vfs \<Rightarrow> (VfsError, usize) result \<times> ('x, 'w) Vfs" where
  "push_open_handle mem h v =
     (case reserve_open_handle_slots mem 1 v of
        (Inl e, v1) \<Rightarrow> (Err e, v1)
      | (Inr _, v1) \<Rightarrow>
          let (fd, slots) = install_handle h (open_files v1) in (Ok fd, v1\<lparr>open_files := slots\<rparr>))"

definition handle_at :: "('x, 'w) Vfs \<Rightarrow> usize \<Rightarrow> OpenHandle option" where
  "handle_at v fd = Option.bind (nth_opt (open_files v) fd) (\<lambda>slot. slot)"

definition push_node :: "bool \<Rightarrow> Node \<Rightarrow> ('x, 'w) Vfs \<Rightarrow> (VfsError, usize) result \<times> ('x, 'w) Vfs" where
  "push_node mem n v =
     (if \<not> mem then (Err VfsOutOfMemory, v) else (Ok (length (nodes v)), v\<lparr>nodes := nodes v @ [n]\<rparr>))"

definition mk_node :: "bytes \<Rightarrow> NodeKind \<Rightarrow> FileMetadata \<Rightarrow> u64 \<Rightarrow> u64 \<Rightarrow> FileData \<Rightarrow> usize option \<Rightarrow> Node" where
  "mk_node path kind meta created modified data link =
     \<lparr>n_path = path, n_kind = kind, n_metadata = meta,
      n_timestamps = \<lparr>created_at = created, modified_at = modified\<rparr>, n_data = data, n_link_target = link\<rparr>"

end
