(* ===== verification/Vfs_Handles.thy ===== *)
theory Vfs_Handles
  imports Vfs_Base "HOL-Library.Monad_Syntax"
begin

text \<open>
  The operations of the VFS on open handles (\<open>kernel/src/fs/vfs.rs\<close>): pipes and
  pseudo-terminals, duplicate and close, read, write, truncate, seek, poll and the
  terminal settings.  An operation that indexes the node table is an \<open>option\<close>;
  \<open>None\<close> is a panic.
\<close>

section \<open>Pipes, terminals, duplicate and close\<close>

definition upd_pipe ::
    "usize \<Rightarrow> (PipeState \<Rightarrow> PipeState) \<Rightarrow> ('x, 'w) Vfs \<Rightarrow> (VfsError, unit) result \<times> ('x, 'w) Vfs" where
  "upd_pipe i f v =
     (case nth_opt (pipes v) i of
        None \<Rightarrow> (Err VfsBadFd, v) | Some p \<Rightarrow> (Ok (), v\<lparr>pipes := (pipes v)[i := f p]\<rparr>))"

definition upd_pty ::
    "usize \<Rightarrow> (PtyState \<Rightarrow> PtyState) \<Rightarrow> ('x, 'w) Vfs \<Rightarrow> (VfsError, unit) result \<times> ('x, 'w) Vfs" where
  "upd_pty i f v =
     (case nth_opt (ptys v) i of
        None \<Rightarrow> (Err VfsBadFd, v) | Some s \<Rightarrow> (Ok (), v\<lparr>ptys := (ptys v)[i := f s]\<rparr>))"

definition create_pipe ::
    "(nat \<Rightarrow> bool) \<Rightarrow> usize \<Rightarrow> ('x, 'w) Vfs \<Rightarrow> (VfsError, usize \<times> usize) result \<times> ('x, 'w) Vfs" where
  "create_pipe mem capacity v =
     (case reserve_open_handle_slots (mem 0) 2 v of
        (Inl e, v1) \<Rightarrow> (Err e, v1)
      | (Inr _, v1) \<Rightarrow>
          if \<not> mem 1 then (Err VfsOutOfMemory, v1)
          else
            let pipe = length (pipes v1);
                v2 = v1\<lparr>pipes := pipes v1 @ [PipeState_new capacity]\<rparr>
            in case push_open_handle (mem 2) (H_PipeRead pipe) v2 of
                 (Inl e, v3) \<Rightarrow> (Err e, v3)
               | (Inr read_fd, v3) \<Rightarrow>
                   (case push_open_handle (mem 3) (H_PipeWrite pipe) v3 of
                      (Inl e, v4) \<Rightarrow> (Err e, v4)
                    | (Inr write_fd, v4) \<Rightarrow> (Ok (read_fd, write_fd), v4)))"

definition ensure_pty_slave_node ::
    "('x, 'w) VOps \<Rightarrow> (nat \<Rightarrow> bool) \<Rightarrow> usize \<Rightarrow> ('x, 'w) Vfs \<Rightarrow> (VfsError, unit) result \<times> ('x, 'w) Vfs" where
  "ensure_pty_slave_node ops mem pty v =
     (case try_pty_slave_path (mem 0) pty of
        Inl e \<Rightarrow> (Err e, v)
      | Inr path \<Rightarrow>
          if node_at path (nodes v) \<noteq> None then (Ok (), v)
          else if \<not> mem 1 then (Err VfsOutOfMemory, v)
          else
            let (now, v1) = timestamp ops v
            in (Ok (), v1\<lparr>nodes := nodes v1 @
                 [mk_node path (Kind_Device (Dev_PtySlave pty)) (FileMetadata_new 0 0 0x1b6) now now
                    FileData_empty None]\<rparr>))"

definition open_pty_master ::
    "('x, 'w) VOps \<Rightarrow> (nat \<Rightarrow> bool) \<Rightarrow> OpenRights \<Rightarrow> ('x, 'w) Vfs \<Rightarrow> (VfsError, usize) result \<times> ('x, 'w) Vfs" where
  "open_pty_master ops mem rights v =
     (case reserve_open_handle_slots (mem 0) 1 v of
        (Inl e, v1) \<Rightarrow> (Err e, v1)
      | (Inr _, v1) \<Rightarrow>
          if \<not> mem 1 then (Err VfsOutOfMemory, v1)
          else
            let pty = length (ptys v1);
                v2 = v1\<lparr>ptys := ptys v1 @ [PtyState_new (vo_default_termios ops) 4096]\<rparr>
            in case ensure_pty_slave_node ops (\<lambda>i. mem (i + 2)) pty v2 of
                 (Inl e, v3) \<Rightarrow> (Err e, v3\<lparr>ptys := butlast (ptys v3)\<rparr>)
               | (Inr _, v3) \<Rightarrow> push_open_handle (mem 4) (H_PtyMaster pty rights) v3)"

definition open_pty_slave ::
    "(nat \<Rightarrow> bool) \<Rightarrow> usize \<Rightarrow> OpenRights \<Rightarrow> ('x, 'w) Vfs \<Rightarrow> (VfsError, usize) result \<times> ('x, 'w) Vfs" where
  "open_pty_slave mem pty rights v =
     (case nth_opt (ptys v) pty of
        None \<Rightarrow> (Err NotFound, v)
      | Some s \<Rightarrow>
          if pty_locked s then (Err PermissionDenied, v)
          else case reserve_open_handle_slots (mem 0) 1 v of
                 (Inl e, v1) \<Rightarrow> (Err e, v1)
               | (Inr _, v1) \<Rightarrow>
                   push_open_handle (mem 1) (H_PtySlave pty rights) (snd (upd_pty pty add_slave v1)))"

fun retain_handle :: "OpenHandle \<Rightarrow> ('x, 'w) Vfs \<Rightarrow> (VfsError, unit) result \<times> ('x, 'w) Vfs" where
  "retain_handle (H_PipeRead pipe) v = upd_pipe pipe add_reader v"
| "retain_handle (H_PipeWrite pipe) v = upd_pipe pipe add_writer v"
| "retain_handle (H_PtyMaster pty _) v = upd_pty pty add_master v"
| "retain_handle (H_PtySlave pty _) v = upd_pty pty add_slave v"
| "retain_handle (H_Node _ _ _) v = (Ok (), v)"
| "retain_handle (H_Ext2File _ _ _) v = (Ok (), v)"
| "retain_handle (H_Ext2Dir _ _) v = (Ok (), v)"

fun release_handle :: "OpenHandle \<Rightarrow> ('x, 'w) Vfs \<Rightarrow> (VfsError, unit) result \<times> ('x, 'w) Vfs" where
  "release_handle (H_PipeRead pipe) v = upd_pipe pipe close_reader v"
| "release_handle (H_PipeWrite pipe) v = upd_pipe pipe close_writer v"
| "release_handle (H_PtyMaster pty _) v = upd_pty pty close_master v"
| "release_handle (H_PtySlave pty _) v = upd_pty pty close_slave v"
| "release_handle (H_Node _ _ _) v = (Ok (), v)"
| "release_handle (H_Ext2File _ _ _) v = (Ok (), v)"
| "release_handle (H_Ext2Dir _ _) v = (Ok (), v)"

definition duplicate_fd ::
    "(nat \<Rightarrow> bool) \<Rightarrow> usize \<Rightarrow> ('x, 'w) Vfs \<Rightarrow> (VfsError, usize) result \<times> ('x, 'w) Vfs" where
  "duplicate_fd mem fd v =
     (case handle_at v fd of
        None \<Rightarrow> (Err VfsBadFd, v)
      | Some h \<Rightarrow>
          (case reserve_open_handle_slots (mem 0) 1 v of
             (Inl e, v1) \<Rightarrow> (Err e, v1)
           | (Inr _, v1) \<Rightarrow>
               (case retain_handle h v1 of
                  (Inl e, v2) \<Rightarrow> (Err e, v2)
                | (Inr _, v2) \<Rightarrow> push_open_handle (mem 1) h v2)))"

definition close :: "usize \<Rightarrow> ('x, 'w) Vfs \<Rightarrow> (VfsError, unit) result \<times> ('x, 'w) Vfs" where
  "close fd v =
     (case nth_opt (open_files v) fd of
        None \<Rightarrow> (Err VfsBadFd, v)
      | Some None \<Rightarrow> (Err VfsBadFd, v)
      | Some (Some h) \<Rightarrow> release_handle h (v\<lparr>open_files := (open_files v)[fd := None]\<rparr>))"

section \<open>Read\<close>

fun with_offset :: "usize \<Rightarrow> OpenHandle \<Rightarrow> OpenHandle" where
  "with_offset off (H_Node node _ rights) = H_Node node off rights"
| "with_offset off (H_Ext2File path _ rights) = H_Ext2File path off rights"
| "with_offset off (H_Ext2Dir path _) = H_Ext2Dir path off"
| "with_offset off h = h"

definition set_cursor :: "usize \<Rightarrow> usize \<Rightarrow> ('x, 'w) Vfs \<Rightarrow> ('x, 'w) Vfs" where
  "set_cursor fd off v =
     v\<lparr>open_files := (open_files v)[fd := map_option (with_offset off) (open_files v ! fd)]\<rparr>"

definition block_device_len :: "('x, 'w) VOps \<Rightarrow> BlockDevice \<Rightarrow> 'w \<Rightarrow> nat" where
  "block_device_len ops device w =
     (let sectors = (if sector_count device = 0
                     then saturating_sub (vo_sector_count ops w) (start_sector device)
                     else sector_count device)
      in saturating_mul sectors 512)"

definition block_device_read ::
    "('x, 'w) VOps \<Rightarrow> BlockDevice \<Rightarrow> nat \<Rightarrow> usize \<Rightarrow> 'w \<Rightarrow> (VfsError, bytes) result \<times> 'w" where
  "block_device_read ops device off n w =
     (let len = block_device_len ops device w in
      if off \<ge> len then (Ok [], w)
      else
        let n' = min n (len - off);
            absolute = saturating_add (saturating_mul (start_sector device) 512) off
        in case vo_blk_read ops absolute n' w of
             (None, w1) \<Rightarrow> (Err VfsBadFd, w1) | (Some data, w1) \<Rightarrow> (Ok data, w1))"

definition block_device_write ::
    "('x, 'w) VOps \<Rightarrow> BlockDevice \<Rightarrow> nat \<Rightarrow> bytes \<Rightarrow> 'w \<Rightarrow> (VfsError, usize) result \<times> 'w" where
  "block_device_write ops device off input w =
     (let len = block_device_len ops device w in
      if off \<ge> len then (Ok 0, w)
      else
        let n' = min (length input) (len - off);
            absolute = saturating_add (saturating_mul (start_sector device) 512) off
        in case vo_blk_write ops absolute (take n' input) w of
             (None, w1) \<Rightarrow> (Err VfsBadFd, w1) | (Some n, w1) \<Rightarrow> (Ok n, w1))"

fun pop_scancodes :: "('x, 'w) VOps \<Rightarrow> nat \<Rightarrow> 'w \<Rightarrow> bytes \<times> 'w" where
  "pop_scancodes ops 0 w = ([], w)"
| "pop_scancodes ops (Suc n) w =
     (case vo_pop_scancode ops w of
        (None, w1) \<Rightarrow> ([], w1)
      | (Some b, w1) \<Rightarrow> let (bs, w2) = pop_scancodes ops n w1 in (b # bs, w2))"

definition read_device ::
    "('x, 'w) VOps \<Rightarrow> DeviceKind \<Rightarrow> usize \<Rightarrow> usize \<Rightarrow> usize \<Rightarrow> ('x, 'w) Vfs \<Rightarrow> (VfsError, bytes) result \<times> ('x, 'w) Vfs" where
  "read_device ops kind fd off n v =
     (case kind of
        Dev_Null \<Rightarrow> (Ok [], v)
      | Dev_Zero \<Rightarrow> (Ok (replicate n 0), v)
      | Dev_Random \<Rightarrow> (let (bs, w) = vo_fill_random ops n (v_world v) in (Ok bs, v\<lparr>v_world := w\<rparr>))
      | Dev_URandom \<Rightarrow> (let (bs, w) = vo_fill_random ops n (v_world v) in (Ok bs, v\<lparr>v_world := w\<rparr>))
      | Dev_Block device \<Rightarrow>
          (case block_device_read ops device off n (v_world v) of
             (Inl e, w) \<Rightarrow> (Err e, v\<lparr>v_world := w\<rparr>)
           | (Inr bs, w) \<Rightarrow> (Ok bs, set_cursor fd (off + length bs) (v\<lparr>v_world := w\<rparr>)))
      | Dev_Keyboard \<Rightarrow>
          (let (bs, w) = pop_scancodes ops n (v_world v); v1 = v\<lparr>v_world := w\<rparr>
           in if bs = [] \<and> n \<noteq> 0 then (Err VfsWouldBlock, v1) else (Ok bs, v1))
      | Dev_Tty \<Rightarrow> (let (bs, w) = vo_tty_read ops n (v_world v) in (Ok bs, v\<lparr>v_world := w\<rparr>))
      | Dev_Ptmx \<Rightarrow> (Err VfsBadFd, v)
      | Dev_PtySlave _ \<Rightarrow> (Err VfsBadFd, v)
      | Dev_Console \<Rightarrow> (Ok [], v)
      | Dev_Serial \<Rightarrow> (Ok [], v)
      | Dev_Framebuffer \<Rightarrow> (Ok [], v))"

definition read_node ::
    "('x, 'w) VOps \<Rightarrow> usize \<Rightarrow> usize \<Rightarrow> usize \<Rightarrow> OpenRights \<Rightarrow> usize \<Rightarrow> ('x, 'w) Vfs \<Rightarrow>
     ((VfsError, bytes) result \<times> ('x, 'w) Vfs) option" where
  "read_node ops fd node off rights n v =
     (if \<not> r_read rights then Some (Err VfsBadFd, v)
      else do {
        nd \<leftarrow> nth_opt (nodes v) node;
        case vo_proc_text ops (n_path nd) (v_world v) of
          Some text \<Rightarrow> do {
            bs \<leftarrow> read_proc_text text off n;
            Some (Ok bs, set_cursor fd (off + length bs) v)
          }
        | None \<Rightarrow>
            (case n_kind nd of
               Kind_Device kind \<Rightarrow> Some (read_device ops kind fd off n v)
             | Kind_Directory \<Rightarrow> Some (Err NotFile, v)
             | Kind_Symlink \<Rightarrow> Some (Err NotFile, v)
             | Kind_File \<Rightarrow> do {
                 dn \<leftarrow> nth_opt (nodes v) (canonical_node_index (nodes v) node);
                 let data = as_slice (n_data dn) in
                 if off \<ge> length data then Some (Ok [], v)
                 else
                   let bs = take (min (length data - off) n) (drop off data)
                   in Some (Ok bs, set_cursor fd (off + length bs) v)
               })
      })"

text \<open>The wake-up after a transfer of at least one byte.\<close>

definition wake_if :: "('x, 'w) VOps \<Rightarrow> bool \<Rightarrow> ('x, 'w) Vfs \<Rightarrow> ('x, 'w) Vfs" where
  "wake_if ops c v = (if c then v\<lparr>v_world := vo_wake_io ops (v_world v)\<rparr> else v)"

definition read_pipe ::
    "('x, 'w) VOps \<Rightarrow> usize \<Rightarrow> usize \<Rightarrow> ('x, 'w) Vfs \<Rightarrow> (VfsError, bytes) result \<times> ('x, 'w) Vfs" where
  "read_pipe ops pipe n v =
     (case nth_opt (pipes v) pipe of
        None \<Rightarrow> (Err VfsBadFd, v)
      | Some p \<Rightarrow>
          (case pipe_read n p of
             (Inl e, p1) \<Rightarrow> (Err e, v\<lparr>pipes := (pipes v)[pipe := p1]\<rparr>)
           | (Inr bs, p1) \<Rightarrow> (Ok bs, wake_if ops (bs \<noteq> []) (v\<lparr>pipes := (pipes v)[pipe := p1]\<rparr>))))"

definition read_pty ::
    "('x, 'w) VOps \<Rightarrow> (usize \<Rightarrow> PtyState \<Rightarrow> (VfsError, bytes) result \<times> PtyState) \<Rightarrow> usize \<Rightarrow> OpenRights \<Rightarrow> usize \<Rightarrow>
     ('x, 'w) Vfs \<Rightarrow> (VfsError, bytes) result \<times> ('x, 'w) Vfs" where
  "read_pty ops f pty rights n v =
     (if \<not> r_read rights then (Err VfsBadFd, v)
      else case nth_opt (ptys v) pty of
             None \<Rightarrow> (Err VfsBadFd, v)
           | Some s \<Rightarrow>
               (case f n s of
                  (Inl e, s1) \<Rightarrow> (Err e, v\<lparr>ptys := (ptys v)[pty := s1]\<rparr>)
                | (Inr bs, s1) \<Rightarrow> (Ok bs, wake_if ops (bs \<noteq> []) (v\<lparr>ptys := (ptys v)[pty := s1]\<rparr>))))"

definition read ::
    "('x, 'w) VOps \<Rightarrow> usize \<Rightarrow> usize \<Rightarrow> ('x, 'w) Vfs \<Rightarrow> ((VfsError, bytes) result \<times> ('x, 'w) Vfs) option" where
  "read ops fd n v =
     (case handle_at v fd of
        None \<Rightarrow> Some (Err VfsBadFd, v)
      | Some (H_Ext2File path off rights) \<Rightarrow>
          if \<not> r_read rights then Some (Err VfsBadFd, v)
          else (case root_ext2 v of
                  None \<Rightarrow> Some (Err NotFound, v)
                | Some x \<Rightarrow>
                    (case x_read_range ops path off n x (v_world v) of
                       Inl e \<Rightarrow> Some (Err (map_ext2_error e), v)
                     | Inr bs \<Rightarrow> Some (Ok bs, set_cursor fd (off + length bs) v)))
      | Some (H_Node node off rights) \<Rightarrow> read_node ops fd node off rights n v
      | Some (H_PipeRead pipe) \<Rightarrow> Some (read_pipe ops pipe n v)
      | Some (H_PtyMaster pty rights) \<Rightarrow> Some (read_pty ops read_master pty rights n v)
      | Some (H_PtySlave pty rights) \<Rightarrow> Some (read_pty ops read_slave pty rights n v)
      | Some (H_Ext2Dir _ _) \<Rightarrow> Some (Err NotFile, v)
      | Some (H_PipeWrite _) \<Rightarrow> Some (Err VfsBadFd, v))"

section \<open>Write and truncate\<close>

definition write_file_data ::
    "(nat \<Rightarrow> bool) \<Rightarrow> usize \<Rightarrow> bytes \<Rightarrow> FileData \<Rightarrow> (VfsError, usize) result \<times> FileData" where
  "write_file_data mem off input d =
     (case (if off > FileData_len d then FileData_resize (mem 0) (mem 1) off d else (Ok (), d)) of
        (Inl e, d1) \<Rightarrow> (Err e, d1)
      | (Inr _, d1) \<Rightarrow>
          (case checked_file_end off (length input) of
             Inl e \<Rightarrow> (Err e, d1)
           | Inr fin \<Rightarrow>
               (case (if fin > FileData_len d1 then FileData_resize (mem 2) (mem 3) fin d1 else (Ok (), d1)) of
                  (Inl e, d2) \<Rightarrow> (Err e, d2)
                | (Inr _, d2) \<Rightarrow>
                    (case make_mut (mem 4) d2 of
                       (Inl e, d3) \<Rightarrow> (Err e, d3)
                     | (Inr _, d3) \<Rightarrow> (Ok fin, Owned (copy_into (as_slice d3) off input))))))"

definition log_text ::
    "(bytes \<Rightarrow> 'w \<Rightarrow> 'w) \<Rightarrow> bytes \<Rightarrow> ('x, 'w) Vfs \<Rightarrow> (VfsError, usize) result \<times> ('x, 'w) Vfs" where
  "log_text print input v =
     (case from_utf8 input of
        None \<Rightarrow> (Err Utf8, v)
      | Some text \<Rightarrow> (Ok (length input), v\<lparr>v_world := print text (v_world v)\<rparr>))"

definition write_device ::
    "('x, 'w) VOps \<Rightarrow> DeviceKind \<Rightarrow> usize \<Rightarrow> usize \<Rightarrow> bytes \<Rightarrow> ('x, 'w) Vfs \<Rightarrow> (VfsError, usize) result \<times> ('x, 'w) Vfs" where
  "write_device ops kind fd off input v =
     (case kind of
        Dev_Null \<Rightarrow> (Ok (length input), v)
      | Dev_Console \<Rightarrow> log_text (vo_log_write ops) input v
      | Dev_Serial \<Rightarrow> log_text (vo_serial_print ops) input v
      | Dev_Framebuffer \<Rightarrow> (let (n, w) = vo_fb_write ops input (v_world v) in (Ok n, v\<lparr>v_world := w\<rparr>))
      | Dev_Tty \<Rightarrow> log_text (vo_log_write ops) input v
      | Dev_Block device \<Rightarrow>
          (case block_device_write ops device off input (v_world v) of
             (Inl e, w) \<Rightarrow> (Err e, v\<lparr>v_world := w\<rparr>)
           | (Inr n, w) \<Rightarrow> (Ok n, set_cursor fd (off + n) (v\<lparr>v_world := w\<rparr>)))
      | Dev_Zero \<Rightarrow> (Ok (length input), v)
      | Dev_Random \<Rightarrow> (Ok (length input), v)
      | Dev_URandom \<Rightarrow> (Ok (length input), v)
      | Dev_Keyboard \<Rightarrow> (Ok (length input), v)
      | Dev_Ptmx \<Rightarrow> (Err VfsBadFd, v)
      | Dev_PtySlave _ \<Rightarrow> (Err VfsBadFd, v))"

definition upd_node :: "usize \<Rightarrow> (Node \<Rightarrow> Node) \<Rightarrow> ('x, 'w) Vfs \<Rightarrow> ('x, 'w) Vfs" where
  "upd_node i f v = v\<lparr>nodes := (nodes v)[i := f (nodes v ! i)]\<rparr>"

definition touch :: "u64 \<Rightarrow> Node \<Rightarrow> Node" where
  "touch now n = n\<lparr>n_timestamps := (n_timestamps n)\<lparr>modified_at := now\<rparr>\<rparr>"

definition write_node ::
    "('x, 'w) VOps \<Rightarrow> (nat \<Rightarrow> bool) \<Rightarrow> usize \<Rightarrow> usize \<Rightarrow> usize \<Rightarrow> OpenRights \<Rightarrow> bytes \<Rightarrow> ('x, 'w) Vfs \<Rightarrow>
     ((VfsError, usize) result \<times> ('x, 'w) Vfs) option" where
  "write_node ops mem fd node off rights input v =
     (if \<not> r_write rights then Some (Err VfsBadFd, v)
      else do {
        nd \<leftarrow> nth_opt (nodes v) node;
        case n_kind nd of
          Kind_Device kind \<Rightarrow> Some (write_device ops kind fd off input v)
        | Kind_Directory \<Rightarrow> Some (Err NotFile, v)
        | Kind_Symlink \<Rightarrow> Some (Err NotFile, v)
        | Kind_File \<Rightarrow> do {
            let di = canonical_node_index (nodes v) node;
            dn \<leftarrow> nth_opt (nodes v) di;
            case write_file_data mem off input (n_data dn) of
              (Inl e, d) \<Rightarrow> Some (Err e, upd_node di (\<lambda>n. n\<lparr>n_data := d\<rparr>) v)
            | (Inr fin, d) \<Rightarrow>
                let v1 = set_cursor fd fin (upd_node di (\<lambda>n. n\<lparr>n_data := d\<rparr>) v);
                    (now, v2) = timestamp ops v1
                in Some (Ok (length input), upd_node di (touch now) v2)
          }
      })"

definition write_pipe ::
    "('x, 'w) VOps \<Rightarrow> usize \<Rightarrow> bytes \<Rightarrow> ('x, 'w) Vfs \<Rightarrow> (VfsError, usize) result \<times> ('x, 'w) Vfs" where
  "write_pipe ops pipe input v =
     (case nth_opt (pipes v) pipe of
        None \<Rightarrow> (Err VfsBadFd, v)
      | Some p \<Rightarrow>
          (case pipe_write input p of
             (Inl e, p1) \<Rightarrow> (Err e, v\<lparr>pipes := (pipes v)[pipe := p1]\<rparr>)
           | (Inr n, p1) \<Rightarrow> (Ok n, wake_if ops (n > 0) (v\<lparr>pipes := (pipes v)[pipe := p1]\<rparr>))))"

definition write_pty_master ::
    "('x, 'w) VOps \<Rightarrow> usize \<Rightarrow> OpenRights \<Rightarrow> bytes \<Rightarrow> ('x, 'w) Vfs \<Rightarrow> (VfsError, usize) result \<times> ('x, 'w) Vfs" where
  "write_pty_master ops pty rights input v =
     (if \<not> r_write rights then (Err VfsBadFd, v)
      else case nth_opt (ptys v) pty of
             None \<Rightarrow> (Err VfsBadFd, v)
           | Some s \<Rightarrow>
               let (r, s1, sigs) = write_master_input input s;
                   v1 = v\<lparr>ptys := (ptys v)[pty := s1], pty_signals := pty_signals v @ sigs\<rparr>
               in (case r of Inl e \<Rightarrow> (Err e, v1) | Inr n \<Rightarrow> (Ok n, wake_if ops (n > 0) v1)))"

definition write_pty_slave ::
    "('x, 'w) VOps \<Rightarrow> usize \<Rightarrow> OpenRights \<Rightarrow> bytes \<Rightarrow> ('x, 'w) Vfs \<Rightarrow> (VfsError, usize) result \<times> ('x, 'w) Vfs" where
  "write_pty_slave ops pty rights input v =
     (if \<not> r_write rights then (Err VfsBadFd, v)
      else case nth_opt (ptys v) pty of
             None \<Rightarrow> (Err VfsBadFd, v)
           | Some s \<Rightarrow>
               (case write_slave_output input s of
                  (Inl e, s1) \<Rightarrow> (Err e, v\<lparr>ptys := (ptys v)[pty := s1]\<rparr>)
                | (Inr n, s1) \<Rightarrow> (Ok n, wake_if ops (n > 0) (v\<lparr>ptys := (ptys v)[pty := s1]\<rparr>))))"

definition write_ext2 ::
    "('x, 'w) VOps \<Rightarrow> (nat \<Rightarrow> bool) \<Rightarrow> usize \<Rightarrow> bytes \<Rightarrow> usize \<Rightarrow> OpenRights \<Rightarrow> bytes \<Rightarrow> ('x, 'w) Vfs \<Rightarrow>
     (VfsError, usize) result \<times> ('x, 'w) Vfs" where
  "write_ext2 ops mem fd path off rights input v =
     (if \<not> r_write rights then (Err VfsBadFd, v)
      else case root_ext2 v of
             None \<Rightarrow> (Err NotFound, v)
           | Some x \<Rightarrow>
               (case x_read_file ops path x (v_world v) of
                  Inl e \<Rightarrow> (Err (map_ext2_error e), v)
                | Inr data \<Rightarrow>
                    (case (if off > length data then resize_file_buffer (mem 0) data off else Ok data) of
                       Inl e \<Rightarrow> (Err e, v)
                     | Inr data1 \<Rightarrow>
                         (case checked_file_end off (length input) of
                            Inl e \<Rightarrow> (Err e, v)
                          | Inr fin \<Rightarrow>
                              (case (if fin > length data1 then resize_file_buffer (mem 1) data1 fin else Ok data1) of
                                 Inl e \<Rightarrow> (Err e, v)
                               | Inr data2 \<Rightarrow>
                                   (case ext2_run (x_write_file ops path (copy_into data2 off input)) x v of
                                      (Inl e, v1) \<Rightarrow> (Err e, v1)
                                    | (Inr _, v1) \<Rightarrow> (Ok (length input), set_cursor fd fin v1)))))))"

definition vfs_write ::
    "('x, 'w) VOps \<Rightarrow> (nat \<Rightarrow> bool) \<Rightarrow> usize \<Rightarrow> bytes \<Rightarrow> ('x, 'w) Vfs \<Rightarrow>
     ((VfsError, usize) result \<times> ('x, 'w) Vfs) option" where
  "vfs_write ops mem fd input v =
     (case handle_at v fd of
        None \<Rightarrow> Some (Err VfsBadFd, v)
      | Some (H_Ext2File path off rights) \<Rightarrow> Some (write_ext2 ops mem fd path off rights input v)
      | Some (H_Node node off rights) \<Rightarrow> write_node ops mem fd node off rights input v
      | Some (H_PipeWrite pipe) \<Rightarrow> Some (write_pipe ops pipe input v)
      | Some (H_PtyMaster pty rights) \<Rightarrow> Some (write_pty_master ops pty rights input v)
      | Some (H_PtySlave pty rights) \<Rightarrow> Some (write_pty_slave ops pty rights input v)
      | Some (H_Ext2Dir _ _) \<Rightarrow> Some (Err VfsBadFd, v)
      | Some (H_PipeRead _) \<Rightarrow> Some (Err VfsBadFd, v))"

definition deliver_pty_signals :: "('x, 'w) VOps \<Rightarrow> ('x, 'w) Vfs \<Rightarrow> ('x, 'w) Vfs" where
  "deliver_pty_signals ops v =
     v\<lparr>pty_signals := [],
        v_world := fold (\<lambda>(pgrp, sig). vo_send_pgrp ops pgrp sig) (pty_signals v) (v_world v)\<rparr>"

text \<open>The public \<open>write\<close>: the write, then the signals its terminal input caused.\<close>

definition write_and_deliver ::
    "('x, 'w) VOps \<Rightarrow> (nat \<Rightarrow> bool) \<Rightarrow> usize \<Rightarrow> bytes \<Rightarrow> ('x, 'w) Vfs \<Rightarrow>
     ((VfsError, usize) result \<times> ('x, 'w) Vfs) option" where
  "write_and_deliver ops mem fd input v =
     map_option (\<lambda>(r, v1). (r, deliver_pty_signals ops v1)) (vfs_write ops mem fd input v)"

definition truncate_fd ::
    "('x, 'w) VOps \<Rightarrow> (nat \<Rightarrow> bool) \<Rightarrow> usize \<Rightarrow> usize \<Rightarrow> ('x, 'w) Vfs \<Rightarrow>
     ((VfsError, unit) result \<times> ('x, 'w) Vfs) option" where
  "truncate_fd ops mem fd len v =
     (case handle_at v fd of
        Some (H_Ext2File path off rights) \<Rightarrow>
          if \<not> r_write rights then Some (Err VfsBadFd, v)
          else (case root_ext2 v of
                  None \<Rightarrow> Some (Err NotFound, v)
                | Some x \<Rightarrow>
                    (case x_read_file ops path x (v_world v) of
                       Inl e \<Rightarrow> Some (Err (map_ext2_error e), v)
                     | Inr data \<Rightarrow>
                         (case resize_file_buffer (mem 0) data len of
                            Inl e \<Rightarrow> Some (Err e, v)
                          | Inr data1 \<Rightarrow> Some (ext2_run (x_write_file ops path data1) x v))))
      | Some (H_Node node off rights) \<Rightarrow>
          if \<not> r_write rights then Some (Err VfsBadFd, v)
          else do {
            let di = canonical_node_index (nodes v) node;
            dn \<leftarrow> nth_opt (nodes v) di;
            if n_kind dn \<noteq> Kind_File then Some (Err NotFile, v)
            else case FileData_resize (mem 0) (mem 1) len (n_data dn) of
                   (Inl e, d) \<Rightarrow> Some (Err e, upd_node di (\<lambda>n. n\<lparr>n_data := d\<rparr>) v)
                 | (Inr _, d) \<Rightarrow>
                     let (now, v1) = timestamp ops (upd_node di (\<lambda>n. n\<lparr>n_data := d\<rparr>) v)
                     in Some (Ok (), upd_node di (touch now) v1)
          }
      | _ \<Rightarrow> Some (Err VfsBadFd, v))"

section \<open>Seek\<close>

definition lseek_to ::
    "usize \<Rightarrow> usize \<Rightarrow> usize \<Rightarrow> int \<Rightarrow> nat \<Rightarrow> ('x, 'w) Vfs \<Rightarrow> (VfsError, usize) result \<times> ('x, 'w) Vfs" where
  "lseek_to fd cursor file_size off whence v =
     (case seek_target cursor file_size off whence of
        Inl e \<Rightarrow> (Err e, v) | Inr new_offset \<Rightarrow> (Ok new_offset, set_cursor fd new_offset v))"

definition node_size :: "('x, 'w) VOps \<Rightarrow> usize \<Rightarrow> ('x, 'w) Vfs \<Rightarrow> nat option" where
  "node_size ops node v =
     do {
       nd \<leftarrow> nth_opt (nodes v) node;
       case n_kind nd of
         Kind_Device (Dev_Block device) \<Rightarrow> Some (block_device_len ops device (v_world v))
       | _ \<Rightarrow>
           (case vo_proc_text ops (n_path nd) (v_world v) of
              Some text \<Rightarrow> Some (length text)
            | None \<Rightarrow> do {
                dn \<leftarrow> nth_opt (nodes v) (canonical_node_index (nodes v) node);
                Some (FileData_len (n_data dn))
              })
     }"

definition lseek ::
    "('x, 'w) VOps \<Rightarrow> usize \<Rightarrow> int \<Rightarrow> nat \<Rightarrow> ('x, 'w) Vfs \<Rightarrow> ((VfsError, usize) result \<times> ('x, 'w) Vfs) option" where
  "lseek ops fd off whence v =
     (case handle_at v fd of
        None \<Rightarrow> Some (Err VfsBadFd, v)
      | Some (H_Ext2File path cursor _) \<Rightarrow>
          (case root_ext2 v of
             None \<Rightarrow> Some (Err NotFound, v)
           | Some x \<Rightarrow>
               (case x_metadata ops path x (v_world v) of
                  Inl _ \<Rightarrow> Some (Err NotFound, v)
                | Inr m \<Rightarrow> Some (lseek_to fd cursor (xm_size m) off whence v)))
      | Some (H_Ext2Dir path cursor) \<Rightarrow>
          (case root_ext2 v of
             None \<Rightarrow> Some (Err NotFound, v)
           | Some x \<Rightarrow>
               (case x_list_dir ops path x (v_world v) of
                  Inl e \<Rightarrow> Some (Err (map_ext2_error e), v)
                | Inr entries \<Rightarrow> Some (lseek_to fd cursor (length entries) off whence v)))
      | Some (H_Node node cursor _) \<Rightarrow> do {
          sz \<leftarrow> node_size ops node v;
          Some (lseek_to fd cursor sz off whence v)
        }
      | Some (H_PipeRead _) \<Rightarrow> Some (Err VfsBadFd, v)
      | Some (H_PipeWrite _) \<Rightarrow> Some (Err VfsBadFd, v)
      | Some (H_PtyMaster _ _) \<Rightarrow> Some (Err VfsBadFd, v)
      | Some (H_PtySlave _ _) \<Rightarrow> Some (Err VfsBadFd, v))"

section \<open>Status\<close>

datatype StatKind = Stat_File | Stat_Directory | Stat_Symlink | Stat_CharDevice | Stat_Fifo

record Stat =
  st_kind :: StatKind
  st_owner :: u32
  st_group :: u32
  st_mode :: FileMode
  st_size :: nat
  st_nlink :: nat
  st_mtime :: u64

fun stat_kind_from_node :: "NodeKind \<Rightarrow> StatKind" where
  "stat_kind_from_node Kind_File = Stat_File"
| "stat_kind_from_node Kind_Directory = Stat_Directory"
| "stat_kind_from_node Kind_Symlink = Stat_Symlink"
| "stat_kind_from_node (Kind_Device _) = Stat_CharDevice"

fun stat_kind_from_ext2 :: "Ext2NodeKind \<Rightarrow> StatKind" where
  "stat_kind_from_ext2 X_File = Stat_File"
| "stat_kind_from_ext2 X_Directory = Stat_Directory"
| "stat_kind_from_ext2 X_Symlink = Stat_Symlink"

definition stat_of_ext2 :: "Ext2Metadata \<Rightarrow> Stat" where
  "stat_of_ext2 m =
     \<lparr>st_kind = stat_kind_from_ext2 (xm_kind m), st_owner = owner (xm_metadata m), st_group = group (xm_metadata m),
      st_mode = mode (xm_metadata m), st_size = xm_size m, st_nlink = unat (xm_links m), st_mtime = xm_mtime m\<rparr>"

definition stat_of_node :: "Node list \<Rightarrow> usize \<Rightarrow> nat \<Rightarrow> Stat" where
  "stat_of_node ns di file_size =
     (let n = ns ! di in
      \<lparr>st_kind = stat_kind_from_node (n_kind n), st_owner = owner (n_metadata n), st_group = group (n_metadata n),
       st_mode = mode (n_metadata n), st_size = file_size, st_nlink = node_link_count ns di,
       st_mtime = modified_at (n_timestamps n)\<rparr>)"

definition fstat ::
    "('x, 'w) VOps \<Rightarrow> usize \<Rightarrow> ('x, 'w) Vfs \<Rightarrow> ((VfsError, Stat) result \<times> ('x, 'w) Vfs) option" where
  "fstat ops fd v =
     (let ext2_stat = (\<lambda>path. case root_ext2 v of
            None \<Rightarrow> Some (Err NotFound, v)
          | Some x \<Rightarrow>
              (case x_metadata ops path x (v_world v) of
                 Inl e \<Rightarrow> Some (Err (map_ext2_error e), v) | Inr m \<Rightarrow> Some (Ok (stat_of_ext2 m), v)));
          special = (\<lambda>kind m. let (now, v1) = timestamp ops v in
            Some (Ok \<lparr>st_kind = kind, st_owner = 0, st_group = 0, st_mode = FileMode m, st_size = 0,
                      st_nlink = 1, st_mtime = now\<rparr>, v1))
      in case handle_at v fd of
           None \<Rightarrow> Some (Err VfsBadFd, v)
         | Some (H_Node node _ _) \<Rightarrow> do {
             visible \<leftarrow> nth_opt (nodes v) node;
             let di = canonical_node_index (nodes v) node;
             dn \<leftarrow> nth_opt (nodes v) di;
             let sz = (case vo_proc_text ops (n_path visible) (v_world v) of
                         Some text \<Rightarrow> length text
                       | None \<Rightarrow> (case n_kind dn of
                                    Kind_Device (Dev_Block device) \<Rightarrow> block_device_len ops device (v_world v)
                                  | _ \<Rightarrow> FileData_len (n_data dn)));
             Some (Ok (stat_of_node (nodes v) di sz), v)
           }
         | Some (H_Ext2File path _ _) \<Rightarrow> ext2_stat path
         | Some (H_Ext2Dir path _) \<Rightarrow> ext2_stat path
         | Some (H_PtyMaster _ _) \<Rightarrow> special Stat_CharDevice 0x1b6
         | Some (H_PtySlave _ _) \<Rightarrow> special Stat_CharDevice 0x1b6
         | Some (H_PipeRead _) \<Rightarrow> special Stat_Fifo 0x180
         | Some (H_PipeWrite _) \<Rightarrow> special Stat_Fifo 0x180)"

definition fd_path :: "usize \<Rightarrow> ('x, 'w) Vfs \<Rightarrow> (VfsError, bytes) result" where
  "fd_path fd v =
     (case handle_at v fd of
        Some (H_Node node _ _) \<Rightarrow> (case nth_opt (nodes v) node of None \<Rightarrow> Err VfsBadFd | Some n \<Rightarrow> Ok (n_path n))
      | Some (H_Ext2File path _ _) \<Rightarrow> Ok path
      | Some (H_Ext2Dir path _) \<Rightarrow> Ok path
      | _ \<Rightarrow> Err VfsBadFd)"

section \<open>Poll and rights\<close>

record PollReady =
  pr_read :: bool
  pr_write :: bool
  pr_error :: bool
  pr_hangup :: bool

definition ready :: "bool \<Rightarrow> bool \<Rightarrow> PollReady" where
  "ready rd wr = \<lparr>pr_read = rd, pr_write = wr, pr_error = False, pr_hangup = False\<rparr>"

definition poll_node :: "('x, 'w) VOps \<Rightarrow> NodeKind \<Rightarrow> OpenRights \<Rightarrow> 'w \<Rightarrow> PollReady" where
  "poll_node ops kind rights w =
     (case kind of
        Kind_File \<Rightarrow> ready (r_read rights) (r_write rights)
      | Kind_Symlink \<Rightarrow> ready (r_read rights) (r_write rights)
      | Kind_Directory \<Rightarrow> ready (r_read rights) False
      | Kind_Device dev \<Rightarrow>
          (case dev of
             Dev_Null \<Rightarrow> ready True (r_write rights)
           | Dev_Zero \<Rightarrow> ready (r_read rights) (r_write rights)
           | Dev_Random \<Rightarrow> ready (r_read rights) (r_write rights)
           | Dev_URandom \<Rightarrow> ready (r_read rights) (r_write rights)
           | Dev_Block _ \<Rightarrow> ready (r_read rights) (r_write rights)
           | Dev_Console \<Rightarrow> ready False (r_write rights)
           | Dev_Serial \<Rightarrow> ready False (r_write rights)
           | Dev_Keyboard \<Rightarrow> ready False False
           | Dev_Tty \<Rightarrow> ready (vo_tty_has_data ops w) (r_write rights)
           | Dev_Ptmx \<Rightarrow> ready False (r_write rights)
           | Dev_PtySlave _ \<Rightarrow> ready False (r_write rights)
           | Dev_Framebuffer \<Rightarrow> ready False (r_write rights)))"

definition poll_fd :: "('x, 'w) VOps \<Rightarrow> usize \<Rightarrow> ('x, 'w) Vfs \<Rightarrow> (VfsError, PollReady) result" where
  "poll_fd ops fd v =
     (case handle_at v fd of
        None \<Rightarrow> Err VfsBadFd
      | Some (H_Node node _ rights) \<Rightarrow>
          (case nth_opt (nodes v) node of
             None \<Rightarrow> Err VfsBadFd | Some n \<Rightarrow> Ok (poll_node ops (n_kind n) rights (v_world v)))
      | Some (H_Ext2File _ _ rights) \<Rightarrow> Ok (ready (r_read rights) (r_write rights))
      | Some (H_Ext2Dir _ _) \<Rightarrow> Ok (ready True False)
      | Some (H_PipeRead pipe) \<Rightarrow>
          (case nth_opt (pipes v) pipe of
             None \<Rightarrow> Err VfsBadFd
           | Some p \<Rightarrow> Ok \<lparr>pr_read = poll_read p, pr_write = False, pr_error = False,
                           pr_hangup = (pipe_writers p = 0 \<and> pipe_buffer p = [])\<rparr>)
      | Some (H_PipeWrite pipe) \<Rightarrow>
          (case nth_opt (pipes v) pipe of
             None \<Rightarrow> Err VfsBadFd
           | Some p \<Rightarrow> Ok \<lparr>pr_read = False, pr_write = poll_write p, pr_error = (pipe_readers p = 0),
                           pr_hangup = (pipe_readers p = 0)\<rparr>)
      | Some (H_PtyMaster pty rights) \<Rightarrow>
          (case nth_opt (ptys v) pty of
             None \<Rightarrow> Err VfsBadFd
           | Some s \<Rightarrow> Ok \<lparr>pr_read = (r_read rights \<and> (slave_to_master s \<noteq> [] \<or> pty_slaves s = 0)),
                           pr_write = (r_write rights \<and> pty_slaves s > 0 \<and> length (master_to_slave s) < pty_capacity s),
                           pr_error = (pty_slaves s = 0),
                           pr_hangup = (pty_slaves s = 0 \<and> slave_to_master s = [])\<rparr>)
      | Some (H_PtySlave pty rights) \<Rightarrow>
          (case nth_opt (ptys v) pty of
             None \<Rightarrow> Err VfsBadFd
           | Some s \<Rightarrow> Ok \<lparr>pr_read = (r_read rights \<and> (master_to_slave s \<noteq> [] \<or> pty_masters s = 0)),
                           pr_write = (r_write rights \<and> pty_masters s > 0 \<and> length (slave_to_master s) < pty_capacity s),
                           pr_error = (pty_masters s = 0),
                           pr_hangup = (pty_masters s = 0 \<and> master_to_slave s = [])\<rparr>))"

fun handle_rights :: "OpenHandle \<Rightarrow> OpenRights" where
  "handle_rights (H_Node _ _ rights) = rights"
| "handle_rights (H_PtyMaster _ rights) = rights"
| "handle_rights (H_PtySlave _ rights) = rights"
| "handle_rights (H_Ext2File _ _ rights) = rights"
| "handle_rights (H_Ext2Dir _ _) = \<lparr>r_read = True, r_write = False\<rparr>"
| "handle_rights (H_PipeRead _) = \<lparr>r_read = True, r_write = False\<rparr>"
| "handle_rights (H_PipeWrite _) = \<lparr>r_read = False, r_write = True\<rparr>"

definition fd_rights :: "usize \<Rightarrow> ('x, 'w) Vfs \<Rightarrow> (VfsError, OpenRights) result" where
  "fd_rights fd v = (case handle_at v fd of None \<Rightarrow> Err VfsBadFd | Some h \<Rightarrow> Ok (handle_rights h))"

section \<open>Terminals and directories behind a handle\<close>

definition is_kernel_tty_fd :: "usize \<Rightarrow> ('x, 'w) Vfs \<Rightarrow> bool" where
  "is_kernel_tty_fd fd v =
     (case handle_at v fd of
        Some (H_Node node _ _) \<Rightarrow> map_option n_kind (nth_opt (nodes v) node) = Some (Kind_Device Dev_Tty)
      | _ \<Rightarrow> False)"

definition is_tty_fd :: "usize \<Rightarrow> ('x, 'w) Vfs \<Rightarrow> bool" where
  "is_tty_fd fd v =
     (case handle_at v fd of
        Some (H_Node node _ _) \<Rightarrow> map_option n_kind (nth_opt (nodes v) node) = Some (Kind_Device Dev_Tty)
      | Some (H_PtyMaster _ _) \<Rightarrow> True
      | Some (H_PtySlave _ _) \<Rightarrow> True
      | _ \<Rightarrow> False)"

definition pty_number :: "usize \<Rightarrow> ('x, 'w) Vfs \<Rightarrow> usize option" where
  "pty_number fd v =
     (case handle_at v fd of
        Some (H_PtyMaster pty _) \<Rightarrow> Some pty
      | Some (H_PtySlave pty _) \<Rightarrow> Some pty
      | _ \<Rightarrow> None)"

definition block_device_size :: "('x, 'w) VOps \<Rightarrow> usize \<Rightarrow> ('x, 'w) Vfs \<Rightarrow> nat option" where
  "block_device_size ops fd v =
     (case handle_at v fd of
        Some (H_Node node _ _) \<Rightarrow>
          (case map_option n_kind (nth_opt (nodes v) node) of
             Some (Kind_Device (Dev_Block device)) \<Rightarrow> Some (block_device_len ops device (v_world v))
           | _ \<Rightarrow> None)
      | _ \<Rightarrow> None)"

definition on_pty ::
    "usize \<Rightarrow> (PtyState \<Rightarrow> PtyState) \<Rightarrow> ('x, 'w) Vfs \<Rightarrow> (VfsError, unit) result \<times> ('x, 'w) Vfs" where
  "on_pty fd f v = (case pty_number fd v of None \<Rightarrow> (Err VfsBadFd, v) | Some pty \<Rightarrow> upd_pty pty f v)"

definition of_pty :: "usize \<Rightarrow> (PtyState \<Rightarrow> 'a) \<Rightarrow> ('x, 'w) Vfs \<Rightarrow> (VfsError, 'a) result" where
  "of_pty fd f v =
     (case Option.bind (pty_number fd v) (nth_opt (ptys v)) of None \<Rightarrow> Err VfsBadFd | Some s \<Rightarrow> Ok (f s))"

definition set_pty_locked :: "usize \<Rightarrow> bool \<Rightarrow> ('x, 'w) Vfs \<Rightarrow> (VfsError, unit) result \<times> ('x, 'w) Vfs" where
  "set_pty_locked fd locked v = on_pty fd (\<lambda>s. s\<lparr>pty_locked := locked\<rparr>) v"

definition pty_termios_bytes :: "usize \<Rightarrow> ('x, 'w) Vfs \<Rightarrow> (VfsError, bytes) result" where
  "pty_termios_bytes fd v = of_pty fd pty_termios v"

definition set_pty_termios_bytes ::
    "usize \<Rightarrow> bytes \<Rightarrow> ('x, 'w) Vfs \<Rightarrow> (VfsError, unit) result \<times> ('x, 'w) Vfs" where
  "set_pty_termios_bytes fd bs v =
     (if length bs < TERMIOS_SIZE then (Err VfsBadFd, v)
      else on_pty fd (\<lambda>s. s\<lparr>pty_termios := take TERMIOS_SIZE bs\<rparr>) v)"

definition get_pty_winsize :: "usize \<Rightarrow> ('x, 'w) Vfs \<Rightarrow> (VfsError, bytes) result" where
  "get_pty_winsize fd v = of_pty fd pty_winsize v"

definition set_pty_winsize ::
    "usize \<Rightarrow> bytes \<Rightarrow> ('x, 'w) Vfs \<Rightarrow> (VfsError, unit) result \<times> ('x, 'w) Vfs" where
  "set_pty_winsize fd bs v =
     (if length bs < 8 then (Err VfsBadFd, v) else on_pty fd (\<lambda>s. s\<lparr>pty_winsize := take 8 bs\<rparr>) v)"

definition pty_foreground_pgrp :: "usize \<Rightarrow> ('x, 'w) Vfs \<Rightarrow> (VfsError, Pid) result" where
  "pty_foreground_pgrp fd v = of_pty fd foreground_pgrp v"

definition set_pty_foreground_pgrp ::
    "usize \<Rightarrow> Pid \<Rightarrow> ('x, 'w) Vfs \<Rightarrow> (VfsError, unit) result \<times> ('x, 'w) Vfs" where
  "set_pty_foreground_pgrp fd pgrp v = on_pty fd (\<lambda>s. s\<lparr>foreground_pgrp := pgrp\<rparr>) v"

definition set_directory_offset ::
    "usize \<Rightarrow> usize \<Rightarrow> ('x, 'w) Vfs \<Rightarrow> (VfsError, unit) result \<times> ('x, 'w) Vfs" where
  "set_directory_offset fd off v =
     (case handle_at v fd of
        None \<Rightarrow> (Err VfsBadFd, v)
      | Some (H_Node node _ _) \<Rightarrow>
          if map_option n_kind (nth_opt (nodes v) node) \<noteq> Some Kind_Directory then (Err NotFile, v)
          else (Ok (), set_cursor fd off v)
      | Some (H_Ext2Dir _ _) \<Rightarrow> (Ok (), set_cursor fd off v)
      | _ \<Rightarrow> (Err NotFile, v))"

end
