(* ===== verification/Vfs_Namespace.thy ===== *)
theory Vfs_Namespace
  imports Vfs_Handles
begin

text \<open>
  The operations of the VFS on names (\<open>kernel/src/fs/vfs.rs\<close>): create, open, make and
  remove directories, unlink, rename, symbolic and hard links, ownership, mode and
  times, status by path, directory listings, mounting and the initial tree.  Names
  outside \<open>/dev\<close>, \<open>/proc\<close>, \<open>/tmp\<close> and \<open>/initrd\<close> belong to the ext2 file system
  mounted at the root, when there is one.
\<close>

section \<open>Create and open\<close>

definition rights_rw :: OpenRights where
  "rights_rw = \<lparr>r_read = True, r_write = True\<rparr>"

text \<open>The root ext2 file system when it is mounted and owns the path.\<close>

definition ext2_for :: "bytes \<Rightarrow> ('x, 'w) Vfs \<Rightarrow> 'x option" where
  "ext2_for path v = (if use_root_ext2 path then root_ext2 v else None)"

definition create_ext2 ::
    "('x, 'w) VOps \<Rightarrow> (nat \<Rightarrow> bool) \<Rightarrow> bytes \<Rightarrow> Credentials \<Rightarrow> u16 \<Rightarrow> 'x \<Rightarrow> ('x, 'w) Vfs \<Rightarrow>
     (VfsError, usize) result \<times> ('x, 'w) Vfs" where
  "create_ext2 ops mem path creds md x v =
     (case (case x_metadata ops path x (v_world v) of
              Inr m \<Rightarrow>
                if xm_kind m \<noteq> X_File then (Err NotFile, v)
                else if \<not> can_access (xm_metadata m) creds Write then (Err PermissionDenied, v)
                else ext2_run (x_truncate ops path) x v
            | Inl X_NotFound \<Rightarrow>
                (case parent_path (mem 0) path of
                   Inl e \<Rightarrow> (Err e, v)
                 | Inr parent \<Rightarrow>
                     (case ext2_parent_check ops parent creds [Write] x v of
                        Inl e \<Rightarrow> (Err e, v)
                      | Inr _ \<Rightarrow> ext2_run (x_create_file ops path (euid creds) (egid creds) md) x v))
            | Inl e \<Rightarrow> (Err (map_ext2_error e), v)) of
        (Inl e, v1) \<Rightarrow> (Err e, v1)
      | (Inr _, v1) \<Rightarrow>
          if mem 1 then push_open_handle (mem 2) (H_Ext2File path 0 rights_rw) v1
          else (Err VfsOutOfMemory, v1))"

definition create_node ::
    "('x, 'w) VOps \<Rightarrow> (nat \<Rightarrow> bool) \<Rightarrow> bytes \<Rightarrow> Credentials \<Rightarrow> u16 \<Rightarrow> ('x, 'w) Vfs \<Rightarrow>
     ((VfsError, usize) result \<times> ('x, 'w) Vfs) option" where
  "create_node ops mem path creds md v =
     (case ensure_parent_directory (nodes v) path (Some (creds, Write)) of
        Inl e \<Rightarrow> Some (Err e, v)
      | Inr _ \<Rightarrow>
          (case node_at path (nodes v) of
             Some node \<Rightarrow> do {
               let target = canonical_node_index (nodes v) node;
               tn \<leftarrow> nth_opt (nodes v) target;
               if n_kind tn \<noteq> Kind_File then Some (Err NotFile, v)
               else if \<not> can_access (n_metadata tn) creds Write then Some (Err PermissionDenied, v)
               else
                 let (now, v1) = timestamp ops (upd_node target (\<lambda>n. n\<lparr>n_data := FileData_empty\<rparr>) v)
                 in Some (push_open_handle (mem 0) (H_Node node 0 rights_rw) (upd_node target (touch now) v1))
             }
           | None \<Rightarrow>
               let (now, v1) = timestamp ops v in
               case reserve_open_handle_slots (mem 0) 1 v1 of
                 (Inl e, v2) \<Rightarrow> Some (Err e, v2)
               | (Inr _, v2) \<Rightarrow>
                   if \<not> mem 1 then Some (Err VfsOutOfMemory, v2)
                   else (case push_node (mem 2) (mk_node path Kind_File
                                (FileMetadata_new (euid creds) (egid creds) md) now now FileData_empty None) v2 of
                           (Inl e, v3) \<Rightarrow> Some (Err e, v3)
                         | (Inr node, v3) \<Rightarrow> Some (push_open_handle (mem 3) (H_Node node 0 rights_rw) v3))))"

definition create_file_with_mode_as ::
    "('x, 'w) VOps \<Rightarrow> (nat \<Rightarrow> bool) \<Rightarrow> bytes \<Rightarrow> Credentials \<Rightarrow> u16 \<Rightarrow> ('x, 'w) Vfs \<Rightarrow>
     ((VfsError, usize) result \<times> ('x, 'w) Vfs) option" where
  "create_file_with_mode_as ops mem path creds md v =
     (case normalize_path (mem 0) path of
        Inl e \<Rightarrow> Some (Err e, v)
      | Inr path \<Rightarrow>
          let md = md AND 0xfff in
          (case ext2_for path v of
             Some x \<Rightarrow> Some (create_ext2 ops (\<lambda>i. mem (i + 1)) path creds md x v)
           | None \<Rightarrow> create_node ops (\<lambda>i. mem (i + 1)) path creds md v))"

definition open_node ::
    "('x, 'w) VOps \<Rightarrow> (nat \<Rightarrow> bool) \<Rightarrow> usize \<Rightarrow> Credentials \<Rightarrow> OpenRights \<Rightarrow> ('x, 'w) Vfs \<Rightarrow>
     ((VfsError, usize) result \<times> ('x, 'w) Vfs) option" where
  "open_node ops mem node creds rights v =
     do {
       nd \<leftarrow> nth_opt (nodes v) node;
       mn \<leftarrow> nth_opt (nodes v) (canonical_node_index (nodes v) node);
       if n_kind nd = Kind_Directory \<and> r_write rights then Some (Err NotFile, v)
       else if r_read rights \<and> \<not> can_access (n_metadata mn) creds Read then Some (Err PermissionDenied, v)
       else if r_write rights \<and> \<not> can_access (n_metadata mn) creds Write then Some (Err PermissionDenied, v)
       else case n_kind nd of
              Kind_Device Dev_Ptmx \<Rightarrow> Some (open_pty_master ops mem rights v)
            | Kind_Device (Dev_PtySlave pty) \<Rightarrow> Some (open_pty_slave mem pty rights v)
            | _ \<Rightarrow> Some (push_open_handle (mem 0) (H_Node node 0 rights) v)
     }"

definition open_ext2 ::
    "('x, 'w) VOps \<Rightarrow> (nat \<Rightarrow> bool) \<Rightarrow> bytes \<Rightarrow> Credentials \<Rightarrow> OpenRights \<Rightarrow> 'x \<Rightarrow> ('x, 'w) Vfs \<Rightarrow>
     (VfsError, usize) result \<times> ('x, 'w) Vfs" where
  "open_ext2 ops mem path creds rights x v =
     (case x_metadata ops path x (v_world v) of
        Inl _ \<Rightarrow> (Err NotFound, v)
      | Inr m \<Rightarrow>
          if xm_kind m = X_Directory
          then
            if r_write rights then (Err NotFile, v)
            else if r_read rights \<and> \<not> can_access (xm_metadata m) creds Read then (Err PermissionDenied, v)
            else if \<not> mem 0 then (Err VfsOutOfMemory, v)
            else push_open_handle (mem 1) (H_Ext2Dir path 0) v
          else if r_read rights \<and> \<not> can_access (xm_metadata m) creds Read then (Err PermissionDenied, v)
          else if r_write rights \<and> \<not> can_access (xm_metadata m) creds Write then (Err PermissionDenied, v)
          else if \<not> mem 0 then (Err VfsOutOfMemory, v)
          else push_open_handle (mem 1) (H_Ext2File path 0 rights) v)"

definition open_as ::
    "('x, 'w) VOps \<Rightarrow> (nat \<Rightarrow> bool) \<Rightarrow> bytes \<Rightarrow> Credentials \<Rightarrow> OpenRights \<Rightarrow> ('x, 'w) Vfs \<Rightarrow>
     ((VfsError, usize) result \<times> ('x, 'w) Vfs) option" where
  "open_as ops mem path creds rights v =
     (case resolve_symlink_path (mem 0) (nodes v) path of
        Inl e \<Rightarrow> Some (Err e, v)
      | Inr path \<Rightarrow>
          (case node_at path (nodes v) of
             Some node \<Rightarrow> open_node ops (\<lambda>i. mem (i + 4)) node creds rights v
           | None \<Rightarrow>
               (case proc_virtual_kind ops (v_world v) path of
                  Some kind \<Rightarrow>
                    (case reserve_open_handle_slots (mem 1) 1 v of
                       (Inl e, v1) \<Rightarrow> Some (Err e, v1)
                     | (Inr _, v1) \<Rightarrow>
                         if \<not> mem 2 then Some (Err VfsOutOfMemory, v1)
                         else
                           let (created, v2) = timestamp ops v1;
                               (modified, v3) = timestamp ops v2
                           in case push_node (mem 3) (mk_node path kind
                                     (FileMetadata_new 0 0 (if kind = Kind_Directory then 0x16d else 0x124))
                                     created modified FileData_empty None) v3 of
                                (Inl e, v4) \<Rightarrow> Some (Err e, v4)
                              | (Inr node, v4) \<Rightarrow> open_node ops (\<lambda>i. mem (i + 4)) node creds rights v4)
                | None \<Rightarrow>
                    (case ext2_for path v of
                       Some x \<Rightarrow> Some (open_ext2 ops (\<lambda>i. mem (i + 1)) path creds rights x v)
                     | None \<Rightarrow> Some (Err NotFound, v)))))"

section \<open>Directories, unlink and rename\<close>

definition add_node ::
    "('x, 'w) VOps \<Rightarrow> (nat \<Rightarrow> bool) \<Rightarrow> (u64 \<Rightarrow> Node) \<Rightarrow> ('x, 'w) Vfs \<Rightarrow> (VfsError, unit) result \<times> ('x, 'w) Vfs" where
  "add_node ops mem mk v =
     (let (now, v1) = timestamp ops v in
      if \<not> mem 0 then (Err VfsOutOfMemory, v1)
      else case push_node (mem 1) (mk now) v1 of
             (Inl e, v2) \<Rightarrow> (Err e, v2) | (Inr _, v2) \<Rightarrow> (Ok (), v2))"

definition mkdir_with_mode_as ::
    "('x, 'w) VOps \<Rightarrow> (nat \<Rightarrow> bool) \<Rightarrow> bytes \<Rightarrow> Credentials \<Rightarrow> u16 \<Rightarrow> ('x, 'w) Vfs \<Rightarrow>
     (VfsError, unit) result \<times> ('x, 'w) Vfs" where
  "mkdir_with_mode_as ops mem path creds md v =
     (case normalize_path (mem 0) path of
        Inl e \<Rightarrow> (Err e, v)
      | Inr path \<Rightarrow>
          (case (if use_root_ext2 path then parent_path (mem 1) path else Ok []) of
             Inl e \<Rightarrow> (Err e, v)
           | Inr parent \<Rightarrow>
               (case ext2_for path v of
                  Some x \<Rightarrow>
                    (case x_metadata ops path x (v_world v) of
                       Inr _ \<Rightarrow> (Err AlreadyExists, v)
                     | Inl _ \<Rightarrow>
                         (case ext2_parent_check ops parent creds [Write, Execute] x v of
                            Inl e \<Rightarrow> (Err e, v)
                          | Inr _ \<Rightarrow> ext2_run (x_create_dir ops path (euid creds) (egid creds) md) x v))
                | None \<Rightarrow>
                    if node_at path (nodes v) \<noteq> None then (Err AlreadyExists, v)
                    else case ensure_parent_directory (nodes v) path (Some (creds, Write)) of
                           Inl e \<Rightarrow> (Err e, v)
                         | Inr _ \<Rightarrow>
                             add_node ops (\<lambda>i. mem (i + 2)) (\<lambda>now. mk_node path Kind_Directory
                               (FileMetadata_new (euid creds) (egid creds) (md AND 0xfff)) now now
                               FileData_empty None) v)))"

fun rmdir_scan :: "bool \<Rightarrow> bytes \<Rightarrow> Node list \<Rightarrow> (VfsError, unit) result" where
  "rmdir_scan mem path [] = Ok ()"
| "rmdir_scan mem path (n # ns) =
     (if n_path n = [] \<or> n_path n = path then rmdir_scan mem path ns
      else case parent_path mem (n_path n) of
             Inl e \<Rightarrow> Err e
           | Inr parent \<Rightarrow> if parent = path then Err PermissionDenied else rmdir_scan mem path ns)"

definition rmdir_as ::
    "('x, 'w) VOps \<Rightarrow> (nat \<Rightarrow> bool) \<Rightarrow> bytes \<Rightarrow> Credentials \<Rightarrow> ('x, 'w) Vfs \<Rightarrow>
     ((VfsError, unit) result \<times> ('x, 'w) Vfs) option" where
  "rmdir_as ops mem path creds v =
     (case normalize_path (mem 0) path of
        Inl e \<Rightarrow> Some (Err e, v)
      | Inr path \<Rightarrow>
          if path = [SLASH] then Some (Err PermissionDenied, v)
          else case (if use_root_ext2 path then parent_path (mem 1) path else Ok []) of
                 Inl e \<Rightarrow> Some (Err e, v)
               | Inr parent \<Rightarrow>
                   (case ext2_for path v of
                      Some x \<Rightarrow>
                        (case ext2_parent_check ops parent creds [Write, Execute] x v of
                           Inl e \<Rightarrow> Some (Err e, v) | Inr _ \<Rightarrow> Some (ext2_run (x_rmdir ops path) x v))
                    | None \<Rightarrow>
                        (case ensure_parent_directory (nodes v) path (Some (creds, Write)) of
                           Inl e \<Rightarrow> Some (Err e, v)
                         | Inr _ \<Rightarrow>
                             (case rmdir_scan (mem 2) path (nodes v) of
                                Inl e \<Rightarrow> Some (Err e, v)
                              | Inr _ \<Rightarrow>
                                  (case node_at path (nodes v) of
                                     None \<Rightarrow> Some (Err NotFound, v)
                                   | Some node \<Rightarrow> do {
                                       let target = canonical_node_index (nodes v) node;
                                       tn \<leftarrow> nth_opt (nodes v) target;
                                       if n_kind tn \<noteq> Kind_Directory then Some (Err NotFile, v)
                                       else Some (Ok (), upd_node target (\<lambda>n. n\<lparr>n_path := []\<rparr>) v)
                                     })))))"

fun is_device :: "NodeKind \<Rightarrow> bool" where
  "is_device (Kind_Device _) = True"
| "is_device _ = False"

definition unlink_as ::
    "('x, 'w) VOps \<Rightarrow> (nat \<Rightarrow> bool) \<Rightarrow> bytes \<Rightarrow> Credentials \<Rightarrow> ('x, 'w) Vfs \<Rightarrow> (VfsError, unit) result \<times> ('x, 'w) Vfs" where
  "unlink_as ops mem path creds v =
     (case normalize_path (mem 0) path of
        Inl e \<Rightarrow> (Err e, v)
      | Inr path \<Rightarrow>
          (case (if use_root_ext2 path then parent_path (mem 1) path else Ok []) of
             Inl e \<Rightarrow> (Err e, v)
           | Inr parent \<Rightarrow>
               (case ext2_for path v of
                  Some x \<Rightarrow>
                    (case ext2_parent_check ops parent creds [Write, Execute] x v of
                       Inl e \<Rightarrow> (Err e, v) | Inr _ \<Rightarrow> ext2_run (x_unlink ops path) x v)
                | None \<Rightarrow>
                    (case ensure_parent_directory (nodes v) path (Some (creds, Write)) of
                       Inl e \<Rightarrow> (Err e, v)
                     | Inr _ \<Rightarrow>
                         (case node_at path (nodes v) of
                            None \<Rightarrow> (Err NotFound, v)
                          | Some node \<Rightarrow>
                              if n_kind (nodes v ! node) = Kind_Directory \<or> is_device (n_kind (nodes v ! node))
                              then (Err NotFile, v)
                              else (Ok (), upd_node node (\<lambda>n. n\<lparr>n_path := []\<rparr>) v))))))"

text \<open>
  The rewrites of \<open>rename\<close>: the new path of every node below the old one, the node
  that is about to be replaced excepted.
\<close>

fun child_rewrites :: "bool \<Rightarrow> bytes \<Rightarrow> bytes \<Rightarrow> usize option \<Rightarrow> usize \<Rightarrow> Node list \<Rightarrow> (VfsError, (usize \<times> bytes) list) result" where
  "child_rewrites mem old_prefix new_prefix replaced index [] = Ok []"
| "child_rewrites mem old_prefix new_prefix replaced index (n # ns) =
     (if Some index = replaced \<or> \<not> starts_with (n_path n) old_prefix
      then child_rewrites mem old_prefix new_prefix replaced (Suc index) ns
      else case replace_path_prefix mem (n_path n) old_prefix new_prefix of
             Inl e \<Rightarrow> Err e
           | Inr rewritten \<Rightarrow>
               (case child_rewrites mem old_prefix new_prefix replaced (Suc index) ns of
                  Inl e \<Rightarrow> Err e | Inr rest \<Rightarrow> Ok ((index, rewritten) # rest)))"

definition set_path :: "usize \<times> bytes \<Rightarrow> ('x, 'w) Vfs \<Rightarrow> ('x, 'w) Vfs" where
  "set_path = (\<lambda>(i, p). upd_node i (\<lambda>n. n\<lparr>n_path := p\<rparr>))"

definition rename_nodes ::
    "(nat \<Rightarrow> bool) \<Rightarrow> bytes \<Rightarrow> bytes \<Rightarrow> Credentials \<Rightarrow> ('x, 'w) Vfs \<Rightarrow> (VfsError, unit) result \<times> ('x, 'w) Vfs" where
  "rename_nodes mem old_path new_path creds v =
     (case ensure_parent_directory (nodes v) old_path (Some (creds, Write)) of
        Inl e \<Rightarrow> (Err e, v)
      | Inr _ \<Rightarrow>
          (case ensure_parent_directory (nodes v) new_path (Some (creds, Write)) of
             Inl e \<Rightarrow> (Err e, v)
           | Inr _ \<Rightarrow>
               (case node_at old_path (nodes v) of
                  None \<Rightarrow> (Err NotFound, v)
                | Some old_index \<Rightarrow>
                    let replaced = (case node_at new_path (nodes v) of
                                      None \<Rightarrow> None | Some i \<Rightarrow> if i = old_index then None else Some i)
                    in case child_path_prefix (mem 0) old_path of
                         Inl e \<Rightarrow> (Err e, v)
                       | Inr old_prefix \<Rightarrow>
                           (case child_path_prefix (mem 1) new_path of
                              Inl e \<Rightarrow> (Err e, v)
                            | Inr new_prefix \<Rightarrow>
                                if \<not> mem 2 then (Err VfsOutOfMemory, v)
                                else case child_rewrites (mem 3) old_prefix new_prefix replaced 0 (nodes v) of
                                       Inl e \<Rightarrow> (Err e, v)
                                     | Inr rewrites \<Rightarrow>
                                         let v1 = (case replaced of None \<Rightarrow> v | Some i \<Rightarrow> set_path (i, []) v);
                                             v2 = set_path (old_index, new_path) v1
                                         in (Ok (), fold set_path rewrites v2)))))"

definition rename_as ::
    "('x, 'w) VOps \<Rightarrow> (nat \<Rightarrow> bool) \<Rightarrow> bytes \<Rightarrow> bytes \<Rightarrow> Credentials \<Rightarrow> ('x, 'w) Vfs \<Rightarrow>
     (VfsError, unit) result \<times> ('x, 'w) Vfs" where
  "rename_as ops mem old_path new_path creds v =
     (case normalize_path (mem 0) old_path of
        Inl e \<Rightarrow> (Err e, v)
      | Inr old_path \<Rightarrow>
          (case normalize_path (mem 1) new_path of
             Inl e \<Rightarrow> (Err e, v)
           | Inr new_path \<Rightarrow>
               if old_path = [SLASH] \<or> new_path = [SLASH] then (Err PermissionDenied, v)
               else if use_root_ext2 old_path \<noteq> use_root_ext2 new_path then (Err NotFound, v)
               else if \<not> use_root_ext2 old_path then rename_nodes (\<lambda>i. mem (i + 4)) old_path new_path creds v
               else case parent_path (mem 2) old_path of
                      Inl e \<Rightarrow> (Err e, v)
                    | Inr old_parent \<Rightarrow>
                        (case parent_path (mem 3) new_path of
                           Inl e \<Rightarrow> (Err e, v)
                         | Inr new_parent \<Rightarrow>
                             (case root_ext2 v of
                                None \<Rightarrow> rename_nodes (\<lambda>i. mem (i + 4)) old_path new_path creds v
                              | Some x \<Rightarrow>
                                  (case x_metadata ops old_parent x (v_world v) of
                                     Inl e \<Rightarrow> (Err (map_ext2_error e), v)
                                   | Inr om \<Rightarrow>
                                       (case x_metadata ops new_parent x (v_world v) of
                                          Inl e \<Rightarrow> (Err (map_ext2_error e), v)
                                        | Inr nm \<Rightarrow>
                                            if xm_kind om \<noteq> X_Directory \<or> xm_kind nm \<noteq> X_Directory then (Err NotFile, v)
                                            else if \<not> can_access (xm_metadata om) creds Write
                                              \<or> \<not> can_access (xm_metadata om) creds Execute
                                              \<or> \<not> can_access (xm_metadata nm) creds Write
                                              \<or> \<not> can_access (xm_metadata nm) creds Execute
                                            then (Err PermissionDenied, v)
                                            else ext2_run (x_rename ops old_path new_path) x v))))))"

section \<open>Links\<close>

definition symlink_as ::
    "('x, 'w) VOps \<Rightarrow> (nat \<Rightarrow> bool) \<Rightarrow> bytes \<Rightarrow> bytes \<Rightarrow> Credentials \<Rightarrow> ('x, 'w) Vfs \<Rightarrow>
     (VfsError, unit) result \<times> ('x, 'w) Vfs" where
  "symlink_as ops mem target link_path creds v =
     (case normalize_path (mem 0) link_path of
        Inl e \<Rightarrow> (Err e, v)
      | Inr link_path \<Rightarrow>
          (case (if use_root_ext2 link_path then parent_path (mem 1) link_path else Ok []) of
             Inl e \<Rightarrow> (Err e, v)
           | Inr parent \<Rightarrow>
               (case ext2_for link_path v of
                  Some x \<Rightarrow>
                    (case x_lstat ops link_path x (v_world v) of
                       Inr _ \<Rightarrow> (Err AlreadyExists, v)
                     | Inl _ \<Rightarrow>
                         (case ext2_parent_check ops parent creds [Write, Execute] x v of
                            Inl e \<Rightarrow> (Err e, v)
                          | Inr _ \<Rightarrow> ext2_run (x_symlink ops target link_path (euid creds) (egid creds)) x v))
                | None \<Rightarrow>
                    if node_at link_path (nodes v) \<noteq> None then (Err AlreadyExists, v)
                    else case ensure_parent_directory (nodes v) link_path (Some (creds, Write)) of
                           Inl e \<Rightarrow> (Err e, v)
                         | Inr _ \<Rightarrow>
                             add_node ops (\<lambda>i. mem (i + 2)) (\<lambda>now. mk_node link_path Kind_Symlink
                               (FileMetadata_new (euid creds) (egid creds) 0x1ff) now now (Owned target) None) v)))"

definition link_as ::
    "('x, 'w) VOps \<Rightarrow> (nat \<Rightarrow> bool) \<Rightarrow> bytes \<Rightarrow> bytes \<Rightarrow> Credentials \<Rightarrow> ('x, 'w) Vfs \<Rightarrow>
     ((VfsError, unit) result \<times> ('x, 'w) Vfs) option" where
  "link_as ops mem old_path new_path creds v =
     (case resolve_symlink_path (mem 0) (nodes v) old_path of
        Inl e \<Rightarrow> Some (Err e, v)
      | Inr old_path \<Rightarrow>
          (case normalize_path (mem 1) new_path of
             Inl e \<Rightarrow> Some (Err e, v)
           | Inr new_path \<Rightarrow>
               if use_root_ext2 old_path \<noteq> use_root_ext2 new_path then Some (Err NotFound, v)
               else if use_root_ext2 old_path
               then (case parent_path (mem 2) new_path of
                       Inl e \<Rightarrow> Some (Err e, v)
                     | Inr parent \<Rightarrow>
                         (case root_ext2 v of
                            None \<Rightarrow> Some (Err NotFound, v)
                          | Some x \<Rightarrow>
                              (case ext2_parent_check ops parent creds [Write] x v of
                                 Inl e \<Rightarrow> Some (Err e, v)
                               | Inr _ \<Rightarrow> Some (ext2_run (x_link ops old_path new_path) x v))))
               else if node_at new_path (nodes v) \<noteq> None then Some (Err AlreadyExists, v)
               else case ensure_parent_directory (nodes v) new_path (Some (creds, Write)) of
                      Inl e \<Rightarrow> Some (Err e, v)
                    | Inr _ \<Rightarrow>
                        (case node_at old_path (nodes v) of
                           None \<Rightarrow> Some (Err NotFound, v)
                         | Some source \<Rightarrow> do {
                             let target = canonical_node_index (nodes v) source;
                             tn \<leftarrow> nth_opt (nodes v) target;
                             if n_kind tn \<noteq> Kind_File then Some (Err NotFile, v)
                             else Some (add_node ops (\<lambda>i. mem (i + 3)) (\<lambda>now. mk_node new_path Kind_File (n_metadata tn)
                                    now (modified_at (n_timestamps tn)) FileData_empty (Some target)) v)
                           })))"

definition readlink :: "('x, 'w) VOps \<Rightarrow> bool \<Rightarrow> bytes \<Rightarrow> ('x, 'w) Vfs \<Rightarrow> (VfsError, bytes) result" where
  "readlink ops mem path v =
     (case normalize_path mem path of
        Inl e \<Rightarrow> Err e
      | Inr path \<Rightarrow>
          if use_root_ext2 path
          then (case root_ext2 v of
                  None \<Rightarrow> Err NotFound
                | Some x \<Rightarrow>
                    (case x_readlink ops path x (v_world v) of
                       Inl e \<Rightarrow> Err (map_ext2_error e) | Inr target \<Rightarrow> Ok target))
          else case node_at path (nodes v) of
                 None \<Rightarrow> Err NotFound
               | Some node \<Rightarrow>
                   if n_kind (nodes v ! node) \<noteq> Kind_Symlink then Err NotFile
                   else if mem then Ok (as_slice (n_data (nodes v ! node))) else Err VfsOutOfMemory)"

section \<open>Ownership, mode and times\<close>

definition chown_as ::
    "('x, 'w) VOps \<Rightarrow> bool \<Rightarrow> bytes \<Rightarrow> u32 \<Rightarrow> u32 \<Rightarrow> Credentials \<Rightarrow> ('x, 'w) Vfs \<Rightarrow>
     (VfsError, unit) result \<times> ('x, 'w) Vfs" where
  "chown_as ops mem path u g creds v =
     (case normalize_path mem path of
        Inl e \<Rightarrow> (Err e, v)
      | Inr path \<Rightarrow>
          (case ext2_for path v of
             Some x \<Rightarrow>
               if \<not> is_superuser creds then (Err PermissionDenied, v) else ext2_run (x_chown ops path u g) x v
           | None \<Rightarrow>
               (case node_at path (nodes v) of
                  None \<Rightarrow> (Err NotFound, v)
                | Some node \<Rightarrow>
                    if \<not> is_superuser creds then (Err PermissionDenied, v)
                    else (Ok (), upd_node node (\<lambda>n. n\<lparr>n_metadata := (n_metadata n)
                           \<lparr>owner := (if u \<noteq> - 1 then u else owner (n_metadata n)),
                            group := (if g \<noteq> - 1 then g else group (n_metadata n))\<rparr>\<rparr>) v))))"

text \<open>
  \<open>chmod_as\<close> and \<open>set_mtime_as\<close> share their shape: resolve, hand over to ext2 when it
  owns the path, and change the canonical node if the caller owns it.
\<close>

definition change_owned ::
    "('x, 'w) VOps \<Rightarrow> bool \<Rightarrow> bytes \<Rightarrow> Credentials \<Rightarrow> (bytes \<Rightarrow> ('x, 'w) ext2_update) \<Rightarrow> (Node \<Rightarrow> Node) \<Rightarrow>
     ('x, 'w) Vfs \<Rightarrow> ((VfsError, unit) result \<times> ('x, 'w) Vfs) option" where
  "change_owned ops mem path creds on_ext2 on_node v =
     (case resolve_symlink_path mem (nodes v) path of
        Inl e \<Rightarrow> Some (Err e, v)
      | Inr path \<Rightarrow>
          (case ext2_for path v of
             Some x \<Rightarrow>
               (case x_metadata ops path x (v_world v) of
                  Inl e \<Rightarrow> Some (Err (map_ext2_error e), v)
                | Inr m \<Rightarrow>
                    if \<not> is_superuser creds \<and> euid creds \<noteq> owner (xm_metadata m) then Some (Err PermissionDenied, v)
                    else Some (ext2_run (on_ext2 path) x v))
           | None \<Rightarrow>
               (case node_at path (nodes v) of
                  None \<Rightarrow> Some (Err NotFound, v)
                | Some node \<Rightarrow> do {
                    let target = canonical_node_index (nodes v) node;
                    tn \<leftarrow> nth_opt (nodes v) target;
                    if \<not> is_superuser creds \<and> euid creds \<noteq> owner (n_metadata tn) then Some (Err PermissionDenied, v)
                    else Some (Ok (), upd_node target on_node v)
                  })))"

definition chmod_as ::
    "('x, 'w) VOps \<Rightarrow> bool \<Rightarrow> bytes \<Rightarrow> u16 \<Rightarrow> Credentials \<Rightarrow> ('x, 'w) Vfs \<Rightarrow>
     ((VfsError, unit) result \<times> ('x, 'w) Vfs) option" where
  "chmod_as ops mem path md creds v =
     change_owned ops mem path creds (\<lambda>p. x_chmod ops p md)
       (\<lambda>n. n\<lparr>n_metadata := (n_metadata n)\<lparr>mode := FileMode md\<rparr>\<rparr>) v"

definition set_mtime_as ::
    "('x, 'w) VOps \<Rightarrow> bool \<Rightarrow> bytes \<Rightarrow> u64 \<Rightarrow> Credentials \<Rightarrow> ('x, 'w) Vfs \<Rightarrow>
     ((VfsError, unit) result \<times> ('x, 'w) Vfs) option" where
  "set_mtime_as ops mem path mtime creds v =
     change_owned ops mem path creds (\<lambda>p. x_set_mtime ops p mtime) (touch mtime) v"

definition timestamps_of :: "('x, 'w) VOps \<Rightarrow> bool \<Rightarrow> bytes \<Rightarrow> ('x, 'w) Vfs \<Rightarrow> FileTimestamps option" where
  "timestamps_of ops mem path v =
     (case normalize_path mem path of
        Inl _ \<Rightarrow> None
      | Inr path \<Rightarrow>
          if use_root_ext2 path
          then (case root_ext2 v of
                  None \<Rightarrow> None
                | Some x \<Rightarrow>
                    (case x_metadata ops path x (v_world v) of
                       Inl _ \<Rightarrow> None | Inr m \<Rightarrow> Some \<lparr>created_at = xm_mtime m, modified_at = xm_mtime m\<rparr>))
          else map_option (\<lambda>node. n_timestamps (nodes v ! canonical_node_index (nodes v) node)) (node_at path (nodes v)))"

section \<open>Status and contents by path\<close>

definition stat_inner ::
    "('x, 'w) VOps \<Rightarrow> bool \<Rightarrow> bytes \<Rightarrow> bool \<Rightarrow> ('x, 'w) Vfs \<Rightarrow> ((VfsError, Stat) result \<times> ('x, 'w) Vfs) option" where
  "stat_inner ops mem path follow v =
     (case normalize_path mem path of
        Inl e \<Rightarrow> Some (Err e, v)
      | Inr normalized \<Rightarrow>
          (case (if follow then resolve_symlink_path mem (nodes v) normalized else Ok normalized) of
             Inl e \<Rightarrow> Some (Err e, v)
           | Inr path \<Rightarrow>
               (case proc_virtual_kind ops (v_world v) path of
                  Some kind \<Rightarrow>
                    let sz = (case vo_proc_text ops path (v_world v) of None \<Rightarrow> 0 | Some text \<Rightarrow> length text);
                        (now, v1) = timestamp ops v
                    in Some (Ok \<lparr>st_kind = (if kind = Kind_Directory then Stat_Directory else Stat_File),
                                 st_owner = 0, st_group = 0,
                                 st_mode = FileMode (if kind = Kind_Directory then 0x16d else 0x124),
                                 st_size = sz, st_nlink = 1, st_mtime = now\<rparr>, v1)
                | None \<Rightarrow>
                    (case Option.bind (ext2_for path v)
                            (\<lambda>x. case (if follow then x_metadata ops path x (v_world v) else x_lstat ops path x (v_world v)) of
                                   Inl _ \<Rightarrow> None | Inr m \<Rightarrow> Some m) of
                       Some m \<Rightarrow> Some (Ok (stat_of_ext2 m), v)
                     | None \<Rightarrow>
                         (case node_at path (nodes v) of
                            None \<Rightarrow> Some (Err NotFound, v)
                          | Some node \<Rightarrow> do {
                              let di = canonical_node_index (nodes v) node;
                              dn \<leftarrow> nth_opt (nodes v) di;
                              let sz = (case n_kind dn of
                                          Kind_Device (Dev_Block device) \<Rightarrow> block_device_len ops device (v_world v)
                                        | _ \<Rightarrow> FileData_len (n_data dn));
                              Some (Ok (stat_of_node (nodes v) di sz), v)
                            })))))"

definition vfs_can_access ::
    "('x, 'w) VOps \<Rightarrow> bool \<Rightarrow> bytes \<Rightarrow> Credentials \<Rightarrow> Access \<Rightarrow> ('x, 'w) Vfs \<Rightarrow> (VfsError, bool) result option" where
  "vfs_can_access ops mem path creds access v =
     (case resolve_symlink_path mem (nodes v) path of
        Inl e \<Rightarrow> Some (Err e)
      | Inr path \<Rightarrow>
          (case Option.bind (ext2_for path v)
                  (\<lambda>x. case x_metadata ops path x (v_world v) of Inl _ \<Rightarrow> None | Inr m \<Rightarrow> Some m) of
             Some m \<Rightarrow> Some (Ok (can_access (xm_metadata m) creds access))
           | None \<Rightarrow>
               (case node_at path (nodes v) of
                  None \<Rightarrow> Some (Err NotFound)
                | Some node \<Rightarrow> do {
                    dn \<leftarrow> nth_opt (nodes v) (canonical_node_index (nodes v) node);
                    Some (Ok (can_access (n_metadata dn) creds access))
                  })))"

text \<open>The outer \<open>option\<close> of \<open>vfs_read_file\<close> is the panic, the inner one the result.\<close>

definition vfs_read_file :: "('x, 'w) VOps \<Rightarrow> bool \<Rightarrow> bytes \<Rightarrow> ('x, 'w) Vfs \<Rightarrow> bytes option option" where
  "vfs_read_file ops mem path v =
     (case resolve_symlink_path mem (nodes v) path of
        Inl _ \<Rightarrow> Some None
      | Inr path \<Rightarrow>
          (case vo_proc_text ops path (v_world v) of
             Some text \<Rightarrow> Some (Some text)
           | None \<Rightarrow>
               (case Option.bind (ext2_for path v)
                       (\<lambda>x. case x_read_file ops path x (v_world v) of Inl _ \<Rightarrow> None | Inr data \<Rightarrow> Some data) of
                  Some data \<Rightarrow> Some (Some data)
                | None \<Rightarrow>
                    (case node_at path (nodes v) of
                       None \<Rightarrow> Some None
                     | Some node \<Rightarrow> do {
                         dn \<leftarrow> nth_opt (nodes v) (canonical_node_index (nodes v) node);
                         Some (if n_kind dn = Kind_File \<and> mem then Some (as_slice (n_data dn)) else None)
                       }))))"

section \<open>Directory listings\<close>

definition push_entry ::
    "bool \<Rightarrow> DirectoryEntry list \<Rightarrow> bytes \<Rightarrow> NodeKind \<Rightarrow> (VfsError, DirectoryEntry list) result" where
  "push_entry mem entries name kind =
     (if mem then Ok (entries @ [\<lparr>de_name = name, de_kind = kind\<rparr>]) else Err VfsOutOfMemory)"

definition push_unique_entry ::
    "bool \<Rightarrow> DirectoryEntry list \<Rightarrow> bytes \<Rightarrow> NodeKind \<Rightarrow> (VfsError, DirectoryEntry list) result" where
  "push_unique_entry mem entries name kind =
     (if list_ex (\<lambda>e. de_name e = name) entries then Ok entries else push_entry mem entries name kind)"

fun node_entries ::
    "bool \<Rightarrow> bytes \<Rightarrow> Node list \<Rightarrow> DirectoryEntry list \<Rightarrow> (VfsError, DirectoryEntry list) result" where
  "node_entries mem path [] entries = Ok entries"
| "node_entries mem path (child # rest) entries =
     (if n_path child = [] \<or> n_path child = path then node_entries mem path rest entries
      else case parent_path mem (n_path child) of
             Inl e \<Rightarrow> Err e
           | Inr parent \<Rightarrow>
               if parent \<noteq> path then node_entries mem path rest entries
               else case file_name mem (n_path child) of
                      Inl e \<Rightarrow> Err e
                    | Inr name \<Rightarrow>
                        (case push_entry mem entries name (n_kind child) of
                           Inl e \<Rightarrow> Err e | Inr entries1 \<Rightarrow> node_entries mem path rest entries1))"

fun push_all ::
    "bool \<Rightarrow> (bytes \<times> NodeKind) list \<Rightarrow> DirectoryEntry list \<Rightarrow> (VfsError, DirectoryEntry list) result" where
  "push_all mem [] entries = Ok entries"
| "push_all mem ((name, kind) # rest) entries =
     (case push_unique_entry mem entries name kind of
        Inl e \<Rightarrow> Err e | Inr entries1 \<Rightarrow> push_all mem rest entries1)"

text \<open>The loop over process identifiers; \<open>None\<close> would be a loop that never ends.\<close>

partial_function (option) pid_entries ::
    "('x, 'w) VOps \<Rightarrow> bool \<Rightarrow> 'w \<Rightarrow> Pid \<Rightarrow> DirectoryEntry list \<Rightarrow> (VfsError, DirectoryEntry list) result option" where
  "pid_entries ops mem w cursor entries =
     (case vo_next_pid_after ops cursor w of
        None \<Rightarrow> Some (Ok entries)
      | Some pid \<Rightarrow>
          (case try_u64_string mem pid of
             Inl e \<Rightarrow> Some (Err e)
           | Inr name \<Rightarrow>
               (case push_unique_entry mem entries name Kind_Directory of
                  Inl e \<Rightarrow> Some (Err e)
                | Inr entries1 \<Rightarrow> pid_entries ops mem w pid entries1)))"

definition node_directory_entries ::
    "('x, 'w) VOps \<Rightarrow> bool \<Rightarrow> bytes \<Rightarrow> ('x, 'w) Vfs \<Rightarrow> (VfsError, DirectoryEntry list) result option" where
  "node_directory_entries ops mem path v =
     (case node_entries mem path (nodes v) [] of
        Inl e \<Rightarrow> Some (Err e)
      | Inr entries \<Rightarrow>
          map_option (\<lambda>r. case r of Inl e \<Rightarrow> Err e | Inr es \<Rightarrow> Ok (sort_key de_name es))
            (if path = ascii ''/proc''
             then (case push_all mem [(ascii ''meminfo'', Kind_File), (ascii ''mounts'', Kind_File),
                           (ascii ''netinfo'', Kind_File), (ascii ''self'', Kind_Directory),
                           (ascii ''stat'', Kind_File), (ascii ''uptime'', Kind_File)] entries of
                     Inl e \<Rightarrow> Some (Err e)
                   | Inr entries1 \<Rightarrow> pid_entries ops mem (v_world v) 0 entries1)
             else if proc_existing_process_dir_pid ops (v_world v) path \<noteq> None
             then Some (push_unique_entry mem entries (ascii ''status'') Kind_File)
             else Some (Ok entries)))"

fun kind_from_ext2 :: "Ext2NodeKind \<Rightarrow> NodeKind" where
  "kind_from_ext2 X_File = Kind_File"
| "kind_from_ext2 X_Directory = Kind_Directory"
| "kind_from_ext2 X_Symlink = Kind_Symlink"

fun ext2_entries ::
    "('x, 'w) VOps \<Rightarrow> bool \<Rightarrow> bytes \<Rightarrow> 'x \<Rightarrow> 'w \<Rightarrow> bytes list \<Rightarrow> DirectoryEntry list \<Rightarrow>
     (VfsError, DirectoryEntry list) result" where
  "ext2_entries ops mem path x w [] entries = Ok entries"
| "ext2_entries ops mem path x w (name # rest) entries =
     (case join_path mem path name of
        Inl e \<Rightarrow> Err e
      | Inr full \<Rightarrow>
          (case x_lstat ops full x w of
             Inl e \<Rightarrow> Err (map_ext2_error e)
           | Inr m \<Rightarrow>
               (case push_entry mem entries name (kind_from_ext2 (xm_kind m)) of
                  Inl e \<Rightarrow> Err e | Inr entries1 \<Rightarrow> ext2_entries ops mem path x w rest entries1)))"

definition ext2_directory_entries ::
    "('x, 'w) VOps \<Rightarrow> bool \<Rightarrow> bytes \<Rightarrow> ('x, 'w) Vfs \<Rightarrow> (VfsError, DirectoryEntry list) result" where
  "ext2_directory_entries ops mem path v =
     (case root_ext2 v of
        None \<Rightarrow> Err NotFound
      | Some x \<Rightarrow>
          (case x_list_dir ops path x (v_world v) of
             Inl e \<Rightarrow> Err (map_ext2_error e)
           | Inr names \<Rightarrow>
               (case ext2_entries ops mem path x (v_world v) names [] of
                  Inl e \<Rightarrow> Err e | Inr entries \<Rightarrow> Ok (sort_key de_name entries))))"

definition directory_entries ::
    "('x, 'w) VOps \<Rightarrow> bool \<Rightarrow> usize \<Rightarrow> ('x, 'w) Vfs \<Rightarrow> (VfsError, DirectoryEntry list \<times> usize) result option" where
  "directory_entries ops mem fd v =
     (let at = (\<lambda>off r. case r of Inl e \<Rightarrow> Err e | Inr entries \<Rightarrow> Ok (entries, off))
      in case handle_at v fd of
           None \<Rightarrow> Some (Err VfsBadFd)
         | Some (H_Node node off _) \<Rightarrow>
             (case nth_opt (nodes v) node of
                None \<Rightarrow> Some (Err VfsBadFd)
              | Some n \<Rightarrow>
                  if n_kind n \<noteq> Kind_Directory then Some (Err NotFile)
                  else map_option (at off) (node_directory_entries ops mem (n_path n) v))
         | Some (H_Ext2Dir path off) \<Rightarrow> Some (at off (ext2_directory_entries ops mem path v))
         | _ \<Rightarrow> Some (Err NotFile))"

section \<open>The initial tree, devices and mounts\<close>

definition add_directory :: "('x, 'w) VOps \<Rightarrow> bytes \<Rightarrow> ('x, 'w) Vfs \<Rightarrow> ('x, 'w) Vfs" where
  "add_directory ops path v =
     (let (now, v1) = timestamp ops v
      in v1\<lparr>nodes := nodes v1 @ [mk_node path Kind_Directory (FileMetadata_new 0 0 0x1ed) now now FileData_empty None]\<rparr>)"

definition add_data_file :: "('x, 'w) VOps \<Rightarrow> bytes \<Rightarrow> FileData \<Rightarrow> ('x, 'w) Vfs \<Rightarrow> ('x, 'w) Vfs" where
  "add_data_file ops path data v =
     (let (now, v1) = timestamp ops v in
      case node_at path (nodes v1) of
        Some i \<Rightarrow>
          upd_node i (\<lambda>n. (touch now n)\<lparr>n_kind := Kind_File, n_metadata := FileMetadata_new 0 0 0x1a4,
                                       n_data := data, n_link_target := None\<rparr>) v1
      | None \<Rightarrow>
          v1\<lparr>nodes := nodes v1 @ [mk_node path Kind_File (FileMetadata_new 0 0 0x1a4) now now data None]\<rparr>)"

definition add_file :: "('x, 'w) VOps \<Rightarrow> bytes \<Rightarrow> bytes \<Rightarrow> ('x, 'w) Vfs \<Rightarrow> ('x, 'w) Vfs" where
  "add_file ops path data v = add_data_file ops path (Owned data) v"

definition add_static_file :: "('x, 'w) VOps \<Rightarrow> bytes \<Rightarrow> bytes \<Rightarrow> ('x, 'w) Vfs \<Rightarrow> ('x, 'w) Vfs" where
  "add_static_file ops path data v = add_data_file ops path (Static data) v"

definition add_device :: "('x, 'w) VOps \<Rightarrow> bytes \<Rightarrow> DeviceKind \<Rightarrow> ('x, 'w) Vfs \<Rightarrow> ('x, 'w) Vfs" where
  "add_device ops path kind v =
     (let (now, v1) = timestamp ops v
      in v1\<lparr>nodes := nodes v1 @ [mk_node path (Kind_Device kind) (FileMetadata_new 0 0 0x1b6) now now FileData_empty None]\<rparr>)"

definition upsert_device :: "('x, 'w) VOps \<Rightarrow> bytes \<Rightarrow> DeviceKind \<Rightarrow> ('x, 'w) Vfs \<Rightarrow> ('x, 'w) Vfs" where
  "upsert_device ops path kind v =
     (case node_at path (nodes v) of
        Some i \<Rightarrow> upd_node i (\<lambda>n. n\<lparr>n_kind := Kind_Device kind, n_metadata := FileMetadata_new 0 0 0x1b6\<rparr>) v
      | None \<Rightarrow> add_device ops path kind v)"

definition remove_node_path :: "bytes \<Rightarrow> ('x, 'w) Vfs \<Rightarrow> ('x, 'w) Vfs" where
  "remove_node_path path v =
     (case node_at path (nodes v) of None \<Rightarrow> v | Some i \<Rightarrow> v\<lparr>nodes := remove_at i (nodes v)\<rparr>)"

definition block_device_for_name :: "bytes \<Rightarrow> ('x, 'w) Vfs \<Rightarrow> BlockDevice option" where
  "block_device_for_name name v =
     (let path = (if starts_with name (ascii ''/dev/'') then name else ascii ''/dev/'' @ name)
      in case find (\<lambda>n. n_path n = path \<and> (case n_kind n of Kind_Device (Dev_Block _) \<Rightarrow> True | _ \<Rightarrow> False)) (nodes v) of
           Some n \<Rightarrow> (case n_kind n of Kind_Device (Dev_Block device) \<Rightarrow> Some device | _ \<Rightarrow> None)
         | None \<Rightarrow> None)"

definition vda_part :: "nat \<Rightarrow> bytes" where
  "vda_part i = ascii ''/dev/vda'' @ push_usize_decimal i"

definition mbr_entry :: "bytes \<Rightarrow> nat \<Rightarrow> (nat \<times> nat) option" where
  "mbr_entry mbr i =
     (let off = 446 + i * 16;
          start = unat (u32_from_le (mbr ! (off + 8)) (mbr ! (off + 9)) (mbr ! (off + 10)) (mbr ! (off + 11)));
          n = unat (u32_from_le (mbr ! (off + 12)) (mbr ! (off + 13)) (mbr ! (off + 14)) (mbr ! (off + 15)))
      in if mbr ! (off + 4) = 0 \<or> start = 0 \<or> n = 0 then None else Some (start, n))"

definition refresh_block_devices :: "('x, 'w) VOps \<Rightarrow> ('x, 'w) Vfs \<Rightarrow> ('x, 'w) Vfs" where
  "refresh_block_devices ops v =
     (let sectors = vo_sector_count ops (v_world v);
          v1 = upsert_device ops (ascii ''/dev/vda'') (Dev_Block \<lparr>start_sector = 0, sector_count = sectors\<rparr>) v;
          v2 = fold (\<lambda>i. remove_node_path (vda_part i)) [1, 2, 3, 4] v1
      in if sectors = 0 then v2
         else case vo_read_sectors ops 0 1 (v_world v2) of
                (None, w) \<Rightarrow> v2\<lparr>v_world := w\<rparr>
              | (Some mbr, w) \<Rightarrow>
                  let v3 = v2\<lparr>v_world := w\<rparr> in
                  if mbr ! 510 \<noteq> 0x55 \<or> mbr ! 511 \<noteq> 0xaa then v3
                  else fold (\<lambda>i v. case mbr_entry mbr i of
                               None \<Rightarrow> v
                             | Some (start, n) \<Rightarrow>
                                 upsert_device ops (vda_part (i + 1))
                                   (Dev_Block \<lparr>start_sector = start, sector_count = n\<rparr>) v) [0, 1, 2, 3] v3)"

definition mount ::
    "('x, 'w) VOps \<Rightarrow> bool \<Rightarrow> bytes \<Rightarrow> bytes \<Rightarrow> bytes \<Rightarrow> ('x, 'w) Vfs \<Rightarrow> (VfsError, unit) result \<times> ('x, 'w) Vfs" where
  "mount ops mem device mpoint fstype v =
     (case normalize_path mem mpoint of
        Inl e \<Rightarrow> (Err e, v)
      | Inr mpoint \<Rightarrow>
          let v1 = (if node_at mpoint (nodes v) = None then add_directory ops mpoint v else v) in
          if fstype \<noteq> ascii ''ext2'' then (Err NotFound, v1)
          else
            let start = (case block_device_for_name device v1 of None \<Rightarrow> 0 | Some d \<Rightarrow> start_sector d) in
            case x_mount_at ops start (v_world v1) of
              (Inl _, w) \<Rightarrow> (Err NotFound, v1\<lparr>v_world := w\<rparr>)
            | (Inr x, w) \<Rightarrow>
                (Ok (), v1\<lparr>v_world := w, mounts := mounts v1 @ [\<lparr>mountpoint = mpoint, m_ext2 = Some x\<rparr>]\<rparr>))"

record FsStat =
  fs_type :: u64
  fs_block_size :: nat
  fs_blocks :: nat
  fs_blocks_free :: nat
  fs_blocks_available :: nat
  fs_files :: nat
  fs_files_free :: nat
  fs_name_max :: nat

definition statfs :: "('x, 'w) VOps \<Rightarrow> bool \<Rightarrow> bytes \<Rightarrow> ('x, 'w) Vfs \<Rightarrow> (VfsError, FsStat) result" where
  "statfs ops mem path v =
     (let fixed = (\<lambda>magic n. Ok \<lparr>fs_type = magic, fs_block_size = 1024, fs_blocks = n, fs_blocks_free = n,
                     fs_blocks_available = n, fs_files = n, fs_files_free = n, fs_name_max = 255\<rparr>)
      in case normalize_path mem path of
           Inl e \<Rightarrow> Err e
         | Inr path \<Rightarrow>
             if use_root_ext2 path
             then (case root_ext2 v of
                     None \<Rightarrow> Err NotFound
                   | Some x \<Rightarrow>
                       let st = x_stats ops x
                       in Ok \<lparr>fs_type = 0xef53, fs_block_size = xs_block_size st, fs_blocks = unat (xs_blocks_count st),
                              fs_blocks_free = unat (xs_free_blocks_count st),
                              fs_blocks_available = unat (xs_free_blocks_count st),
                              fs_files = unat (xs_inodes_count st), fs_files_free = unat (xs_free_inodes_count st),
                              fs_name_max = 255\<rparr>)
             else if under ''/tmp'' path then fixed 0x01021994 1024
             else if under ''/proc'' path then fixed 0x9fa0 0
             else if under ''/dev'' path then fixed 0x1373 0
             else if under ''/initrd'' path then fixed 0x858458f6 0
             else Err NotFound)"

definition trim_start_slashes :: "bytes \<Rightarrow> bytes" where
  "trim_start_slashes p = dropWhile (\<lambda>c. c = SLASH) p"

definition mount_paths :: "('x, 'w) VOps \<Rightarrow> 'w \<Rightarrow> bytes \<Rightarrow> 'x MountPoint \<Rightarrow> bytes list \<Rightarrow> bytes list" where
  "mount_paths ops w pre m paths =
     (case m_ext2 m of
        None \<Rightarrow> paths
      | Some x \<Rightarrow>
          (case (if starts_with pre (mountpoint m)
                 then Some (case strip_prefix pre (mountpoint m) of None \<Rightarrow> [SLASH] | Some p \<Rightarrow> p)
                 else if pre = [SLASH] \<or> starts_with (mountpoint m) pre then Some [SLASH] else None) of
             None \<Rightarrow> paths
           | Some mount_prefix \<Rightarrow>
               (case x_list_dir ops mount_prefix x w of
                  Inl _ \<Rightarrow> paths
                | Inr entries \<Rightarrow>
                    fold (\<lambda>entry paths.
                       let full = (if mountpoint m = [SLASH] then SLASH # trim_start_slashes entry
                                   else mountpoint m @ SLASH # trim_start_slashes entry)
                       in if starts_with full pre \<and> full \<notin> set paths then paths @ [full] else paths) entries paths)))"

definition resolve_mount_list_paths :: "('x, 'w) VOps \<Rightarrow> bytes \<Rightarrow> ('x, 'w) Vfs \<Rightarrow> bytes list" where
  "resolve_mount_list_paths ops pre v =
     fold (mount_paths ops (v_world v) pre) (mounts v)
       (map n_path (filter (\<lambda>n. starts_with (n_path n) pre) (nodes v)))"

definition list_paths :: "('x, 'w) VOps \<Rightarrow> bool \<Rightarrow> bytes \<Rightarrow> ('x, 'w) Vfs \<Rightarrow> bytes list" where
  "list_paths ops mem pre v =
     resolve_mount_list_paths ops (case normalize_path mem pre of Inl _ \<Rightarrow> [SLASH] | Inr p \<Rightarrow> p) v"

definition initial_devices :: "(bytes \<times> DeviceKind) list" where
  "initial_devices =
     [(ascii ''/dev/null'', Dev_Null), (ascii ''/dev/zero'', Dev_Zero), (ascii ''/dev/random'', Dev_Random),
      (ascii ''/dev/urandom'', Dev_URandom), (ascii ''/dev/console'', Dev_Console), (ascii ''/dev/serial'', Dev_Serial),
      (ascii ''/dev/vda'', Dev_Block \<lparr>start_sector = 0, sector_count = 0\<rparr>), (ascii ''/dev/keyboard'', Dev_Keyboard),
      (ascii ''/dev/tty'', Dev_Tty), (ascii ''/dev/ptmx'', Dev_Ptmx), (ascii ''/dev/fb0'', Dev_Framebuffer)]"

definition initial_dirs :: "bytes list" where
  "initial_dirs = map ascii [''/'', ''/bin'', ''/etc'', ''/lib'', ''/dev'', ''/dev/pts'', ''/pkg'', ''/proc'', ''/tmp'']"

definition Vfs_empty :: "'w \<Rightarrow> ('x, 'w) Vfs" where
  "Vfs_empty w = \<lparr>nodes = [], open_files = [], open_cap = 0, pipes = [], ptys = [], mounts = [], pty_signals = [], v_world = w\<rparr>"

text \<open>\<open>expect\<close> after the chmod of \<open>/tmp\<close> panics on failure.\<close>

definition Vfs_new :: "('x, 'w) VOps \<Rightarrow> bool \<Rightarrow> 'w \<Rightarrow> ('x, 'w) Vfs option" where
  "Vfs_new ops mem w =
     (case chmod_as ops mem (ascii ''/tmp'') 0x1ff Credentials_root (fold (add_directory ops) initial_dirs (Vfs_empty w)) of
        Some (Inr _, v) \<Rightarrow>
          Some (add_file ops (ascii ''/tmp/message.txt'') (ascii ''hello from tmpfs'' @ [0x0a])
                 (add_file ops (ascii ''/proc/version'') (ascii ''ristux 0.1'' @ [0x0a])
                   (fold (\<lambda>(p, k). add_device ops p k) initial_devices v)))
      | _ \<Rightarrow> None)"

definition mount_initrd :: "('x, 'w) VOps \<Rightarrow> (bytes \<times> bytes) list \<Rightarrow> ('x, 'w) Vfs \<Rightarrow> ('x, 'w) Vfs" where
  "mount_initrd ops files v = fold (\<lambda>(path, data). add_static_file ops path data) files v"

end
