(* ===== verification/Vfs_Refs.thy ===== *)
theory Vfs_Refs
  imports Vfs_Namespace
begin

text \<open>
  The accounting of the VFS: each pipe and pseudo-terminal counts the open handles
  of its two ends, and every handle and link refers to an existing node.  The
  invariant \<open>vfs_inv\<close> says so, every call keeps it, and from it follow that no
  call panics (a read past the end of a \<open>/proc\<close> text excepted), that end of file
  and broken pipe are reported exactly when the last handle of the other end is
  gone, and that a duplicated handle can be closed again without a trace.
\<close>

section \<open>The invariant\<close>

datatype EndKey = ReadEnd usize | WriteEnd usize | MasterEnd usize | SlaveEnd usize

fun end_of :: "OpenHandle \<Rightarrow> EndKey option" where
  "end_of (H_PipeRead i) = Some (ReadEnd i)"
| "end_of (H_PipeWrite i) = Some (WriteEnd i)"
| "end_of (H_PtyMaster i _) = Some (MasterEnd i)"
| "end_of (H_PtySlave i _) = Some (SlaveEnd i)"
| "end_of _ = None"

definition refs :: "EndKey \<Rightarrow> OpenHandle option list \<Rightarrow> nat" where
  "refs k slots = length (filter (\<lambda>slot. Option.bind slot end_of = Some k) slots)"

fun counter :: "EndKey \<Rightarrow> PipeState list \<Rightarrow> PtyState list \<Rightarrow> nat" where
  "counter (ReadEnd i) ps ts = (if i < length ps then pipe_readers (ps ! i) else 0)"
| "counter (WriteEnd i) ps ts = (if i < length ps then pipe_writers (ps ! i) else 0)"
| "counter (MasterEnd i) ps ts = (if i < length ts then pty_masters (ts ! i) else 0)"
| "counter (SlaveEnd i) ps ts = (if i < length ts then pty_slaves (ts ! i) else 0)"

definition balanced :: "('x, 'w) Vfs \<Rightarrow> bool" where
  "balanced v \<longleftrightarrow> (\<forall>k. counter k (pipes v) (ptys v) = refs k (open_files v))"

fun handle_node :: "OpenHandle \<Rightarrow> usize option" where
  "handle_node (H_Node node _ _) = Some node"
| "handle_node _ = None"

definition slots_ok :: "nat \<Rightarrow> OpenHandle option list \<Rightarrow> bool" where
  "slots_ok n slots \<longleftrightarrow> (\<forall>h i. Some h \<in> set slots \<longrightarrow> handle_node h = Some i \<longrightarrow> i < n)"

definition links_ok :: "Node list \<Rightarrow> bool" where
  "links_ok ns \<longleftrightarrow> (\<forall>n i. n \<in> set ns \<longrightarrow> n_link_target n = Some i \<longrightarrow> i < length ns)"

definition vfs_inv :: "('x, 'w) Vfs \<Rightarrow> bool" where
  "vfs_inv v \<longleftrightarrow>
     balanced v \<and> slots_ok (length (nodes v)) (open_files v) \<and> links_ok (nodes v) \<and>
     list_all pipe_inv (pipes v) \<and> list_all pty_inv (ptys v)"

section \<open>Counting\<close>

lemma refs_update:
  "fd < length slots \<Longrightarrow>
   refs k (slots[fd := s]) + (if Option.bind (slots ! fd) end_of = Some k then 1 else 0) =
   refs k slots + (if Option.bind s end_of = Some k then 1 else 0)"
  unfolding refs_def by (rule length_filter_update)

lemma refs_install:
  "refs k (snd (install_handle h slots)) = refs k slots + (if end_of h = Some k then 1 else 0)"
proof (cases "position (\<lambda>slot. slot = None) slots")
  case None
  then show ?thesis by (simp add: install_handle_def refs_def)
next
  case (Some fd)
  then have "fd < length slots" "slots ! fd = None" by (auto dest: position_Some)
  then show ?thesis using refs_update [of fd slots k "Some h"] Some by (simp add: install_handle_def)
qed

lemma set_install: "set (snd (install_handle h slots)) \<subseteq> insert (Some h) (set slots)"
  by (auto simp: install_handle_def split: option.splits dest: set_update_subset_insert [THEN subsetD])

lemma install_at: "nth_opt (snd (install_handle h slots)) (fst (install_handle h slots)) = Some (Some h)"
  by (auto simp: install_handle_def nth_opt_def nth_append split: option.splits dest: position_Some)

lemma install_other:
  assumes "fd \<noteq> fst (install_handle h slots)" and "fd < length slots"
  shows "snd (install_handle h slots) ! fd = slots ! fd"
  using assms by (auto simp: install_handle_def nth_append split: option.splits)

lemma slots_ok_install:
  "slots_ok n slots \<Longrightarrow> (\<And>i. handle_node h = Some i \<Longrightarrow> i < n) \<Longrightarrow> slots_ok n (snd (install_handle h slots))"
  using set_install [of h slots] unfolding slots_ok_def by blast

lemma slots_ok_mono: "slots_ok n slots \<Longrightarrow> n \<le> m \<Longrightarrow> slots_ok m slots"
  unfolding slots_ok_def by (meson order_less_le_trans)

lemma slots_ok_update:
  "slots_ok n slots \<Longrightarrow> (\<And>h i. s = Some h \<Longrightarrow> handle_node h = Some i \<Longrightarrow> i < n) \<Longrightarrow> slots_ok n (slots[fd := s])"
  unfolding slots_ok_def by (metis insertE set_update_subset_insert subsetD)

lemma counter_append_pipe:
  "counter k (ps @ [p]) ts =
     (if k = ReadEnd (length ps) then pipe_readers p
      else if k = WriteEnd (length ps) then pipe_writers p else counter k ps ts)"
  by (cases k) (auto simp: nth_append)

lemma counter_append_pty:
  "counter k ps (ts @ [s]) =
     (if k = MasterEnd (length ts) then pty_masters s
      else if k = SlaveEnd (length ts) then pty_slaves s else counter k ps ts)"
  by (cases k) (auto simp: nth_append)

lemma counter_update_pipe:
  "i < length ps \<Longrightarrow>
   counter k (ps[i := p]) ts =
     (if k = ReadEnd i then pipe_readers p else if k = WriteEnd i then pipe_writers p else counter k ps ts)"
  by (cases k) (auto simp: nth_list_update)

lemma counter_update_pty:
  "i < length ts \<Longrightarrow>
   counter k ps (ts[i := s]) =
     (if k = MasterEnd i then pty_masters s else if k = SlaveEnd i then pty_slaves s else counter k ps ts)"
  by (cases k) (auto simp: nth_list_update)

lemma balanced_new_end:
  assumes "balanced v"
  shows "refs (ReadEnd (length (pipes v))) (open_files v) = 0" "refs (WriteEnd (length (pipes v))) (open_files v) = 0"
    "refs (MasterEnd (length (ptys v))) (open_files v) = 0" "refs (SlaveEnd (length (ptys v))) (open_files v) = 0"
proof -
  have eq: "refs k (open_files v) = counter k (pipes v) (ptys v)" for k using assms by (simp add: balanced_def)
  show "refs (ReadEnd (length (pipes v))) (open_files v) = 0" "refs (WriteEnd (length (pipes v))) (open_files v) = 0"
    "refs (MasterEnd (length (ptys v))) (open_files v) = 0" "refs (SlaveEnd (length (ptys v))) (open_files v) = 0"
    by (simp_all add: eq)
qed

lemma refs_pos: "Some h \<in> set slots \<Longrightarrow> end_of h = Some k \<Longrightarrow> 0 < refs k slots"
  by (force simp: refs_def filter_empty_conv length_greater_0_conv)

lemma refs_posD: "0 < refs k slots \<Longrightarrow> \<exists>h. Some h \<in> set slots \<and> end_of h = Some k"
  by (auto simp: refs_def filter_empty_conv length_greater_0_conv bind_eq_Some_conv)

section \<open>Changes that keep the invariant\<close>

lemma vfs_inv_frame [simp]:
  "vfs_inv (v\<lparr>v_world := w\<rparr>) = vfs_inv v"
  "vfs_inv (v\<lparr>mounts := m\<rparr>) = vfs_inv v"
  "vfs_inv (v\<lparr>pty_signals := sg\<rparr>) = vfs_inv v"
  "vfs_inv (v\<lparr>open_cap := c\<rparr>) = vfs_inv v"
  by (simp_all add: vfs_inv_def balanced_def)

lemma vfs_inv_upd_node:
  assumes "vfs_inv v" and "\<And>n. n_link_target (f n) = n_link_target n \<or> n_link_target (f n) = None"
  shows "vfs_inv (upd_node i f v)"
proof (cases "i < length (nodes v)")
  case True
  have "links_ok ((nodes v)[i := f (nodes v ! i)])"
    unfolding links_ok_def
  proof (intro allI impI)
    fix n j assume "n \<in> set ((nodes v)[i := f (nodes v ! i)])" and j: "n_link_target n = Some j"
    then consider "n \<in> set (nodes v)" | "n = f (nodes v ! i)" by (metis insertE set_update_subset_insert subsetD)
    then have "\<exists>m\<in>set (nodes v). n_link_target m = Some j"
      using j assms(2) [of "nodes v ! i"] True by cases auto
    then show "j < length ((nodes v)[i := f (nodes v ! i)])"
      using assms(1) by (auto simp: vfs_inv_def links_ok_def)
  qed
  then show ?thesis using assms(1) by (simp add: vfs_inv_def balanced_def upd_node_def)
qed (use assms(1) in \<open>simp add: vfs_inv_def balanced_def upd_node_def list_update_beyond\<close>)

lemma links_ok_append:
  assumes "links_ok ns" and "\<And>i. n_link_target n = Some i \<Longrightarrow> i < length ns"
  shows "links_ok (ns @ [n])"
  unfolding links_ok_def
proof (intro allI impI)
  fix m i assume "m \<in> set (ns @ [n])" and "n_link_target m = Some i"
  then have "i < length ns" using assms by (auto simp: links_ok_def)
  then show "i < length (ns @ [n])" by simp
qed

lemma vfs_inv_append_node:
  assumes "vfs_inv v" and "\<And>i. n_link_target n = Some i \<Longrightarrow> i < length (nodes v)"
  shows "vfs_inv (v\<lparr>nodes := nodes v @ [n]\<rparr>)"
  using assms slots_ok_mono [of "length (nodes v)" "open_files v" "Suc (length (nodes v))"]
    links_ok_append [of "nodes v" n]
  by (auto simp: vfs_inv_def balanced_def)

lemma end_of_with_offset [simp]: "end_of (with_offset off h) = end_of h"
  by (cases h) auto

lemma handle_node_with_offset [simp]: "handle_node (with_offset off h) = handle_node h"
  by (cases h) auto

lemma vfs_inv_set_cursor: "vfs_inv v \<Longrightarrow> vfs_inv (set_cursor fd off v)"
proof (cases "fd < length (open_files v)")
  case True
  assume inv: "vfs_inv v"
  have "Option.bind (map_option (with_offset off) (open_files v ! fd)) end_of = Option.bind (open_files v ! fd) end_of"
    by (cases "open_files v ! fd") auto
  then have "refs k ((open_files v)[fd := map_option (with_offset off) (open_files v ! fd)]) = refs k (open_files v)" for k
    using refs_update [OF True, of k "map_option (with_offset off) (open_files v ! fd)"] by simp
  moreover have "slots_ok (length (nodes v)) ((open_files v)[fd := map_option (with_offset off) (open_files v ! fd)])"
  proof (rule slots_ok_update)
    show "slots_ok (length (nodes v)) (open_files v)" using inv by (simp add: vfs_inv_def)
    fix h i assume "map_option (with_offset off) (open_files v ! fd) = Some h" "handle_node h = Some i"
    then obtain h' where "open_files v ! fd = Some h'" "handle_node h' = Some i" by auto
    then show "i < length (nodes v)" using inv True nth_mem [OF True] by (auto simp: vfs_inv_def slots_ok_def)
  qed
  ultimately show ?thesis using inv by (simp add: set_cursor_def vfs_inv_def balanced_def)
qed (simp add: set_cursor_def list_update_beyond)

lemma vfs_inv_pipe_step:
  assumes "vfs_inv v" and "i < length (pipes v)" and "pipe_inv p"
    and "pipe_readers p = pipe_readers (pipes v ! i)" and "pipe_writers p = pipe_writers (pipes v ! i)"
  shows "vfs_inv (v\<lparr>pipes := (pipes v)[i := p]\<rparr>)"
proof -
  have "counter k ((pipes v)[i := p]) (ptys v) = counter k (pipes v) (ptys v)" for k
    using assms(2,4,5) by (cases k) (auto simp: nth_list_update)
  then show ?thesis using assms by (auto simp: vfs_inv_def balanced_def list_all_length nth_list_update)
qed

lemma vfs_inv_pty_step:
  assumes "vfs_inv v" and "i < length (ptys v)" and "pty_inv s"
    and "pty_masters s = pty_masters (ptys v ! i)" and "pty_slaves s = pty_slaves (ptys v ! i)"
  shows "vfs_inv (v\<lparr>ptys := (ptys v)[i := s]\<rparr>)"
proof -
  have "counter k (pipes v) ((ptys v)[i := s]) = counter k (pipes v) (ptys v)" for k
    using assms(2,4,5) by (cases k) (auto simp: nth_list_update)
  then show ?thesis using assms by (auto simp: vfs_inv_def balanced_def list_all_length nth_list_update)
qed

section \<open>Reservations\<close>

text \<open>Handles that can be installed without another allocation.\<close>

definition available :: "('x, 'w) Vfs \<Rightarrow> nat" where
  "available v =
     length (filter (\<lambda>slot. slot = None) (open_files v)) + (open_cap v - length (open_files v))"

lemma reserve_ok:
  "reserve_open_handle_slots mem n v = (Inr u, v1) \<Longrightarrow> (\<exists>c. v1 = v\<lparr>open_cap := c\<rparr>) \<and> n \<le> available v1"
  by (auto simp: reserve_open_handle_slots_def available_def Let_def split: if_splits
      intro: exI [of _ "open_cap v"])

lemma reserve_err:
  "reserve_open_handle_slots mem n v = (Inl e, v1) \<Longrightarrow> v1 = v \<and> e = VfsOutOfMemory"
  by (auto simp: reserve_open_handle_slots_def Let_def split: if_splits)

lemma filter_install:
  assumes "position (\<lambda>slot. slot = None) slots = Some fd"
  shows "Suc (length (filter (\<lambda>slot. slot = None) (slots[fd := Some h]))) = length (filter (\<lambda>slot. slot = None) slots)"
  using length_filter_update [of fd slots "\<lambda>slot. slot = None" "Some h"] position_Some [OF assms] by auto

lemma push_ok:
  assumes "push_open_handle mem h v = (Inr fd, v1)"
  shows "(\<exists>c. v1 = v\<lparr>open_cap := c, open_files := snd (install_handle h (open_files v))\<rparr>) \<and>
         fd = fst (install_handle h (open_files v))"
  using assms by (auto simp: push_open_handle_def dest!: reserve_ok split: prod.splits sum.splits)

lemma push_err: "push_open_handle mem h v = (Inl e, v1) \<Longrightarrow> v1 = v \<and> e = VfsOutOfMemory"
  by (auto simp: push_open_handle_def Let_def split: prod.splits sum.splits dest: reserve_err)

lemma push_available:
  assumes "0 < available v"
  shows "\<exists>fd v1. push_open_handle mem h v = (Inr fd, v1) \<and> available v \<le> Suc (available v1)"
proof (cases "position (\<lambda>slot. slot = None) (open_files v)")
  case None
  then have none: "filter (\<lambda>slot. slot = None) (open_files v) = []" by (auto simp: list_ops filter_empty_conv)
  then have "length (open_files v) < open_cap v" using assms by (simp add: available_def)
  then show ?thesis
    using none None
    by (simp add: push_open_handle_def reserve_open_handle_slots_def install_handle_def available_def Let_def)
next
  case (Some fd)
  then have "filter (\<lambda>slot. slot = None) (open_files v) \<noteq> []"
    by (metis (mono_tags, lifting) empty_filter_conv nth_mem position_Some)
  then show ?thesis
    using Some filter_install [OF Some, of h]
    by (auto simp: push_open_handle_def reserve_open_handle_slots_def install_handle_def available_def Let_def
        Suc_le_eq)
qed

lemma vfs_inv_push:
  assumes inv: "vfs_inv v" and h: "end_of h = None" "\<And>i. handle_node h = Some i \<Longrightarrow> i < length (nodes v)"
  shows "vfs_inv (snd (push_open_handle mem h v))"
proof (cases "push_open_handle mem h v")
  case (Pair r v1)
  show ?thesis
  proof (cases r)
    case (Inl e)
    then show ?thesis using Pair inv push_err by fastforce
  next
    case (Inr fd)
    have "slots_ok (length (nodes v)) (snd (install_handle h (open_files v)))"
      using slots_ok_install h(2) inv by (auto simp: vfs_inv_def)
    then show ?thesis
      using push_ok [of mem h v fd v1] Pair Inr inv h(1) by (auto simp: vfs_inv_def balanced_def refs_install)
  qed
qed

section \<open>Pipes and terminals\<close>

lemma create_pipe_cases:
  assumes "create_pipe mem cap v = (r, v1)"
  obtains (fail) e c where "r = Inl e" "v1 = v\<lparr>open_cap := c\<rparr>"
  | (made) rfd wfd c where "r = Inr (rfd, wfd)"
      "v1 = v\<lparr>pipes := pipes v @ [PipeState_new cap], open_cap := c,
              open_files := snd (install_handle (H_PipeWrite (length (pipes v)))
                (snd (install_handle (H_PipeRead (length (pipes v))) (open_files v))))\<rparr>"
      "rfd = fst (install_handle (H_PipeRead (length (pipes v))) (open_files v))"
      "wfd = fst (install_handle (H_PipeWrite (length (pipes v)))
                (snd (install_handle (H_PipeRead (length (pipes v))) (open_files v))))"
proof (cases "reserve_open_handle_slots (mem 0) 2 v")
  case (Pair r0 v0)
  show thesis
  proof (cases r0)
    case (Inl e)
    then have "v0 = v" using Pair reserve_err by blast
    then show thesis using assms Pair Inl fail [of e "open_cap v"] by (simp add: create_pipe_def)
  next
    case (Inr u)
    obtain c0 where v0: "v0 = v\<lparr>open_cap := c0\<rparr>" and av: "2 \<le> available v0" using reserve_ok Pair Inr by blast
    show thesis
    proof (cases "mem 1")
      case False
      then show thesis using assms Pair Inr v0 by (intro fail [of VfsOutOfMemory c0]) (auto simp: create_pipe_def)
    next
      case True
      let ?v2 = "v0\<lparr>pipes := pipes v0 @ [PipeState_new cap]\<rparr>"
      have av2: "2 \<le> available ?v2" using av by (simp add: available_def)
      then obtain rfd v3 where p1: "push_open_handle (mem 2) (H_PipeRead (length (pipes v))) ?v2 = (Inr rfd, v3)"
        and "available ?v2 \<le> Suc (available v3)"
        using push_available [of ?v2] by (metis less_le_trans zero_less_numeral)
      then have "0 < available v3" using av2 by simp
      then obtain wfd v4 where p2: "push_open_handle (mem 3) (H_PipeWrite (length (pipes v))) v3 = (Inr wfd, v4)"
        using push_available by blast
      have "r = Inr (rfd, wfd)" "v1 = v4"
        using assms Pair Inr True p1 p2 v0 by (simp_all add: create_pipe_def Let_def)
      moreover obtain c4 where "v4 = v3\<lparr>open_cap := c4,
          open_files := snd (install_handle (H_PipeWrite (length (pipes v))) (open_files v3))\<rparr>"
        using push_ok [OF p2] by blast
      ultimately show thesis using push_ok [OF p1] push_ok [OF p2] v0 by (intro made [of rfd wfd c4]) auto
    qed
  qed
qed

lemma vfs_inv_create_pipe: "vfs_inv v \<Longrightarrow> vfs_inv (snd (create_pipe mem cap v))"
proof (cases "create_pipe mem cap v")
  case (Pair r v1)
  assume inv: "vfs_inv v"
  from Pair show ?thesis
  proof (cases rule: create_pipe_cases)
    case fail
    then show ?thesis using Pair inv by simp
  next
    case made
    have "slots_ok (length (nodes v)) (open_files v1)"
      using inv made(2) by (auto simp: vfs_inv_def intro!: slots_ok_install)
    moreover have "counter k (pipes v1) (ptys v1) = refs k (open_files v1)" for k
      using inv made(2) balanced_new_end [of v]
      by (auto simp: vfs_inv_def balanced_def refs_install counter_append_pipe PipeState_new_def)
    ultimately show ?thesis
      using inv made(2) Pair by (auto simp: vfs_inv_def balanced_def pipe_inv_def PipeState_new_def)
  qed
qed

lemma upd_pty_inv_cases:
  assumes "upd_pty i f v = (r, v1)"
  obtains "length (ptys v) \<le> i" "r = Inl VfsBadFd" "v1 = v"
  | "i < length (ptys v)" "r = Inr ()" "v1 = v\<lparr>ptys := (ptys v)[i := f (ptys v ! i)]\<rparr>"
  using assms by (auto simp: upd_pty_def nth_opt_def split: if_splits)

lemma upd_pipe_inv_cases:
  assumes "upd_pipe i f v = (r, v1)"
  obtains "length (pipes v) \<le> i" "r = Inl VfsBadFd" "v1 = v"
  | "i < length (pipes v)" "r = Inr ()" "v1 = v\<lparr>pipes := (pipes v)[i := f (pipes v ! i)]\<rparr>"
  using assms by (auto simp: upd_pipe_def nth_opt_def split: if_splits)

text \<open>A retained handle: its end is in range and counts one more reference than there are handles.\<close>

definition retained :: "OpenHandle \<Rightarrow> ('x, 'w) Vfs \<Rightarrow> bool" where
  "retained h v \<longleftrightarrow>
     (\<forall>k. counter k (pipes v) (ptys v) = refs k (open_files v) + (if end_of h = Some k then 1 else 0)) \<and>
     (\<forall>i. handle_node h = Some i \<longrightarrow> i < length (nodes v)) \<and>
     slots_ok (length (nodes v)) (open_files v) \<and> links_ok (nodes v) \<and>
     list_all pipe_inv (pipes v) \<and> list_all pty_inv (ptys v)"

lemma retained_push:
  assumes "retained h v" and "0 < available v"
  shows "\<exists>fd v1. push_open_handle mem h v = (Inr fd, v1) \<and> vfs_inv v1"
proof -
  obtain fd v1 where p: "push_open_handle mem h v = (Inr fd, v1)" using push_available [OF assms(2)] by blast
  obtain c where v1: "v1 = v\<lparr>open_cap := c, open_files := snd (install_handle h (open_files v))\<rparr>"
    using push_ok [OF p] by blast
  have "slots_ok (length (nodes v)) (snd (install_handle h (open_files v)))"
    using assms(1) by (intro slots_ok_install) (auto simp: retained_def)
  then show ?thesis using assms(1) p v1 by (auto simp: retained_def vfs_inv_def balanced_def refs_install)
qed

lemma counter_retain:
  assumes "retain_handle h v = (Inr u, v1)"
  shows "counter k (pipes v1) (ptys v1) = counter k (pipes v) (ptys v) + (if end_of h = Some k then 1 else 0)"
  using assms
  by (cases h; cases k)
     (auto simp: nth_list_update add_reader_def add_writer_def add_master_def add_slave_def
       elim!: upd_pipe_inv_cases upd_pty_inv_cases)

lemma retain_frame:
  assumes "retain_handle h v = (Inr u, v1)"
  shows "open_files v1 = open_files v" "nodes v1 = nodes v" "open_cap v1 = open_cap v"
    "list_all pipe_inv (pipes v) \<Longrightarrow> list_all pipe_inv (pipes v1)"
    "list_all pty_inv (ptys v) \<Longrightarrow> list_all pty_inv (ptys v1)"
  using assms
  by (cases h; auto simp: list_all_length nth_list_update pipe_inv_def pty_inv_def
       add_reader_def add_writer_def add_master_def add_slave_def
       elim!: upd_pipe_inv_cases upd_pty_inv_cases)+

lemma handle_at_in: "handle_at v fd = Some h \<Longrightarrow> Some h \<in> set (open_files v)"
  unfolding handle_at_def nth_opt_def by (cases "fd < length (open_files v)") (auto dest: nth_mem)

lemma retain_open:
  assumes "vfs_inv v" and "Some h \<in> set (open_files v)"
  shows "\<exists>v1. retain_handle h v = (Inr (), v1)"
proof -
  have pos: "0 < counter k (pipes v) (ptys v)" if "end_of h = Some k" for k
    using refs_pos [OF assms(2) that] assms(1) by (simp add: vfs_inv_def balanced_def)
  show ?thesis
    using pos by (cases h) (auto simp: upd_pipe_def upd_pty_def nth_opt_def split: if_splits)
qed

lemma retained_of_retain:
  assumes inv: "vfs_inv v" and h: "Some h \<in> set (open_files v)" and r: "retain_handle h v = (Inr u, v1)"
  shows "retained h v1"
  using inv h counter_retain [OF r] retain_frame [OF r]
  by (auto simp: retained_def vfs_inv_def balanced_def slots_ok_def)

lemma duplicate_fd_ok:
  assumes inv: "vfs_inv v" and h: "handle_at v fd = Some h" and d: "duplicate_fd mem fd v = (r, v1)"
  obtains (fail) "r = Inl VfsOutOfMemory" "v1 = v"
  | (copied) new v0 v2 where "r = Inr new" "vfs_inv v1" "\<exists>c. v0 = v\<lparr>open_cap := c\<rparr>"
      "retain_handle h v0 = (Inr (), v2)" "push_open_handle (mem 1) h v2 = (Inr new, v1)"
proof (cases "reserve_open_handle_slots (mem 0) 1 v")
  case (Pair r0 v0)
  show thesis
  proof (cases r0)
    case (Inl e)
    then show thesis using d h Pair reserve_err [of "mem 0" 1 v e v0] by (intro fail) (auto simp: duplicate_fd_def)
  next
    case (Inr u)
    obtain c where v0: "v0 = v\<lparr>open_cap := c\<rparr>" and av: "1 \<le> available v0" using reserve_ok Pair Inr by blast
    have inv0: "vfs_inv v0" "Some h \<in> set (open_files v0)" using inv v0 handle_at_in [OF h] by auto
    obtain v2 where ret: "retain_handle h v0 = (Inr (), v2)" using retain_open [OF inv0] by blast
    have "available v2 = available v0" using retain_frame(1,3) [OF ret] by (simp add: available_def)
    then have "0 < available v2" using av by simp
    with retained_push [OF retained_of_retain [OF inv0 ret]] obtain new v3
      where p: "push_open_handle (mem 1) h v2 = (Inr new, v3)" "vfs_inv v3" by blast
    have "r = Inr new" "v1 = v3" using d h Pair Inr ret p by (simp_all add: duplicate_fd_def)
    with p ret v0 show thesis by (intro copied) auto
  qed
qed

lemma vfs_inv_duplicate_fd: "vfs_inv v \<Longrightarrow> vfs_inv (snd (duplicate_fd mem fd v))"
  by (cases "handle_at v fd"; cases "duplicate_fd mem fd v")
     (auto elim: duplicate_fd_ok, simp add: duplicate_fd_def)

lemma counter_release:
  assumes "release_handle h v = (Inr u, v1)"
  shows "counter k (pipes v1) (ptys v1) = counter k (pipes v) (ptys v) - (if end_of h = Some k then 1 else 0)"
  using assms
  by (cases h; cases k)
     (auto simp: nth_list_update close_reader_def close_writer_def close_master_def close_slave_def saturating_sub_def
       elim!: upd_pipe_inv_cases upd_pty_inv_cases)

lemma release_frame:
  assumes "release_handle h v = (r, v1)"
  shows "open_files v1 = open_files v" "nodes v1 = nodes v" "open_cap v1 = open_cap v"
    "list_all pipe_inv (pipes v) \<Longrightarrow> list_all pipe_inv (pipes v1)"
    "list_all pty_inv (ptys v) \<Longrightarrow> list_all pty_inv (ptys v1)"
  using assms
  by (cases h; auto simp: list_all_length nth_list_update pipe_inv_def pty_inv_def
       close_reader_def close_writer_def close_master_def close_slave_def
       elim!: upd_pipe_inv_cases upd_pty_inv_cases)+

lemma close_cases:
  assumes inv: "vfs_inv v" and c: "close fd v = (r, v1)"
  obtains (bad) "handle_at v fd = None" "r = Inl VfsBadFd" "v1 = v"
  | (closed) h where "handle_at v fd = Some h" "r = Inr ()" "vfs_inv v1"
      "release_handle h (v\<lparr>open_files := (open_files v)[fd := None]\<rparr>) = (Inr (), v1)"
proof (cases "handle_at v fd")
  case None
  then show thesis
    using c by (intro bad) (auto simp: close_def handle_at_def split: option.splits)
next
  case (Some h)
  then have fd: "fd < length (open_files v)" "open_files v ! fd = Some h"
    by (auto simp: handle_at_def nth_opt_def bind_eq_Some_conv split: if_splits)
  let ?v0 = "v\<lparr>open_files := (open_files v)[fd := None]\<rparr>"
  have cl: "release_handle h ?v0 = (r, v1)" using c fd by (simp add: close_def nth_opt_def)
  have pos: "0 < counter k (pipes ?v0) (ptys ?v0)" if "end_of h = Some k" for k
    using refs_pos [OF handle_at_in [OF Some] that] inv by (simp add: vfs_inv_def balanced_def)
  obtain v1' where "release_handle h ?v0 = (Inr (), v1')"
    using pos by (cases h) (auto simp: upd_pipe_def upd_pty_def nth_opt_def split: if_splits)
  with cl have r: "release_handle h ?v0 = (Inr (), v1)" "r = Inr ()" by simp_all
  have "refs k ((open_files v)[fd := None]) = refs k (open_files v) - (if end_of h = Some k then 1 else 0)" for k
    using refs_update [OF fd(1), of k None] fd(2) by (auto split: if_splits)
  then have "balanced v1"
    using inv counter_release [OF r(1)] release_frame(1) [OF r(1)] by (simp add: vfs_inv_def balanced_def)
  moreover have "slots_ok (length (nodes v)) ((open_files v)[fd := None])"
    using inv by (intro slots_ok_update) (auto simp: vfs_inv_def)
  ultimately have "vfs_inv v1" using inv release_frame [OF r(1)] by (simp add: vfs_inv_def)
  with Some r show thesis by (intro closed)
qed

lemma vfs_inv_close: "vfs_inv v \<Longrightarrow> vfs_inv (snd (close fd v))"
  by (cases "close fd v") (auto elim: close_cases)

lemma vfs_inv_timestamp [simp]: "vfs_inv (snd (timestamp ops v)) = vfs_inv v"
  by (simp add: timestamp_def case_prod_beta Let_def)

lemma timestamp_frame [simp]:
  "nodes (snd (timestamp ops v)) = nodes v" "open_files (snd (timestamp ops v)) = open_files v"
  "open_cap (snd (timestamp ops v)) = open_cap v" "pipes (snd (timestamp ops v)) = pipes v"
  "ptys (snd (timestamp ops v)) = ptys v"
  by (simp_all add: timestamp_def case_prod_beta Let_def)

lemma ensure_pty_slave_node_frame:
  assumes "ensure_pty_slave_node ops mem pty v = (r, v1)"
  shows "open_files v1 = open_files v" "open_cap v1 = open_cap v" "pipes v1 = pipes v" "ptys v1 = ptys v"
    "length (nodes v) \<le> length (nodes v1)" "links_ok (nodes v) \<Longrightarrow> links_ok (nodes v1)"
    "r = Inl e \<Longrightarrow> v1 = v"
  using assms
  by (auto simp: ensure_pty_slave_node_def case_prod_beta Let_def mk_node_def
      split: sum.splits if_splits intro!: links_ok_append)

lemma open_pty_master_cases:
  assumes inv: "vfs_inv v"
  shows "vfs_inv (snd (open_pty_master ops mem rights v)) \<and>
    (fst (open_pty_master ops mem rights v) = Err e \<longrightarrow>
       ptys (snd (open_pty_master ops mem rights v)) = ptys v \<and>
       open_files (snd (open_pty_master ops mem rights v)) = open_files v)"
proof (cases "reserve_open_handle_slots (mem 0) 1 v")
  case (Pair r0 v0)
  show ?thesis
  proof (cases r0)
    case (Inl e0)
    then show ?thesis using Pair inv reserve_err [of "mem 0" 1 v e0 v0] by (auto simp: open_pty_master_def)
  next
    case (Inr u)
    obtain c where v0: "v0 = v\<lparr>open_cap := c\<rparr>" and av: "1 \<le> available v0" using reserve_ok Pair Inr by blast
    let ?v2 = "v0\<lparr>ptys := ptys v0 @ [PtyState_new (vo_default_termios ops) 4096]\<rparr>"
    obtain r3 v3 where en: "ensure_pty_slave_node ops (\<lambda>i. mem (i + 2)) (length (ptys v)) ?v2 = (r3, v3)"
      by (cases "ensure_pty_slave_node ops (\<lambda>i. mem (i + 2)) (length (ptys v)) ?v2")
    note fr = ensure_pty_slave_node_frame [OF en]
    show ?thesis
    proof (cases "mem 1")
      case False
      then show ?thesis using Pair Inr v0 inv by (simp add: open_pty_master_def)
    next
      case True
      show ?thesis
      proof (cases r3)
        case (Inl e1)
        then have "v3 = ?v2" using fr(7) by blast
        then show ?thesis using Pair Inr True en Inl v0 inv by (simp add: open_pty_master_def)
      next
        case (Inr u3)
        have "retained (H_PtyMaster (length (ptys v)) rights) v3"
          using inv fr v0 balanced_new_end [of v] slots_ok_mono
          by (auto simp: retained_def vfs_inv_def balanced_def counter_append_pty PtyState_new_def pty_inv_def USIZE_MAX_def)
        moreover have "available v3 = available v0" using fr(1,2) by (simp add: available_def)
        then have "0 < available v3" using av by simp
        ultimately obtain fd v4 where "push_open_handle (mem 4) (H_PtyMaster (length (ptys v)) rights) v3 = (Inr fd, v4)"
          "vfs_inv v4" using retained_push by blast
        then show ?thesis using Pair \<open>r0 = Inr u\<close> True en Inr v0 by (simp add: open_pty_master_def)
      qed
    qed
  qed
qed

lemma vfs_inv_open_pty_master: "vfs_inv v \<Longrightarrow> vfs_inv (snd (open_pty_master ops mem rights v))"
  using open_pty_master_cases by blast

lemma vfs_inv_open_pty_slave:
  assumes inv: "vfs_inv v"
  shows "vfs_inv (snd (open_pty_slave mem pty rights v))"
proof (cases "nth_opt (ptys v) pty = None \<or> pty_locked (ptys v ! pty)")
  case True
  then show ?thesis using inv by (auto simp: open_pty_slave_def nth_opt_def split: if_splits)
next
  case False
  then have pty: "nth_opt (ptys v) pty = Some (ptys v ! pty)" "pty < length (ptys v)" "\<not> pty_locked (ptys v ! pty)"
    by (auto simp: nth_opt_def split: if_splits)
  show ?thesis
  proof (cases "reserve_open_handle_slots (mem 0) 1 v")
    case (Pair r0 v0)
    show ?thesis
    proof (cases r0)
      case (Inl e)
      then show ?thesis using Pair inv pty reserve_err [of "mem 0" 1 v e v0] by (auto simp: open_pty_slave_def)
    next
      case (Inr u)
      obtain c where v0: "v0 = v\<lparr>open_cap := c\<rparr>" and av: "1 \<le> available v0" using reserve_ok Pair Inr by blast
      let ?h = "H_PtySlave pty rights"
      obtain v2 where r: "retain_handle ?h v0 = (Inr (), v2)"
        using pty v0 by (simp add: upd_pty_def)
      have "retained ?h v2"
        using inv v0 counter_retain [OF r] retain_frame [OF r] by (auto simp: retained_def vfs_inv_def balanced_def)
      moreover have "available v2 = available v0" using retain_frame(1,3) [OF r] by (simp add: available_def)
      then have "0 < available v2" using av by simp
      ultimately obtain fd v4 where "push_open_handle (mem 1) ?h v2 = (Inr fd, v4)" "vfs_inv v4"
        using retained_push by blast
      then show ?thesis using Pair Inr r pty by (simp add: open_pty_slave_def)
    qed
  qed
qed

section \<open>Read, write and seek\<close>

text \<open>For the operations that may panic: whatever they return keeps the invariant.\<close>

definition keeps :: "('a \<times> ('x, 'w) Vfs) option \<Rightarrow> bool" where
  "keeps r \<longleftrightarrow> (\<forall>x v. r = Some (x, v) \<longrightarrow> vfs_inv v)"

lemma keeps_simps [simp]: "keeps None" "keeps (Some p) = vfs_inv (snd p)"
  by (auto simp: keeps_def) (cases p, simp)

lemma keeps_bind: "(\<And>x. m = Some x \<Longrightarrow> keeps (f x)) \<Longrightarrow> keeps (Option.bind m f)"
  by (cases m) auto

lemma keepsD: "keeps r \<Longrightarrow> r = Some (x, v) \<Longrightarrow> vfs_inv v"
  by (simp add: keeps_def)

lemma pipe_read_frame:
  "pipe_read n p = (r, p1) \<Longrightarrow>
   pipe_readers p1 = pipe_readers p \<and> pipe_writers p1 = pipe_writers p \<and> (pipe_inv p \<longrightarrow> pipe_inv p1)"
  by (auto simp: pipe_read_def pipe_inv_def Let_def split: if_splits)

lemma pipe_write_frame:
  "pipe_write input p = (r, p1) \<Longrightarrow>
   pipe_readers p1 = pipe_readers p \<and> pipe_writers p1 = pipe_writers p \<and> (pipe_inv p \<longrightarrow> pipe_inv p1)"
  by (auto simp: pipe_write_def pipe_inv_def push_loop_eq Let_def case_prod_beta split: if_splits)

lemma read_master_frame:
  "read_master n s = (r, s1) \<Longrightarrow> pty_masters s1 = pty_masters s \<and> pty_slaves s1 = pty_slaves s \<and> (pty_inv s \<longrightarrow> pty_inv s1)"
  by (auto simp: read_master_def read_queue_def pty_inv_def Let_def split: if_splits)

lemma read_slave_frame:
  "read_slave n s = (r, s1) \<Longrightarrow> pty_masters s1 = pty_masters s \<and> pty_slaves s1 = pty_slaves s \<and> (pty_inv s \<longrightarrow> pty_inv s1)"
  by (auto simp: read_slave_def read_queue_def pty_inv_def Let_def split: if_splits)

lemma write_slave_ends [simp]:
  "pty_masters (snd (write_slave_output input s)) = pty_masters s"
  "pty_slaves (snd (write_slave_output input s)) = pty_slaves s"
  by (simp_all add: write_slave_output_def case_prod_beta Let_def)

lemma master_byte_ends:
  "master_byte b s = Some (s1, sigs) \<Longrightarrow> pty_masters s1 = pty_masters s \<and> pty_slaves s1 = pty_slaves s"
  by (auto simp: master_byte_def commit_line_def echo_erase_def Let_def case_prod_beta split: option.splits if_splits)

lemma master_loop_ends:
  "pty_masters (fst (snd (master_loop input s))) = pty_masters s \<and> pty_slaves (fst (snd (master_loop input s))) = pty_slaves s"
proof (induction input arbitrary: s)
  case (Cons b input)
  then show ?case by (auto simp: case_prod_beta Let_def split: option.splits dest!: master_byte_ends)
qed simp

lemma write_master_frame:
  assumes "write_master_input input s = (r, s1, sigs)"
  shows "pty_masters s1 = pty_masters s" "pty_slaves s1 = pty_slaves s" "pty_inv s \<Longrightarrow> pty_inv s1"
  using assms master_loop_ends [of input s] pty_inv_master_loop [of s input]
  by (auto simp: write_master_input_def case_prod_beta Let_def split: if_splits)

lemma wake_if_inv [simp]: "vfs_inv (wake_if ops c v) = vfs_inv v"
  by (simp add: wake_if_def)

lemma vfs_inv_nth:
  assumes "vfs_inv v"
  shows "nth_opt (pipes v) i = Some p \<Longrightarrow> i < length (pipes v) \<and> p = pipes v ! i \<and> pipe_inv p"
    "nth_opt (ptys v) i = Some s \<Longrightarrow> i < length (ptys v) \<and> s = ptys v ! i \<and> pty_inv s"
  using assms by (auto simp: vfs_inv_def list_all_length nth_opt_def split: if_splits)

lemma write_slave_frame:
  assumes "write_slave_output input s = (r, s1)"
  shows "pty_masters s1 = pty_masters s \<and> pty_slaves s1 = pty_slaves s \<and> (pty_inv s \<longrightarrow> pty_inv s1)"
  using write_slave_ends [of input s] pty_inv_write_slave [of s input] assms by simp

lemma vfs_inv_read_pipe:
  assumes inv: "vfs_inv v"
  shows "vfs_inv (snd (read_pipe ops pipe n v))"
  using inv vfs_inv_nth(1) [OF inv]
  by (auto simp: read_pipe_def split: option.splits prod.splits sum.splits
      dest!: pipe_read_frame intro!: vfs_inv_pipe_step)

lemma vfs_inv_write_pipe:
  assumes inv: "vfs_inv v"
  shows "vfs_inv (snd (write_pipe ops pipe input v))"
  using inv vfs_inv_nth(1) [OF inv]
  by (auto simp: write_pipe_def split: option.splits prod.splits sum.splits
      dest!: pipe_write_frame intro!: vfs_inv_pipe_step)

lemma vfs_inv_read_pty:
  assumes "vfs_inv v"
    and "\<And>s r s1. f n s = (r, s1) \<Longrightarrow> pty_masters s1 = pty_masters s \<and> pty_slaves s1 = pty_slaves s \<and> (pty_inv s \<longrightarrow> pty_inv s1)"
  shows "vfs_inv (snd (read_pty ops f pty rights n v))"
  using assms(1) vfs_inv_nth(2) [OF assms(1)]
  by (auto simp: read_pty_def split: option.splits prod.splits sum.splits
      dest!: assms(2) intro!: vfs_inv_pty_step)

lemma vfs_inv_read_ptys:
  assumes "vfs_inv v"
  shows "vfs_inv (snd (read_pty ops read_master pty rights n v))" "vfs_inv (snd (read_pty ops read_slave pty rights n v))"
  by (rule vfs_inv_read_pty [OF assms], erule read_master_frame, rule vfs_inv_read_pty [OF assms], erule read_slave_frame)

lemma vfs_inv_write_pty_slave:
  assumes inv: "vfs_inv v"
  shows "vfs_inv (snd (write_pty_slave ops pty rights input v))"
  using inv vfs_inv_nth(2) [OF inv]
  by (auto simp: write_pty_slave_def split: option.splits prod.splits sum.splits
      dest!: write_slave_frame intro!: vfs_inv_pty_step)

lemma vfs_inv_write_pty_master:
  assumes inv: "vfs_inv v"
  shows "vfs_inv (snd (write_pty_master ops pty rights input v))"
proof (cases "nth_opt (ptys v) pty")
  case (Some s)
  obtain r s1 sigs where w: "write_master_input input s = (r, s1, sigs)" by (metis prod_cases3)
  have "vfs_inv (v\<lparr>ptys := (ptys v)[pty := s1]\<rparr>)"
    using vfs_inv_nth(2) [OF inv Some] write_master_frame [OF w] by (intro vfs_inv_pty_step [OF inv]) auto
  then have "vfs_inv (v\<lparr>ptys := (ptys v)[pty := s1], pty_signals := pty_signals v @ sigs\<rparr>)" by simp
  then show ?thesis using Some w inv by (simp add: write_pty_master_def Let_def split: sum.splits)
qed (use inv in \<open>simp add: write_pty_master_def\<close>)

lemma vfs_inv_read_device: "vfs_inv v \<Longrightarrow> vfs_inv (snd (read_device ops kind fd off n v))"
  by (auto simp: read_device_def case_prod_beta Let_def split: DeviceKind.splits sum.splits prod.splits
      intro!: vfs_inv_set_cursor)

lemma vfs_inv_write_device: "vfs_inv v \<Longrightarrow> vfs_inv (snd (write_device ops kind fd off input v))"
  by (auto simp: write_device_def log_text_def case_prod_beta Let_def
      split: DeviceKind.splits sum.splits prod.splits option.splits intro!: vfs_inv_set_cursor)

lemma keeps_read_node: "vfs_inv v \<Longrightarrow> keeps (read_node ops fd node off rights n v)"
  by (auto simp: read_node_def Let_def vfs_inv_read_device split: option.splits NodeKind.splits
      intro!: vfs_inv_set_cursor keeps_bind)

lemma keeps_read: "vfs_inv v \<Longrightarrow> keeps (read ops fd n v)"
  by (auto simp: read_def keeps_read_node vfs_inv_read_pipe vfs_inv_read_ptys
      split: option.splits OpenHandle.splits sum.splits intro!: vfs_inv_set_cursor)

lemma ext2_run_frame [simp]:
  "vfs_inv (snd (ext2_run f x v)) = vfs_inv v" "nodes (snd (ext2_run f x v)) = nodes v"
  "open_files (snd (ext2_run f x v)) = open_files v"
  by (simp_all add: ext2_run_def set_root_ext2_def split: prod.splits sum.splits)

lemma vfs_inv_ext2_run: "ext2_run f x v = (r, v1) \<Longrightarrow> vfs_inv v \<Longrightarrow> vfs_inv v1"
  using ext2_run_frame(1) [of f x v] by simp

lemma vfs_inv_write_ext2: "vfs_inv v \<Longrightarrow> vfs_inv (snd (write_ext2 ops mem fd path off rights input v))"
  by (auto simp: write_ext2_def split: option.splits sum.splits prod.splits
      dest: vfs_inv_ext2_run intro!: vfs_inv_set_cursor)

lemma keeps_write_node:
  assumes inv: "vfs_inv v"
  shows "keeps (write_node ops mem fd node off rights input v)"
proof -
  have data: "vfs_inv (upd_node i (\<lambda>n. n\<lparr>n_data := d\<rparr>) v)" for i d
    by (rule vfs_inv_upd_node [OF inv]) simp
  have "vfs_inv (upd_node i (touch now) (snd (timestamp ops (set_cursor fd fin (upd_node i (\<lambda>n. n\<lparr>n_data := d\<rparr>) v)))))"
    for i d now fin
    by (rule vfs_inv_upd_node) (simp_all add: data vfs_inv_set_cursor touch_def)
  with data inv show ?thesis
    by (auto simp: write_node_def Let_def case_prod_beta vfs_inv_write_device split: NodeKind.splits sum.splits
        intro!: keeps_bind)
qed

lemma keeps_vfs_write: "vfs_inv v \<Longrightarrow> keeps (vfs_write ops mem fd input v)"
  by (auto simp: vfs_write_def keeps_write_node vfs_inv_write_pipe vfs_inv_write_pty_master vfs_inv_write_pty_slave
      vfs_inv_write_ext2 split: option.splits OpenHandle.splits)

lemma keeps_write_and_deliver: "vfs_inv v \<Longrightarrow> keeps (write_and_deliver ops mem fd input v)"
  using keeps_vfs_write [of v ops mem fd input]
  by (auto simp: write_and_deliver_def deliver_pty_signals_def keeps_def)

lemma keeps_truncate_fd:
  assumes inv: "vfs_inv v"
  shows "keeps (truncate_fd ops mem fd len v)"
proof -
  have data: "vfs_inv (upd_node i (\<lambda>n. n\<lparr>n_data := d\<rparr>) v)" for i d
    by (rule vfs_inv_upd_node [OF inv]) simp
  have "vfs_inv (upd_node i (touch now) (snd (timestamp ops (upd_node i (\<lambda>n. n\<lparr>n_data := d\<rparr>) v))))" for i d now
    by (rule vfs_inv_upd_node) (simp_all add: data touch_def)
  with data inv show ?thesis
    by (auto simp: truncate_fd_def Let_def case_prod_beta split: option.splits OpenHandle.splits sum.splits
        intro!: keeps_bind)
qed

lemma keeps_lseek: "vfs_inv v \<Longrightarrow> keeps (lseek ops fd off whence v)"
  by (auto simp: lseek_def lseek_to_def split: option.splits OpenHandle.splits sum.splits
      intro!: vfs_inv_set_cursor keeps_bind)

lemma vfs_inv_set_directory_offset: "vfs_inv v \<Longrightarrow> vfs_inv (snd (set_directory_offset fd off v))"
  by (auto simp: set_directory_offset_def split: option.splits OpenHandle.splits intro!: vfs_inv_set_cursor)

lemma vfs_inv_on_pty:
  assumes "vfs_inv v" and "\<And>s. pty_masters (f s) = pty_masters s \<and> pty_slaves (f s) = pty_slaves s \<and> pty_inv (f s) = pty_inv s"
  shows "vfs_inv (snd (on_pty fd f v))"
  using assms vfs_inv_nth(2) [OF assms(1)]
  by (auto simp: on_pty_def upd_pty_def split: option.splits intro!: vfs_inv_pty_step)

lemma vfs_inv_pty_settings:
  assumes "vfs_inv v"
  shows "vfs_inv (snd (set_pty_locked fd b v))" "vfs_inv (snd (set_pty_termios_bytes fd bs v))"
    "vfs_inv (snd (set_pty_winsize fd bs v))" "vfs_inv (snd (set_pty_foreground_pgrp fd pgrp v))"
  using assms
  by (auto simp: set_pty_locked_def set_pty_termios_bytes_def set_pty_winsize_def set_pty_foreground_pgrp_def pty_inv_def
      intro!: vfs_inv_on_pty)

lemma keeps_fstat: "vfs_inv v \<Longrightarrow> keeps (fstat ops fd v)"
  by (auto simp: fstat_def Let_def case_prod_beta split: option.splits OpenHandle.splits sum.splits
      intro!: keeps_bind)

end
