(* ===== verification/Vfs_Calls.thy ===== *)
theory Vfs_Calls
  imports Vfs_Refs
begin

text \<open>
  Sequences of VFS calls.  \<open>vfs_call\<close> performs one state-changing call; the
  invariant \<open>vfs_inv\<close> holds of the initial tree and is kept by every run, and no
  call panics except a read past the end of a \<open>/proc\<close> text.
\<close>

section \<open>Names keep the invariant\<close>

lemma mk_node_link [simp]: "n_link_target (mk_node path kind meta c m data link) = link"
  by (simp add: mk_node_def)

lemma reserve_frame [simp]:
  "vfs_inv (snd (reserve_open_handle_slots mem n v)) = vfs_inv v"
  "nodes (snd (reserve_open_handle_slots mem n v)) = nodes v"
  by (auto simp: reserve_open_handle_slots_def Let_def)

lemma length_upd_node [simp]: "length (nodes (upd_node i f v)) = length (nodes v)"
  by (simp add: upd_node_def)

lemma vfs_inv_add:
  assumes "vfs_inv v" and "ns = nodes v" and "\<And>i. n_link_target n = Some i \<Longrightarrow> i < length ns"
  shows "vfs_inv (v\<lparr>nodes := ns @ [n]\<rparr>)"
  using assms vfs_inv_append_node by blast

lemma vfs_inv_push_node:
  assumes "vfs_inv v" and "\<And>i. n_link_target n = Some i \<Longrightarrow> i < length (nodes v)"
  shows "vfs_inv (snd (push_node mem n v))"
  using assms by (auto simp: push_node_def intro!: vfs_inv_append_node)

lemma vfs_inv_create_ext2: "vfs_inv v \<Longrightarrow> vfs_inv (snd (create_ext2 ops mem path creds md x v))"
  by (auto simp: create_ext2_def split: sum.splits Ext2Error.splits prod.splits
      dest: vfs_inv_ext2_run intro!: vfs_inv_push)

lemma node_at_in: "node_at path ns = Some i \<Longrightarrow> i < length ns"
  by (auto simp: node_at_def dest: position_Some)

lemma keeps_create_node:
  assumes inv: "vfs_inv v"
  shows "keeps (create_node ops mem path creds md v)"
proof -
  have clear: "vfs_inv (upd_node i (\<lambda>n. n\<lparr>n_data := d\<rparr>) v)" for i d
    by (rule vfs_inv_upd_node [OF inv]) simp
  have old: "vfs_inv (snd (push_open_handle m (H_Node j 0 rights_rw)
      (upd_node i (touch now) (snd (timestamp ops (upd_node i (\<lambda>n. n\<lparr>n_data := d\<rparr>) v))))))"
    if "j < length (nodes v)" for m i j d now
    using that
    by (intro vfs_inv_push vfs_inv_upd_node) (simp_all add: clear touch_def)
  let ?v1 = "snd (timestamp ops v)"
  have new: "vfs_inv (snd (push_open_handle m (H_Node (length (nodes v)) 0 rights_rw) (v2\<lparr>nodes := nodes v @ [n]\<rparr>)))"
    if "v2 = snd (reserve_open_handle_slots m' 1 ?v1)" "n_link_target n = None" for m m' n v2
    using that inv vfs_inv_append_node [of v2 n] by (intro vfs_inv_push) auto
  have res: "vfs_inv (snd (reserve_open_handle_slots m 1 ?v1))" for m using inv by simp
  show ?thesis
    using inv old new res node_at_in
    by (auto simp: create_node_def push_node_def case_prod_beta Let_def split: sum.splits option.splits prod.splits
        intro!: keeps_bind)
qed

lemma keeps_create_file: "vfs_inv v \<Longrightarrow> keeps (create_file_with_mode_as ops mem path creds md v)"
  by (auto simp: create_file_with_mode_as_def Let_def vfs_inv_create_ext2 keeps_create_node split: sum.splits option.splits)

lemma keeps_open_node:
  assumes "vfs_inv v"
  shows "keeps (open_node ops mem node creds rights v)"
  using assms
  by (auto simp: open_node_def nth_opt_Some vfs_inv_open_pty_master vfs_inv_open_pty_slave
      split: NodeKind.splits DeviceKind.splits intro!: keeps_bind vfs_inv_push)

lemma vfs_inv_open_ext2: "vfs_inv v \<Longrightarrow> vfs_inv (snd (open_ext2 ops mem path creds rights x v))"
  by (auto simp: open_ext2_def split: sum.splits intro!: vfs_inv_push)

lemma vfs_inv_reserve: "reserve_open_handle_slots mem n v = (r, v1) \<Longrightarrow> vfs_inv v \<Longrightarrow> vfs_inv v1"
  using reserve_frame(1) [of mem n v] by simp

lemma keeps_open_as: "vfs_inv v \<Longrightarrow> keeps (open_as ops mem path creds rights v)"
  by (auto simp: open_as_def Let_def case_prod_beta push_node_def keeps_open_node vfs_inv_open_ext2
      split: sum.splits option.splits prod.splits
      dest: vfs_inv_reserve intro!: keeps_open_node vfs_inv_add)

lemma vfs_inv_add_node:
  assumes "vfs_inv v" and "\<And>now i. n_link_target (mk now) = Some i \<Longrightarrow> i < length (nodes v)"
  shows "vfs_inv (snd (add_node ops mem mk v))"
  using assms by (auto simp: add_node_def case_prod_beta Let_def push_node_def intro!: vfs_inv_add)

lemma vfs_inv_mkdir: "vfs_inv v \<Longrightarrow> vfs_inv (snd (mkdir_with_mode_as ops mem path creds md v))"
  by (auto simp: mkdir_with_mode_as_def split: sum.splits option.splits intro!: vfs_inv_add_node)

lemma keeps_rmdir: "vfs_inv v \<Longrightarrow> keeps (rmdir_as ops mem path creds v)"
  by (auto simp: rmdir_as_def Let_def split: sum.splits option.splits intro!: keeps_bind vfs_inv_upd_node)

lemma vfs_inv_unlink: "vfs_inv v \<Longrightarrow> vfs_inv (snd (unlink_as ops mem path creds v))"
  by (auto simp: unlink_as_def split: sum.splits option.splits intro!: vfs_inv_upd_node)

lemma vfs_inv_set_path: "vfs_inv v \<Longrightarrow> vfs_inv (set_path p v)"
  by (auto simp: set_path_def case_prod_beta intro!: vfs_inv_upd_node)

lemma vfs_inv_fold_set_path: "vfs_inv v \<Longrightarrow> vfs_inv (fold set_path ps v)"
  by (induction ps arbitrary: v) (auto intro: vfs_inv_set_path)

lemma vfs_inv_rename_nodes: "vfs_inv v \<Longrightarrow> vfs_inv (snd (rename_nodes mem old new creds v))"
  by (auto simp: rename_nodes_def Let_def split: sum.splits option.splits
      intro!: vfs_inv_fold_set_path vfs_inv_set_path)

lemma vfs_inv_rename: "vfs_inv v \<Longrightarrow> vfs_inv (snd (rename_as ops mem old new creds v))"
  by (auto simp: rename_as_def vfs_inv_rename_nodes split: sum.splits option.splits)

lemma vfs_inv_symlink: "vfs_inv v \<Longrightarrow> vfs_inv (snd (symlink_as ops mem target path creds v))"
  by (auto simp: symlink_as_def split: sum.splits option.splits intro!: vfs_inv_add_node)

lemma keeps_link: "vfs_inv v \<Longrightarrow> keeps (link_as ops mem old new creds v)"
  by (auto simp: link_as_def Let_def nth_opt_Some split: sum.splits option.splits intro!: keeps_bind vfs_inv_add_node)

lemma vfs_inv_chown: "vfs_inv v \<Longrightarrow> vfs_inv (snd (chown_as ops mem path u g creds v))"
  by (auto simp: chown_as_def split: sum.splits option.splits intro!: vfs_inv_upd_node)

lemma keeps_change_owned:
  assumes "vfs_inv v" and "\<And>n. n_link_target (f n) = n_link_target n"
  shows "keeps (change_owned ops mem path creds g f v)"
  using assms by (auto simp: change_owned_def Let_def split: sum.splits option.splits intro!: keeps_bind vfs_inv_upd_node)

lemma keeps_chmod: "vfs_inv v \<Longrightarrow> keeps (chmod_as ops mem path md creds v)"
  by (auto simp: chmod_as_def intro!: keeps_change_owned)

lemma keeps_set_mtime: "vfs_inv v \<Longrightarrow> keeps (set_mtime_as ops mem path t creds v)"
  by (auto simp: set_mtime_as_def touch_def intro!: keeps_change_owned)

lemma keeps_stat: "vfs_inv v \<Longrightarrow> keeps (stat_inner ops mem path follow v)"
  by (auto simp: stat_inner_def Let_def case_prod_beta split: sum.splits option.splits intro!: keeps_bind)

section \<open>No call panics\<close>

lemma canonical_steps_in: "links_ok ns \<Longrightarrow> i < length ns \<Longrightarrow> canonical_steps k ns i < length ns"
proof (induction k arbitrary: i)
  case (Suc k)
  show ?case
  proof (cases "n_link_target (ns ! i)")
    case (Some j)
    then have "j < length ns" using Suc.prems nth_mem by (auto simp: links_ok_def)
    then show ?thesis using Suc Some by (simp add: nth_opt_def)
  qed (use Suc.prems in \<open>simp add: nth_opt_def\<close>)
qed simp

lemma canonical_in: "vfs_inv v \<Longrightarrow> i < length (nodes v) \<Longrightarrow> canonical_node_index (nodes v) i < length (nodes v)"
  by (simp add: canonical_node_index_def canonical_steps_in vfs_inv_def)

lemma handle_node_in: "vfs_inv v \<Longrightarrow> handle_at v fd = Some (H_Node node off rights) \<Longrightarrow> node < length (nodes v)"
  by (auto simp: vfs_inv_def slots_ok_def dest: handle_at_in)

lemma nth_opt_in: "i < length xs \<Longrightarrow> nth_opt xs i = Some (xs ! i)"
  by (simp add: nth_opt_def)

lemmas in_range = canonical_in handle_node_in node_at_in nth_opt_in

definition returns :: "'a option \<Rightarrow> bool" where
  "returns r \<longleftrightarrow> r \<noteq> None"

lemma returns_simps [simp]: "returns (Some x)" "\<not> returns None" "returns (map_option f r) = returns r"
  by (simp_all add: returns_def)

lemma returns_bind_nth [simp]: "i < length xs \<Longrightarrow> Option.bind (nth_opt xs i) f = f (xs ! i)"
  by (simp add: nth_opt_def)

lemma open_node_total: "vfs_inv v \<Longrightarrow> node < length (nodes v) \<Longrightarrow> returns (open_node ops mem node creds rights v)"
  by (auto simp: open_node_def in_range split: NodeKind.splits DeviceKind.splits)

lemma create_total: "vfs_inv v \<Longrightarrow> returns (create_file_with_mode_as ops mem path creds md v)"
  by (auto simp: create_file_with_mode_as_def create_node_def in_range Let_def case_prod_beta
      split: sum.splits option.splits prod.splits)

lemma open_total:
  assumes inv: "vfs_inv v"
  shows "returns (open_as ops mem path creds rights v)"
proof -
  have "returns (open_node ops m (length (nodes v)) creds rights (v3\<lparr>nodes := nodes v @ [n]\<rparr>))"
    if "vfs_inv v3" "nodes v3 = nodes v" "n_link_target n = None" for m v3 n
    using that vfs_inv_add [of v3 "nodes v" n] by (intro open_node_total) auto
  then show ?thesis
    using inv by (auto simp: open_as_def Let_def case_prod_beta push_node_def open_node_total in_range
        split: sum.splits option.splits prod.splits dest: vfs_inv_reserve)
qed

lemma write_total: "vfs_inv v \<Longrightarrow> returns (write_and_deliver ops mem fd input v)"
  by (auto simp: write_and_deliver_def vfs_write_def write_node_def in_range Let_def case_prod_beta
      split: option.splits OpenHandle.splits NodeKind.splits sum.splits prod.splits)

lemma truncate_total: "vfs_inv v \<Longrightarrow> returns (truncate_fd ops mem fd len v)"
  by (auto simp: truncate_fd_def in_range Let_def case_prod_beta
      split: option.splits OpenHandle.splits sum.splits prod.splits)

lemma lseek_total: "vfs_inv v \<Longrightarrow> returns (lseek ops fd off whence v)"
  by (auto simp: lseek_def node_size_def in_range split: option.splits OpenHandle.splits sum.splits
      NodeKind.splits DeviceKind.splits)

lemma fstat_total: "vfs_inv v \<Longrightarrow> returns (fstat ops fd v)"
  by (auto simp: fstat_def in_range Let_def case_prod_beta split: option.splits OpenHandle.splits sum.splits)

lemma stat_total: "vfs_inv v \<Longrightarrow> returns (stat_inner ops mem path follow v)"
  by (auto simp: stat_inner_def in_range Let_def case_prod_beta split: option.splits sum.splits)

lemma rmdir_total: "vfs_inv v \<Longrightarrow> returns (rmdir_as ops mem path creds v)"
  by (auto simp: rmdir_as_def in_range Let_def split: option.splits sum.splits)

lemma link_total: "vfs_inv v \<Longrightarrow> returns (link_as ops mem old new creds v)"
  by (auto simp: link_as_def in_range Let_def split: option.splits sum.splits)

lemma change_owned_total: "vfs_inv v \<Longrightarrow> returns (change_owned ops mem path creds g f v)"
  by (auto simp: change_owned_def in_range Let_def split: option.splits sum.splits)

lemma read_proc_text_None: "read_proc_text t off n = None \<Longrightarrow> length t < off"
  by (auto simp: read_proc_text_def saturating_sub_def Let_def split: if_splits)

lemma read_node_None:
  assumes "vfs_inv v" and "node < length (nodes v)" and "read_node ops fd node off rights n v = None"
  shows "\<exists>t. vo_proc_text ops (n_path (nodes v ! node)) (v_world v) = Some t \<and> length t < off"
proof (cases "vo_proc_text ops (n_path (nodes v ! node)) (v_world v)")
  case None
  then have "returns (read_node ops fd node off rights n v)"
    using assms(1,2) by (auto simp: read_node_def canonical_in Let_def split: NodeKind.splits)
  then show ?thesis using assms(3) by simp
next
  case (Some t)
  then show ?thesis
    using assms(2,3) by (auto simp: read_node_def split: if_splits bind_splits dest: read_proc_text_None)
qed

lemma read_None:
  assumes inv: "vfs_inv v" and r: "read ops fd n v = None"
  shows "\<exists>node off rights t. handle_at v fd = Some (H_Node node off rights) \<and>
    vo_proc_text ops (n_path (nodes v ! node)) (v_world v) = Some t \<and> length t < off"
proof (cases "handle_at v fd")
  case (Some h)
  show ?thesis
  proof (cases h)
    case (H_Node node off rights)
    then show ?thesis
      using Some r read_node_None [OF inv handle_node_in [OF inv]] by (simp add: read_def)
  qed (use Some r in \<open>auto simp: read_def split: if_splits option.splits sum.splits\<close>)
qed (use r in \<open>simp add: read_def\<close>)

section \<open>Calls and runs\<close>

datatype VfsCall =
    Call_Pipe usize | Call_Dup usize | Call_Close usize | Call_Read usize usize | Call_Write usize bytes
  | Call_Truncate usize usize | Call_Lseek usize int nat | Call_Fstat usize | Call_Stat bytes bool
  | Call_Create bytes Credentials u16 | Call_Open bytes Credentials OpenRights | Call_Mkdir bytes Credentials u16
  | Call_Rmdir bytes Credentials | Call_Unlink bytes Credentials | Call_Rename bytes bytes Credentials
  | Call_Symlink bytes bytes Credentials | Call_Link bytes bytes Credentials
  | Call_Chown bytes u32 u32 Credentials | Call_Chmod bytes u16 Credentials | Call_SetMtime bytes u64 Credentials
  | Call_PtyLock usize bool | Call_PtyTermios usize bytes | Call_PtyWinsize usize bytes | Call_PtyForeground usize Pid
  | Call_DirOffset usize usize

fun vfs_call :: "('x, 'w) VOps \<Rightarrow> (nat \<Rightarrow> bool) \<Rightarrow> VfsCall \<Rightarrow> ('x, 'w) Vfs \<Rightarrow> ('x, 'w) Vfs option" where
  "vfs_call ops mem (Call_Pipe capacity) v = Some (snd (create_pipe mem capacity v))"
| "vfs_call ops mem (Call_Dup fd) v = Some (snd (duplicate_fd mem fd v))"
| "vfs_call ops mem (Call_Close fd) v = Some (snd (close fd v))"
| "vfs_call ops mem (Call_Read fd n) v = map_option snd (read ops fd n v)"
| "vfs_call ops mem (Call_Write fd input) v = map_option snd (write_and_deliver ops mem fd input v)"
| "vfs_call ops mem (Call_Truncate fd len) v = map_option snd (truncate_fd ops mem fd len v)"
| "vfs_call ops mem (Call_Lseek fd off whence) v = map_option snd (lseek ops fd off whence v)"
| "vfs_call ops mem (Call_Fstat fd) v = map_option snd (fstat ops fd v)"
| "vfs_call ops mem (Call_Stat path follow) v = map_option snd (stat_inner ops (mem 0) path follow v)"
| "vfs_call ops mem (Call_Create path creds md) v = map_option snd (create_file_with_mode_as ops mem path creds md v)"
| "vfs_call ops mem (Call_Open path creds rights) v = map_option snd (open_as ops mem path creds rights v)"
| "vfs_call ops mem (Call_Mkdir path creds md) v = Some (snd (mkdir_with_mode_as ops mem path creds md v))"
| "vfs_call ops mem (Call_Rmdir path creds) v = map_option snd (rmdir_as ops mem path creds v)"
| "vfs_call ops mem (Call_Unlink path creds) v = Some (snd (unlink_as ops mem path creds v))"
| "vfs_call ops mem (Call_Rename old new creds) v = Some (snd (rename_as ops mem old new creds v))"
| "vfs_call ops mem (Call_Symlink target path creds) v = Some (snd (symlink_as ops mem target path creds v))"
| "vfs_call ops mem (Call_Link old new creds) v = map_option snd (link_as ops mem old new creds v)"
| "vfs_call ops mem (Call_Chown path u g creds) v = Some (snd (chown_as ops (mem 0) path u g creds v))"
| "vfs_call ops mem (Call_Chmod path md creds) v = map_option snd (chmod_as ops (mem 0) path md creds v)"
| "vfs_call ops mem (Call_SetMtime path t creds) v = map_option snd (set_mtime_as ops (mem 0) path t creds v)"
| "vfs_call ops mem (Call_PtyLock fd b) v = Some (snd (set_pty_locked fd b v))"
| "vfs_call ops mem (Call_PtyTermios fd bs) v = Some (snd (set_pty_termios_bytes fd bs v))"
| "vfs_call ops mem (Call_PtyWinsize fd bs) v = Some (snd (set_pty_winsize fd bs v))"
| "vfs_call ops mem (Call_PtyForeground fd pgrp) v = Some (snd (set_pty_foreground_pgrp fd pgrp v))"
| "vfs_call ops mem (Call_DirOffset fd off) v = Some (snd (set_directory_offset fd off v))"

fun vfs_run :: "('x, 'w) VOps \<Rightarrow> ((nat \<Rightarrow> bool) \<times> VfsCall) list \<Rightarrow> ('x, 'w) Vfs \<Rightarrow> ('x, 'w) Vfs option" where
  "vfs_run ops [] v = Some v"
| "vfs_run ops ((mem, c) # cs) v = Option.bind (vfs_call ops mem c v) (vfs_run ops cs)"

lemmas call_keeps =
  keeps_read keeps_write_and_deliver keeps_truncate_fd keeps_lseek keeps_fstat keeps_stat keeps_create_file
  keeps_open_as keeps_rmdir keeps_link keeps_chmod keeps_set_mtime

lemmas call_inv =
  vfs_inv_create_pipe vfs_inv_duplicate_fd vfs_inv_close vfs_inv_mkdir vfs_inv_unlink vfs_inv_rename vfs_inv_symlink
  vfs_inv_chown vfs_inv_pty_settings vfs_inv_set_directory_offset

lemma vfs_call_inv:
  assumes "vfs_inv v" and "vfs_call ops mem c v = Some v1"
  shows "vfs_inv v1"
proof -
  note keep = call_keeps [OF assms(1), THEN keepsD]
  show ?thesis using assms by (cases c) (auto simp: call_inv elim: keep)
qed

lemma vfs_run_keeps: "vfs_inv v \<Longrightarrow> vfs_run ops cs v = Some v1 \<Longrightarrow> vfs_inv v1"
  by (induction ops cs v rule: vfs_run.induct) (auto simp: bind_eq_Some_conv intro: vfs_call_inv)

lemma vfs_call_returns: "vfs_inv v \<Longrightarrow> (\<And>fd n. c \<noteq> Call_Read fd n) \<Longrightarrow> returns (vfs_call ops mem c v)"
  by (cases c)
     (auto simp: write_total truncate_total lseek_total fstat_total stat_total create_total open_total
       rmdir_total link_total change_owned_total chmod_as_def set_mtime_as_def)

section \<open>The initial tree\<close>

lemma vfs_inv_empty: "vfs_inv (Vfs_empty w)"
proof -
  have "counter k [] [] = 0" for k by (cases k) simp_all
  then show ?thesis
    by (simp add: vfs_inv_def balanced_def Vfs_empty_def refs_def slots_ok_def links_ok_def)
qed

lemma vfs_inv_add_directory: "vfs_inv v \<Longrightarrow> vfs_inv (add_directory ops path v)"
  by (auto simp: add_directory_def case_prod_beta Let_def intro!: vfs_inv_add)

lemma vfs_inv_add_device: "vfs_inv v \<Longrightarrow> vfs_inv (add_device ops path kind v)"
  by (auto simp: add_device_def case_prod_beta Let_def intro!: vfs_inv_add)

lemma vfs_inv_add_data_file: "vfs_inv v \<Longrightarrow> vfs_inv (add_data_file ops path data v)"
  by (auto simp: add_data_file_def case_prod_beta Let_def split: option.splits
      intro!: vfs_inv_add vfs_inv_upd_node)

lemma fold_inv: "P s \<Longrightarrow> (\<And>x s. P s \<Longrightarrow> P (f x s)) \<Longrightarrow> P (fold f xs s)"
  by (induction xs arbitrary: s) auto

lemma vfs_inv_new:
  assumes "Vfs_new ops mem w = Some v"
  shows "vfs_inv v"
proof -
  let ?dirs = "fold (add_directory ops) initial_dirs (Vfs_empty w)"
  have "vfs_inv ?dirs" by (rule fold_inv) (auto intro: vfs_inv_empty vfs_inv_add_directory)
  then have tmp: "keeps (chmod_as ops mem (ascii ''/tmp'') 0x1ff Credentials_root ?dirs)" by (rule keeps_chmod)
  obtain u v1 where c: "chmod_as ops mem (ascii ''/tmp'') 0x1ff Credentials_root ?dirs = Some (Inr u, v1)"
    using assms by (auto simp: Vfs_new_def split: option.splits prod.splits sum.splits)
  then have "vfs_inv v1" using tmp by simp
  then have "vfs_inv (fold (\<lambda>(p, k). add_device ops p k) initial_devices v1)"
    by (rule fold_inv) (auto intro: vfs_inv_add_device)
  then show ?thesis
    using assms c by (auto simp: Vfs_new_def add_file_def intro!: vfs_inv_add_data_file)
qed

lemma vfs_inv_mount_initrd: "vfs_inv v \<Longrightarrow> vfs_inv (mount_initrd ops files v)"
  unfolding mount_initrd_def by (rule fold_inv) (auto simp: add_static_file_def intro: vfs_inv_add_data_file)

lemma vfs_inv_mount: "vfs_inv v \<Longrightarrow> vfs_inv (snd (mount ops mem device mpoint fstype v))"
  by (auto simp: mount_def Let_def vfs_inv_add_directory split: sum.splits prod.splits option.splits)

section \<open>Properties\<close>



text \<open>
  C22: the exception is reachable by any user who may read the file: seeking past the
  end of a \<open>/proc\<close> text succeeds, and the next read panics.
\<close>

theorem proc_seek_then_read_panics:
  assumes "handle_at v fd = Some (H_Node node off rights)" and "r_read rights" and "node < length (nodes v)"
    and "n_kind (nodes v ! node) = Kind_File"
    and "vo_proc_text ops (n_path (nodes v ! node)) (v_world v) = Some t" and "length t < m" and "m \<le> ISIZE_MAX"
  shows "\<exists>v1. lseek ops fd (int m) 0 v = Some (Ok m, v1) \<and> read ops fd n v1 = None"
proof -
  have fd: "fd < length (open_files v)" "open_files v ! fd = Some (H_Node node off rights)"
    using assms(1) by (auto simp: handle_at_def nth_opt_def bind_eq_Some_conv split: if_splits)
  have at: "handle_at (set_cursor fd m v) fd = Some (H_Node node m rights)"
    using fd by (simp add: handle_at_def set_cursor_def nth_opt_def)
  have "lseek ops fd (int m) 0 v = Some (Ok m, set_cursor fd m v)"
    using assms by (simp add: lseek_def node_size_def lseek_to_def seek_target_def)
  moreover have "read ops fd n (set_cursor fd m v) = None"
    using at assms by (simp add: read_def read_node_def set_cursor_def read_proc_text_def saturating_sub_def)
  ultimately show ?thesis by blast
qed

text \<open>
  C19: end of file and broken pipe are exact.  A read of a pipe blocks only while some
  descriptor of its write end is open, and a non-empty write fails with a broken pipe
  exactly when no descriptor of its read end is open.
\<close>

theorem pipe_ends_observed:
  assumes "vfs_inv v" and "handle_at v rfd = Some (H_PipeRead i)" and "handle_at v wfd = Some (H_PipeWrite j)"
    and "input \<noteq> []"
  shows "(Some (H_PipeWrite i) \<in> set (open_files v) \<or> (\<exists>bs v1. read ops rfd n v = Some (Ok bs, v1))) \<and>
         (map_option fst (vfs_write ops mem wfd input v) = Some (Err BrokenPipe) \<longleftrightarrow>
          Some (H_PipeRead j) \<notin> set (open_files v))"
proof -
  have cnt: "counter k (pipes v) (ptys v) = refs k (open_files v)" for k
    using assms(1) by (simp add: vfs_inv_def balanced_def)
  have ends: "(0 < refs (ReadEnd p) (open_files v)) = (Some (H_PipeRead p) \<in> set (open_files v))"
    "(0 < refs (WriteEnd p) (open_files v)) = (Some (H_PipeWrite p) \<in> set (open_files v))" for p
    by (auto intro: refs_pos dest!: refs_posD elim: end_of.elims)
  have i: "i < length (pipes v)" and j: "j < length (pipes v)"
    using cnt [of "ReadEnd i"] cnt [of "WriteEnd j"] refs_pos [OF handle_at_in [OF assms(2)], of "ReadEnd i"]
      refs_pos [OF handle_at_in [OF assms(3)], of "WriteEnd j"] by (auto split: if_splits)
  have "\<exists>bs v1. read ops rfd n v = Some (Ok bs, v1)" if "Some (H_PipeWrite i) \<notin> set (open_files v)"
    using that ends(2) [of i] cnt [of "WriteEnd i"] i assms(2)
    by (simp add: read_def read_pipe_def nth_opt_def pipe_read_def)
  moreover have "map_option fst (vfs_write ops mem wfd input v) = Some (Err BrokenPipe) \<longleftrightarrow>
      Some (H_PipeRead j) \<notin> set (open_files v)"
    using ends(1) [of j] cnt [of "ReadEnd j"] j assms(3,4)
    by (auto simp: vfs_write_def write_pipe_def nth_opt_def pipe_write_def Let_def case_prod_beta split: sum.splits prod.splits)
  ultimately show ?thesis by blast
qed

lemma FileData_resize_ok:
  "FileData_resize m1 m2 len d = (Inr u, d1) \<Longrightarrow> as_slice d1 = take len (as_slice d) @ replicate (len - length (as_slice d)) 0"
  by (cases d) (auto simp: FileData_resize_def resize_file_buffer_def split: if_splits sum.splits)

lemma make_mut_slice: "make_mut m d = (r, d1) \<Longrightarrow> as_slice d1 = as_slice d"
  by (cases d) (auto split: if_splits)

lemma write_file_data_ok:
  assumes "write_file_data mem off input d = (Inr fin, d1)"
  shows "fin = off + length input \<and> take (length input) (drop off (as_slice d1)) = input \<and>
         length (as_slice d1) = max (length (as_slice d)) fin \<and> fin \<le> ISIZE_MAX"
proof -
  obtain u d2 where d2: "(if off > FileData_len d then FileData_resize (mem 0) (mem 1) off d else (Ok (), d)) = (Inr u, d2)"
    using assms by (auto simp: write_file_data_def split: prod.splits sum.splits)
  then have len2: "length (as_slice d2) = max (length (as_slice d)) off"
    by (auto simp: FileData_len_def max_def split: if_splits dest!: FileData_resize_ok)
  obtain fin' where fin: "checked_file_end off (length input) = Inr fin'"
    using assms d2 by (auto simp: write_file_data_def split: prod.splits sum.splits)
  then have f: "fin' = off + length input" "fin' \<le> ISIZE_MAX"
    by (auto simp: checked_file_end_def rust_ops split: option.splits if_splits)
  obtain u3 d3 where d3: "(if fin' > FileData_len d2 then FileData_resize (mem 2) (mem 3) fin' d2 else (Ok (), d2)) = (Inr u3, d3)"
    using assms d2 fin by (auto simp: write_file_data_def split: prod.splits sum.splits)
  then have len3: "length (as_slice d3) = max (length (as_slice d2)) fin'"
    by (auto simp: FileData_len_def max_def split: if_splits dest!: FileData_resize_ok)
  obtain u4 d4 where "make_mut (mem 4) d3 = (Inr u4, d4)"
    and out: "fin = fin'" "d1 = Owned (copy_into (as_slice d4) off input)"
    using assms d2 fin d3 by (auto simp: write_file_data_def split: prod.splits sum.splits)
  then have "as_slice d4 = as_slice d3" by (simp add: make_mut_slice)
  then show ?thesis using out f len2 len3 by (auto simp: copy_into_def)
qed

lemma handle_at_set_cursor:
  "handle_at v fd = Some h \<Longrightarrow> handle_at (set_cursor fd off v) fd = Some (with_offset off h)"
  by (auto simp: handle_at_def set_cursor_def nth_opt_def bind_eq_Some_conv split: if_splits)

lemma canonical_upd_node:
  assumes "\<And>n. n_link_target (f n) = n_link_target n"
  shows "canonical_node_index (nodes (upd_node i f v)) j = canonical_node_index (nodes v) j"
proof -
  have "Option.bind (nth_opt ((nodes v)[i := f (nodes v ! i)]) j) n_link_target = Option.bind (nth_opt (nodes v) j) n_link_target" for j
    by (cases "i = j") (auto simp: nth_opt_def assms)
  then have "canonical_steps k ((nodes v)[i := f (nodes v ! i)]) j = canonical_steps k (nodes v) j" for k j
    by (induction k arbitrary: j) (simp_all split: option.splits)
  then show ?thesis by (simp add: canonical_node_index_def upd_node_def)
qed

lemma write_node_ok:
  assumes inv: "vfs_inv v" and h: "handle_at v fd = Some (H_Node node off rights)"
    and isf: "n_kind (nodes v ! node) = Kind_File" and w: "vfs_write ops mem fd input v = Some (Ok k, v1)"
  shows "\<exists>fin d now w1. k = length input \<and> write_file_data mem off input
      (n_data (nodes v ! canonical_node_index (nodes v) node)) = (Inr fin, d) \<and>
    v1 = (upd_node (canonical_node_index (nodes v) node) (\<lambda>n. touch now (n\<lparr>n_data := d\<rparr>)) (set_cursor fd fin v))\<lparr>v_world := w1\<rparr>"
proof -
  let ?di = "canonical_node_index (nodes v) node"
  have di: "node < length (nodes v)" "?di < length (nodes v)"
    using handle_node_in [OF inv h] canonical_in [OF inv] by auto
  obtain r d where d: "write_file_data mem off input (n_data (nodes v ! ?di)) = (r, d)" by fastforce
  have wn: "write_node ops mem fd node off rights input v = Some (Ok k, v1)"
    using w h by (simp add: vfs_write_def)
  then have wr: "r_write rights" by (auto simp: write_node_def split: if_splits)
  show ?thesis
  proof (cases r)
    case (Inl e)
    then show ?thesis using wn wr di isf d by (simp add: write_node_def)
  next
    case (Inr fin)
    obtain now w1 where t: "vo_timestamp ops (v_world v) = (now, w1)" by fastforce
    have "k = length input \<and>
        v1 = upd_node ?di (touch now) ((set_cursor fd fin (upd_node ?di (\<lambda>n. n\<lparr>n_data := d\<rparr>) v))\<lparr>v_world := w1\<rparr>)"
      using wn wr di isf d Inr t
      by (auto simp: write_node_def timestamp_def set_cursor_def upd_node_def Let_def)
    then show ?thesis
      using d Inr di(2) by (intro exI [of _ fin] exI [of _ d] exI [of _ now] exI [of _ w1]) (simp add: upd_node_def set_cursor_def)
  qed
qed

text \<open>
  C7: what is written to a file is what is read back: after a successful write
  through a handle and a seek to where it started, a read of as many bytes through the
  same handle returns exactly the bytes written, also through a hard link.
\<close>

theorem write_then_read:
  assumes "vfs_inv v" and "handle_at v fd = Some (H_Node node off rights)" and "r_read rights"
    and "n_kind (nodes v ! node) = Kind_File" and "\<And>w. vo_proc_text ops (n_path (nodes v ! node)) w = None"
    and "vfs_write ops mem fd input v = Some (Ok k, v1)"
  shows "k = length input \<and> (\<exists>v2 v3. lseek ops fd (int off) 0 v1 = Some (Ok off, v2) \<and> read ops fd k v2 = Some (Ok input, v3))"
proof -
  let ?di = "canonical_node_index (nodes v) node"
  obtain fin d now w1 where k: "k = length input"
    and d: "write_file_data mem off input (n_data (nodes v ! ?di)) = (Inr fin, d)"
    and v1: "v1 = (upd_node ?di (\<lambda>n. touch now (n\<lparr>n_data := d\<rparr>)) (set_cursor fd fin v))\<lparr>v_world := w1\<rparr>"
    using write_node_ok [OF assms(1,2,4,6)] by blast
  have node: "node < length (nodes v)" "?di < length (nodes v)"
    using handle_node_in [OF assms(1,2)] canonical_in [OF assms(1)] by auto
  let ?ns = "(nodes v)[?di := touch now ((nodes v ! ?di)\<lparr>n_data := d\<rparr>)]"
  have ns: "nodes v1 = ?ns" by (simp add: v1 upd_node_def set_cursor_def)
  have same: "n_kind (?ns ! node) = Kind_File" "n_path (?ns ! node) = n_path (nodes v ! node)"
    using node assms(4) by (cases "?di = node"; simp add: touch_def)+
  have canon: "canonical_node_index ?ns node = ?di"
    using canonical_upd_node [of "\<lambda>n. touch now (n\<lparr>n_data := d\<rparr>)" ?di v node] by (simp add: touch_def upd_node_def)
  have at1: "handle_at v1 fd = Some (H_Node node fin rights)"
    using handle_at_set_cursor [OF assms(2), of fin] by (simp add: v1 upd_node_def handle_at_def)
  let ?v2 = "set_cursor fd off v1"
  have "node_size ops node v1 = Some (FileData_len d)"
    using node assms(5) same canon by (simp add: node_size_def ns nth_opt_def touch_def)
  then have seek: "lseek ops fd (int off) 0 v1 = Some (Ok off, ?v2)"
    using at1 by (simp add: lseek_def lseek_to_def seek_target_def)
  have at2: "handle_at ?v2 fd = Some (H_Node node off rights)" using handle_at_set_cursor [OF at1, of off] by simp
  have ns2: "nodes ?v2 = ?ns" by (simp add: set_cursor_def ns)
  note ok = write_file_data_ok [OF d]
  have "\<exists>v3. read ops fd k ?v2 = Some (Ok input, v3)"
    using at2 assms(3,5) node same canon ns2 ok k
    by (auto simp: read_def read_node_def nth_opt_def touch_def Let_def min_def)
  with seek k show ?thesis by blast
qed

lemma close_add [simp]:
  "close_reader (add_reader p) = p" "close_writer (add_writer p) = p"
  "close_master (add_master s) = s" "close_slave (add_slave s) = s"
  by (simp_all add: add_reader_def close_reader_def add_writer_def close_writer_def add_master_def close_master_def
      add_slave_def close_slave_def saturating_sub_def)

lemma release_retain:
  assumes "retain_handle h v = (Inr u, v1)" and "pipes v2 = pipes v1" and "ptys v2 = ptys v1"
    and "release_handle h v2 = (Inr u', v3)"
  shows "pipes v3 = pipes v \<and> ptys v3 = ptys v \<and> nodes v3 = nodes v2 \<and> open_files v3 = open_files v2"
  using assms by (cases h) (auto simp: upd_pipe_def upd_pty_def nth_opt_def split: if_splits)

lemma install_then_clear:
  "Option.bind (nth_opt ((snd (install_handle h slots))[fst (install_handle h slots) := None]) fd) (\<lambda>s. s) =
   Option.bind (nth_opt slots fd) (\<lambda>s. s)"
  by (auto simp: install_handle_def nth_opt_def nth_append nth_list_update split: option.splits dest!: position_Some)

text \<open>
  C20: duplicating a handle and closing the copy leaves no trace: every descriptor
  designates what it designated before, and the pipes, the terminals and the nodes are
  unchanged.
\<close>

theorem dup_close_no_trace:
  assumes "vfs_inv v" and "duplicate_fd mem fd v = (Ok new, v1)" and "close new v1 = (r, v2)"
  shows "r = Ok () \<and> (\<forall>d. handle_at v2 d = handle_at v d) \<and>
         pipes v2 = pipes v \<and> ptys v2 = ptys v \<and> nodes v2 = nodes v"
proof -
  obtain h where h: "handle_at v fd = Some h"
    using assms(2) by (cases "handle_at v fd") (auto simp: duplicate_fd_def)
  from assms(1) h assms(2) show ?thesis
  proof (cases rule: duplicate_fd_ok)
    case (copied n v0 v3)
    obtain c where v0: "v0 = v\<lparr>open_cap := c\<rparr>" using copied(3) by blast
    have fr: "open_files v3 = open_files v" "nodes v3 = nodes v" using retain_frame(1,2) [OF copied(4)] v0 by simp_all
    have new: "new = fst (install_handle h (open_files v))" using push_ok [OF copied(5)] copied(1) fr by auto
    obtain c1 where v1: "v1 = v3\<lparr>open_cap := c1, open_files := snd (install_handle h (open_files v))\<rparr>"
      using push_ok [OF copied(5)] fr by auto
    have at: "handle_at v1 new = Some h" using new v1 install_at [of h "open_files v"] by (simp add: handle_at_def)
    let ?w = "v1\<lparr>open_files := (open_files v1)[new := None]\<rparr>"
    have rel: "r = Ok ()" "release_handle h ?w = (Inr (), v2)"
      using close_cases [OF copied(2) assms(3)] at by force+
    have "pipes v2 = pipes v0 \<and> ptys v2 = ptys v0 \<and> nodes v2 = nodes ?w \<and> open_files v2 = open_files ?w"
      by (rule release_retain [OF copied(4) _ _ rel(2)]) (simp_all add: v1)
    then show ?thesis
      using rel(1) v0 fr new v1 install_then_clear [of h "open_files v"] by (simp add: handle_at_def)
  qed simp
qed

text \<open>
  C21: a pipe, a duplicate or a terminal that cannot be created leaves nothing behind:
  on failure the open files, the pipes and the terminals are what they were.
\<close>

theorem failed_open_leaves_nothing:
  assumes "vfs_inv v"
  shows "(fst (create_pipe mem capacity v) = Err e \<longrightarrow>
            pipes (snd (create_pipe mem capacity v)) = pipes v \<and> open_files (snd (create_pipe mem capacity v)) = open_files v) \<and>
         (fst (duplicate_fd mem fd v) = Err e \<longrightarrow> snd (duplicate_fd mem fd v) = v) \<and>
         (fst (open_pty_master ops mem rights v) = Err e \<longrightarrow>
            ptys (snd (open_pty_master ops mem rights v)) = ptys v \<and>
            open_files (snd (open_pty_master ops mem rights v)) = open_files v)"
proof (intro conjI impI)
  show "pipes (snd (create_pipe mem capacity v)) = pipes v" "open_files (snd (create_pipe mem capacity v)) = open_files v"
    if "fst (create_pipe mem capacity v) = Err e"
    using that by (cases "create_pipe mem capacity v"; auto elim: create_pipe_cases)+
  show "snd (duplicate_fd mem fd v) = v" if "fst (duplicate_fd mem fd v) = Err e"
    using that assms
    by (cases "handle_at v fd"; cases "duplicate_fd mem fd v") (auto elim: duplicate_fd_ok, simp add: duplicate_fd_def)
  show "ptys (snd (open_pty_master ops mem rights v)) = ptys v"
    "open_files (snd (open_pty_master ops mem rights v)) = open_files v"
    if "fst (open_pty_master ops mem rights v) = Err e"
    using that open_pty_master_cases [OF assms, of ops mem rights e] by blast+
qed

section \<open>Concrete instances\<close>

definition demo_vops :: "(unit, unit) VOps" where
  "demo_vops =
     \<lparr>vo_timestamp = (\<lambda>w. (0, w)), vo_default_termios = replicate 60 0, vo_fill_random = (\<lambda>n w. (replicate n 0, w)),
      vo_sector_count = (\<lambda>w. 0), vo_read_sectors = (\<lambda>a n w. (None, w)), vo_blk_read = (\<lambda>a n w. (None, w)),
      vo_blk_write = (\<lambda>a bs w. (None, w)), vo_pop_scancode = (\<lambda>w. (None, w)), vo_tty_read = (\<lambda>n w. ([], w)),
      vo_tty_has_data = (\<lambda>w. False), vo_log_write = (\<lambda>bs w. w), vo_serial_print = (\<lambda>bs w. w),
      vo_fb_write = (\<lambda>bs w. (0, w)), vo_wake_io = (\<lambda>w. w), vo_send_pgrp = (\<lambda>p s w. w), vo_current_pid = (\<lambda>w. None),
      vo_process_exists = (\<lambda>p w. False), vo_next_pid_after = (\<lambda>p w. None),
      vo_proc_text = (\<lambda>path w. if path = [1] then Some [2] else None),
      x_metadata = (\<lambda>p x w. Err X_NotFound), x_lstat = (\<lambda>p x w. Err X_NotFound), x_read_file = (\<lambda>p x w. Err X_NotFound),
      x_read_range = (\<lambda>p a n x w. Err X_NotFound), x_list_dir = (\<lambda>p x w. Err X_NotFound), x_readlink = (\<lambda>p x w. Err X_NotFound),
      x_create_file = (\<lambda>p u g m x w. (Err X_NoSpace, x, w)), x_create_dir = (\<lambda>p u g m x w. (Err X_NoSpace, x, w)),
      x_truncate = (\<lambda>p x w. (Err X_NoSpace, x, w)), x_write_file = (\<lambda>p d x w. (Err X_NoSpace, x, w)),
      x_rmdir = (\<lambda>p x w. (Err X_NotFound, x, w)), x_unlink = (\<lambda>p x w. (Err X_NotFound, x, w)),
      x_rename = (\<lambda>p q x w. (Err X_NotFound, x, w)), x_symlink = (\<lambda>t p u g x w. (Err X_NoSpace, x, w)),
      x_link = (\<lambda>p q x w. (Err X_NotFound, x, w)), x_chown = (\<lambda>p u g x w. (Err X_NotFound, x, w)),
      x_chmod = (\<lambda>p m x w. (Err X_NotFound, x, w)), x_set_mtime = (\<lambda>p t x w. (Err X_NotFound, x, w)),
      x_stats = (\<lambda>x. \<lparr>xs_block_size = 1024, xs_blocks_count = 0, xs_inodes_count = 0, xs_free_blocks_count = 0,
                       xs_free_inodes_count = 0, xs_groups = 0\<rparr>),
      x_mount_at = (\<lambda>a w. (Err X_IoError, w))\<rparr>"

lemma canonical_no_link:
  "nth_opt ns i = Some n \<Longrightarrow> n_link_target n = None \<Longrightarrow> canonical_node_index ns i = i"
  by (simp add: canonical_node_index_def eval_nat_numeral)

lemma add_directory_step:
  "mounts (add_directory ops p v) = mounts v"
  "map n_path (nodes (add_directory ops p v)) = map n_path (nodes v) @ [p]"
  "list_all (\<lambda>n. n_kind n = Kind_Directory \<and> n_link_target n = None) (nodes (add_directory ops p v)) =
   list_all (\<lambda>n. n_kind n = Kind_Directory \<and> n_link_target n = None) (nodes v)"
  by (simp_all add: add_directory_def timestamp_def case_prod_beta Let_def mk_node_def)

lemma add_directories:
  "mounts (fold (add_directory ops) ps v) = mounts v"
  "map n_path (nodes (fold (add_directory ops) ps v)) = map n_path (nodes v) @ ps"
  "list_all (\<lambda>n. n_kind n = Kind_Directory \<and> n_link_target n = None) (nodes (fold (add_directory ops) ps v)) =
   list_all (\<lambda>n. n_kind n = Kind_Directory \<and> n_link_target n = None) (nodes v)"
  by (induction ps arbitrary: v) (simp_all only: fold_simps add_directory_step append_Nil2 append_assoc append.simps)

lemma chmod_directory:
  assumes dirs: "list_all (\<lambda>n. n_kind n = Kind_Directory \<and> n_link_target n = None) (nodes v)"
    and "mounts v = []" and n: "normalize_path True path = Inr path" and "path \<in> n_path ` set (nodes v)"
  shows "\<exists>v1. chmod_as ops True path md Credentials_root v = Some (Inr (), v1)"
proof -
  have "resolve_steps (Suc k) True (nodes v) path = Inr path" for k
    using dirs by (auto simp: find_Some_iff list_all_length split: option.splits)
  then have r: "resolve_symlink_path True (nodes v) path = Inr path"
    by (simp add: resolve_symlink_path_def n eval_nat_numeral)
  obtain i where at: "node_at path (nodes v) = Some i"
    using assms(4) position_None [of "\<lambda>n. n_path n = path" "nodes v"] by (auto simp: node_at_def)
  have "i < length (nodes v)" using position_Some [OF at [unfolded node_at_def]] by simp
  then have "nth_opt (nodes v) i = Some (nodes v ! i)" "n_link_target (nodes v ! i) = None"
    using dirs by (simp_all add: nth_opt_def list_all_length)
  then show ?thesis
    using r at assms(2)
    by (simp add: chmod_as_def change_owned_def ext2_for_def root_ext2_def canonical_no_link
        Credentials_root_def is_superuser_def)
qed

text \<open>The \<open>expect\<close> of \<open>Vfs::new\<close> never fails when memory suffices.\<close>

lemma Vfs_new_returns: "\<exists>v0. Vfs_new ops True w = Some v0"
proof -
  let ?v = "fold (add_directory ops) initial_dirs (Vfs_empty w)"
  have paths: "n_path ` set (nodes ?v) = set initial_dirs"
    using arg_cong [OF add_directories(2) [of ops initial_dirs "Vfs_empty w"], of set] by (simp add: Vfs_empty_def del: fold_simps)
  have empty: "mounts ?v = []" "list_all (\<lambda>n. n_kind n = Kind_Directory \<and> n_link_target n = None) (nodes ?v)"
    by (simp_all add: add_directories Vfs_empty_def)
  have n: "normalize_path True (ascii ''/tmp'') = Inr (ascii ''/tmp'')"
    by (simp add: ascii_def normalize_path_def starts_with_slash_def path_parts_def push_part_def render_parts_def
        checked_add_def USIZE_MAX_def)
  have "\<exists>v1. chmod_as ops True (ascii ''/tmp'') 0x1ff Credentials_root ?v = Some (Inr (), v1)"
    by (rule chmod_directory [OF empty(2,1) n]) (simp only: paths, simp add: initial_dirs_def)
  then show ?thesis by (auto simp: Vfs_new_def)
qed



definition demo_vfs :: "bytes \<Rightarrow> (unit, unit) Vfs" where
  "demo_vfs path = (Vfs_empty ())
     \<lparr>nodes := [mk_node path Kind_File (FileMetadata_new 0 0 0x1a4) 0 0 (Static [7, 8, 9]) None],
      open_files := [Some (H_Node 0 2 rights_rw)], open_cap := 1\<rparr>"

lemma demo_vfs_inv: "vfs_inv (demo_vfs path)"
proof -
  have "counter k [] [] = 0" for k by (cases k) simp_all
  then show ?thesis
    by (simp add: vfs_inv_def balanced_def demo_vfs_def Vfs_empty_def refs_def slots_ok_def links_ok_def)
qed

theorem proc_seek_then_read_panics_witness:
  "\<exists>v1. lseek demo_vops 0 (int 5) 0 (demo_vfs [1]) = Some (Ok 5, v1) \<and> read demo_vops 0 1 v1 = None"
  by (rule proc_seek_then_read_panics [of "demo_vfs [1]" 0 0 2 rights_rw demo_vops "[2]"])
     (simp_all add: demo_vfs_def Vfs_empty_def handle_at_def nth_opt_def rights_rw_def mk_node_def demo_vops_def ISIZE_MAX_def)

theorem write_then_read_witness:
  "\<exists>v1. vfs_write demo_vops (\<lambda>_. True) 0 [5, 6] (demo_vfs []) = Some (Ok 2, v1) \<and>
     (\<exists>v2 v3. lseek demo_vops 0 (int 2) 0 v1 = Some (Ok 2, v2) \<and> read demo_vops 0 2 v2 = Some (Ok [5, 6], v3))"
proof -
  have h: "handle_at (demo_vfs []) 0 = Some (H_Node 0 2 rights_rw)" "r_read rights_rw"
    "n_kind (nodes (demo_vfs []) ! 0) = Kind_File" "\<And>w. vo_proc_text demo_vops (n_path (nodes (demo_vfs []) ! 0)) w = None"
    by (simp_all add: demo_vfs_def Vfs_empty_def handle_at_def nth_opt_def rights_rw_def mk_node_def demo_vops_def)
  have "\<exists>v1. vfs_write demo_vops (\<lambda>_. True) 0 [5, 6] (demo_vfs []) = Some (Ok 2, v1)"
    using h(1)
    by (simp add: vfs_write_def write_node_def demo_vfs_def Vfs_empty_def rights_rw_def mk_node_def nth_opt_def
        canonical_no_link write_file_data_def FileData_len_def checked_file_end_def checked_add_def
        USIZE_MAX_def ISIZE_MAX_def FileData_resize_def resize_file_buffer_def case_prod_beta Let_def)
  then obtain v1 where w: "vfs_write demo_vops (\<lambda>_. True) 0 [5, 6] (demo_vfs []) = Some (Ok 2, v1)" by blast
  from write_then_read [OF demo_vfs_inv h w] w show ?thesis by auto
qed

definition demo_pipe :: "(unit, unit) Vfs" where
  "demo_pipe = snd (create_pipe (\<lambda>_. True) 4 (Vfs_empty ()))"

lemma demo_pipe_inv: "vfs_inv demo_pipe"
  unfolding demo_pipe_def by (rule vfs_inv_create_pipe [OF vfs_inv_empty])

lemma demo_pipe_eq: "open_files demo_pipe = [Some (H_PipeRead 0), Some (H_PipeWrite 0)]"
  by (simp add: demo_pipe_def create_pipe_def push_open_handle_def reserve_open_handle_slots_def install_handle_def
      Vfs_empty_def Let_def)

theorem pipe_ends_observed_witness:
  "vfs_inv demo_pipe \<and> handle_at demo_pipe 0 = Some (H_PipeRead 0) \<and> handle_at demo_pipe 1 = Some (H_PipeWrite 0) \<and>
   map_option fst (vfs_write demo_vops (\<lambda>_. True) 1 [1] demo_pipe) \<noteq> Some (Err BrokenPipe)"
proof -
  have h: "handle_at demo_pipe 0 = Some (H_PipeRead 0)" "handle_at demo_pipe 1 = Some (H_PipeWrite 0)"
    by (simp_all add: handle_at_def nth_opt_def demo_pipe_eq)
  show ?thesis
    using pipe_ends_observed [OF demo_pipe_inv h, of "[1]" demo_vops 1 "\<lambda>_. True"] h
    by (simp add: demo_pipe_eq demo_pipe_inv)
qed

theorem dup_close_no_trace_witness:
  "\<exists>v1 v2. duplicate_fd (\<lambda>_. True) 0 demo_pipe = (Ok 2, v1) \<and> close 2 v1 = (Ok (), v2) \<and>
     handle_at v2 0 = Some (H_PipeRead 0) \<and> pipes v2 = pipes demo_pipe"
proof -
  have h: "handle_at demo_pipe 0 = Some (H_PipeRead 0)" by (simp add: handle_at_def nth_opt_def demo_pipe_eq)
  have "fst (duplicate_fd (\<lambda>_. True) 0 demo_pipe) = Ok 2"
    by (simp add: demo_pipe_def create_pipe_def duplicate_fd_def push_open_handle_def reserve_open_handle_slots_def
        install_handle_def handle_at_def nth_opt_def upd_pipe_def Vfs_empty_def Let_def)
  then obtain v1 where 1: "duplicate_fd (\<lambda>_. True) 0 demo_pipe = (Ok 2, v1)" by (cases "duplicate_fd (\<lambda>_. True) 0 demo_pipe") auto
  obtain r v2 where 2: "close 2 v1 = (r, v2)" by fastforce
  from dup_close_no_trace [OF demo_pipe_inv 1 2] 1 2 h show ?thesis by auto
qed

theorem failed_open_leaves_nothing_witness:
  "fst (create_pipe (\<lambda>_. False) 4 demo_pipe) = Err VfsOutOfMemory \<and> pipes (snd (create_pipe (\<lambda>_. False) 4 demo_pipe)) = pipes demo_pipe"
proof -
  have "fst (create_pipe (\<lambda>_. False) 4 demo_pipe) = Err VfsOutOfMemory"
    by (simp add: create_pipe_def reserve_open_handle_slots_def Let_def)
  with failed_open_leaves_nothing [OF demo_pipe_inv, of "\<lambda>_. False" 4 VfsOutOfMemory] show ?thesis by blast
qed

end
