(* ===== verification/Block_Device.thy ===== *)
theory Block_Device
  imports Prelude
begin

text \<open>
  The block layer, \<open>kernel/src/drivers/virtio_blk.rs\<close> from the driver object up: reading
  and writing sectors with the fall-back to the built-in software image, and the byte
  interface \<open>/dev/vda\<close> uses.  The device itself, with the queue of descriptors through
  which the driver talks to it, is a parameter: \<open>HwOps\<close> holds one transfer in each
  direction, on a device state of any type.  What the driver relies on is the locale
  \<open>sector_device\<close>: a store of 512-byte sectors.  The locale is also the interface the
  file system is verified against.
\<close>

section \<open>Definitions\<close>

datatype BlockError = Blk_NotReady | Blk_IoError

datatype Transport = LegacyIo | Mmio | Software

record 'h VirtioBlockDriver =
  drv_sector_count :: nat
  hardware :: bool
  transport :: Transport
  device :: 'h

record 'h HwOps =
  hw_read :: "nat \<Rightarrow> nat \<Rightarrow> 'h \<Rightarrow> bytes option \<times> 'h"
  hw_write :: "nat \<Rightarrow> nat \<Rightarrow> bytes \<Rightarrow> 'h \<Rightarrow> bool \<times> 'h"

definition software_fallback :: "'h \<Rightarrow> 'h VirtioBlockDriver" where
  "software_fallback h = \<lparr>drv_sector_count = 2048, hardware = False, transport = Software, device = h\<rparr>"

definition build_software_disk :: bytes where
  "build_software_disk =
     (replicate 4096 0)[1024 + 56 := 0x53, 1024 + 57 := 0xEF, 1024 + 24 := 0,
                        2048 := 0x2f, 2049 := 0x6d, 2050 := 0x6e, 2051 := 0x74]"

definition software_read :: "nat \<Rightarrow> nat \<Rightarrow> (BlockError, bytes) result" where
  "software_read sector n =
     (let start = sector * 512; end' = start + n * 512 in
      if end' > length build_software_disk then Err Blk_IoError
      else Ok (take (n * 512) (drop start build_software_disk)))"

definition hardware_read_sectors ::
    "'h HwOps \<Rightarrow> nat \<Rightarrow> nat \<Rightarrow> 'h VirtioBlockDriver \<Rightarrow> bytes option \<times> 'h VirtioBlockDriver" where
  "hardware_read_sectors ops sector n drv =
     (if transport drv = Software then (None, drv)
      else let (r, h) = hw_read ops sector n (device drv) in (r, drv\<lparr>device := h\<rparr>))"

definition hardware_write_sectors ::
    "'h HwOps \<Rightarrow> nat \<Rightarrow> nat \<Rightarrow> bytes \<Rightarrow> 'h VirtioBlockDriver \<Rightarrow> bool \<times> 'h VirtioBlockDriver" where
  "hardware_write_sectors ops sector n buf drv =
     (if transport drv = Software then (False, drv)
      else let (r, h) = hw_write ops sector n (take (n * 512) buf) (device drv) in (r, drv\<lparr>device := h\<rparr>))"

text \<open>\<open>VirtioBlockDriver::read_sectors\<close>: the buffer is given by its length and the bytes read are returned.\<close>

definition drv_read_sectors ::
    "'h HwOps \<Rightarrow> nat \<Rightarrow> nat \<Rightarrow> usize \<Rightarrow> 'h VirtioBlockDriver \<Rightarrow> (BlockError, bytes) result \<times> 'h VirtioBlockDriver" where
  "drv_read_sectors ops sector n buf_len drv =
     (if buf_len < n * 512 then (Err Blk_IoError, drv)
      else if hardware drv then
        (case hardware_read_sectors ops sector n drv of
           (Some bs, drv1) \<Rightarrow> (Ok bs, drv1)
         | (None, drv1) \<Rightarrow> (software_read sector n, drv1\<lparr>hardware := False, transport := Software\<rparr>))
      else (software_read sector n, drv))"

definition drv_write_sectors ::
    "'h HwOps \<Rightarrow> nat \<Rightarrow> nat \<Rightarrow> bytes \<Rightarrow> 'h VirtioBlockDriver \<Rightarrow> (BlockError, unit) result \<times> 'h VirtioBlockDriver" where
  "drv_write_sectors ops sector n buf drv =
     (if length buf < n * 512 then (Err Blk_IoError, drv)
      else if hardware drv then
        (case hardware_write_sectors ops sector n buf drv of
           (True, drv1) \<Rightarrow> (Ok (), drv1)
         | (False, drv1) \<Rightarrow> (Err Blk_IoError, drv1\<lparr>hardware := False, transport := Software\<rparr>))
      else (Err Blk_IoError, drv\<lparr>hardware := False, transport := Software\<rparr>))"

text \<open>The functions on the global driver, absent before \<open>init\<close>.\<close>

definition read_sectors ::
    "'h HwOps \<Rightarrow> nat \<Rightarrow> nat \<Rightarrow> usize \<Rightarrow> 'h VirtioBlockDriver option \<Rightarrow> (BlockError, bytes) result \<times> 'h VirtioBlockDriver option" where
  "read_sectors ops sector n buf_len g =
     (case g of
        None \<Rightarrow> (Err Blk_NotReady, None)
      | Some drv \<Rightarrow> (let (r, drv') = drv_read_sectors ops sector n buf_len drv in (r, Some drv')))"

definition write_sectors ::
    "'h HwOps \<Rightarrow> nat \<Rightarrow> nat \<Rightarrow> bytes \<Rightarrow> 'h VirtioBlockDriver option \<Rightarrow> (BlockError, unit) result \<times> 'h VirtioBlockDriver option" where
  "write_sectors ops sector n buf g =
     (case g of
        None \<Rightarrow> (Err Blk_NotReady, None)
      | Some drv \<Rightarrow> (let (r, drv') = drv_write_sectors ops sector n buf drv in (r, Some drv')))"

definition blk_sector_count :: "'h VirtioBlockDriver option \<Rightarrow> nat" where
  "blk_sector_count g = (case g of None \<Rightarrow> 0 | Some drv \<Rightarrow> drv_sector_count drv)"

lemma chunk_pos: "k < (cnt :: nat) \<Longrightarrow> cnt - (k + min (512 - a mod 512) (cnt - k)) < cnt - k"
  using mod_less_divisor [of 512 a] by (auto simp: min_def)

text \<open>
  The loops of \<open>read_bytes\<close> and \<open>write_bytes\<close> from \<open>k\<close> bytes done to \<open>cnt\<close>.  A partial
  sector is written by reading it first.
\<close>

function read_bytes_loop ::
    "'h HwOps \<Rightarrow> nat \<Rightarrow> nat \<Rightarrow> nat \<Rightarrow> bytes \<Rightarrow> 'h VirtioBlockDriver option \<Rightarrow>
     (BlockError, bytes) result \<times> 'h VirtioBlockDriver option" where
  "read_bytes_loop ops off cnt k out g =
     (if k \<ge> cnt then (Ok out, g)
      else
        let absolute = off + k; sector_offset = absolute mod 512;
            chunk = min (512 - sector_offset) (cnt - k)
        in case read_sectors ops (absolute div 512) 1 512 g of
             (Inl e, g1) \<Rightarrow> (Err e, g1)
           | (Inr bounce, g1) \<Rightarrow>
               read_bytes_loop ops off cnt (k + chunk) (out @ take chunk (drop sector_offset bounce)) g1)"
  by pat_completeness auto
termination
  by (relation "measure (\<lambda>(_, _, cnt, k, _, _). cnt - k)") (auto simp: chunk_pos)

function write_bytes_loop ::
    "'h HwOps \<Rightarrow> nat \<Rightarrow> bytes \<Rightarrow> nat \<Rightarrow> nat \<Rightarrow> 'h VirtioBlockDriver option \<Rightarrow>
     (BlockError, nat) result \<times> 'h VirtioBlockDriver option" where
  "write_bytes_loop ops off input cnt k g =
     (if k \<ge> cnt then (Ok k, g)
      else
        let absolute = off + k; sector_offset = absolute mod 512;
            chunk = min (512 - sector_offset) (cnt - k)
        in case (if sector_offset \<noteq> 0 \<or> chunk \<noteq> 512 then read_sectors ops (absolute div 512) 1 512 g
                 else (Ok (replicate 512 0), g)) of
             (Inl e, g1) \<Rightarrow> (Err e, g1)
           | (Inr bounce, g1) \<Rightarrow>
               (case write_sectors ops (absolute div 512) 1
                       (copy_into bounce sector_offset (take chunk (drop k input))) g1 of
                  (Inl e, g2) \<Rightarrow> (Err e, g2)
                | (Inr _, g2) \<Rightarrow> write_bytes_loop ops off input cnt (k + chunk) g2))"
  by pat_completeness auto
termination
  by (relation "measure (\<lambda>(_, _, _, cnt, k, _). cnt - k)") (auto simp: chunk_pos)

declare read_bytes_loop.simps [simp del] write_bytes_loop.simps [simp del]

definition read_bytes ::
    "'h HwOps \<Rightarrow> nat \<Rightarrow> usize \<Rightarrow> 'h VirtioBlockDriver option \<Rightarrow> (BlockError, bytes) result \<times> 'h VirtioBlockDriver option" where
  "read_bytes ops off out_len g =
     (if out_len = 0 then (Ok [], g)
      else let disk_bytes = saturating_mul (blk_sector_count g) 512 in
           if off \<ge> disk_bytes then (Ok [], g)
           else read_bytes_loop ops off (min out_len (disk_bytes - off)) 0 [] g)"

definition write_bytes ::
    "'h HwOps \<Rightarrow> nat \<Rightarrow> bytes \<Rightarrow> 'h VirtioBlockDriver option \<Rightarrow> (BlockError, nat) result \<times> 'h VirtioBlockDriver option" where
  "write_bytes ops off input g =
     (if input = [] then (Ok 0, g)
      else let disk_bytes = saturating_mul (blk_sector_count g) 512 in
           if off \<ge> disk_bytes then (Ok 0, g)
           else write_bytes_loop ops off input (min (length input) (disk_bytes - off)) 0 g)"

section \<open>The sector store\<close>

text \<open>
  What a client of a block device relies on: in a good state a read of a sector below
  the capacity returns its contents and a write replaces exactly that sector; neither
  leaves the good states.
\<close>

locale sector_device =
  fixes rd :: "nat \<Rightarrow> 'd \<Rightarrow> bytes option \<times> 'd"
    and wr :: "nat \<Rightarrow> bytes \<Rightarrow> 'd \<Rightarrow> bool \<times> 'd"
    and sect :: "'d \<Rightarrow> nat \<Rightarrow> bytes"
    and good :: "'d \<Rightarrow> bool"
    and cap :: nat
  assumes rd_ok: "good d \<Longrightarrow> n < cap \<Longrightarrow> \<exists>d'. rd n d = (Some (sect d n), d') \<and> good d' \<and> sect d' = sect d"
    and wr_ok: "good d \<Longrightarrow> n < cap \<Longrightarrow> length b = 512 \<Longrightarrow>
      \<exists>d'. wr n b d = (True, d') \<and> good d' \<and> sect d' = (sect d)(n := b)"
    and sect_len: "good d \<Longrightarrow> length (sect d n) = 512"

text \<open>The bytes of a store, numbered from the first sector.\<close>

definition disk_byte :: "(nat \<Rightarrow> bytes) \<Rightarrow> nat \<Rightarrow> u8" where
  "disk_byte st i = st (i div 512) ! (i mod 512)"

text \<open>The driver on a device that is a sector store is one itself, as long as it has not fallen back.\<close>

definition drv_good :: "('h \<Rightarrow> bool) \<Rightarrow> nat \<Rightarrow> 'h VirtioBlockDriver option \<Rightarrow> bool" where
  "drv_good ok cap g \<longleftrightarrow>
     (\<exists>drv. g = Some drv \<and> hardware drv \<and> transport drv \<noteq> Software \<and> drv_sector_count drv = cap \<and> ok (device drv))"

definition drv_sect :: "('h \<Rightarrow> nat \<Rightarrow> bytes) \<Rightarrow> 'h VirtioBlockDriver option \<Rightarrow> nat \<Rightarrow> bytes" where
  "drv_sect st g = (case g of None \<Rightarrow> (\<lambda>_. []) | Some drv \<Rightarrow> st (device drv))"

definition drv_read :: "'h HwOps \<Rightarrow> nat \<Rightarrow> 'h VirtioBlockDriver option \<Rightarrow> bytes option \<times> 'h VirtioBlockDriver option" where
  "drv_read ops n g =
     (case read_sectors ops n 1 512 g of (Inr bs, g') \<Rightarrow> (Some bs, g') | (Inl _, g') \<Rightarrow> (None, g'))"

definition drv_write :: "'h HwOps \<Rightarrow> nat \<Rightarrow> bytes \<Rightarrow> 'h VirtioBlockDriver option \<Rightarrow> bool \<times> 'h VirtioBlockDriver option" where
  "drv_write ops n b g =
     (case write_sectors ops n 1 b g of (Inr _, g') \<Rightarrow> (True, g') | (Inl _, g') \<Rightarrow> (False, g'))"

locale virtio_device =
  sector_device "\<lambda>n. hw_read ops n 1" "\<lambda>n. hw_write ops n 1" st ok cap
  for ops :: "'h HwOps" and st ok cap

section \<open>The driver as a sector store\<close>

lemma read_sectors_good:
  assumes "virtio_device ops st ok cap" and "drv_good ok cap g" and "n < cap"
  shows "\<exists>g'. read_sectors ops n 1 512 g = (Ok (drv_sect st g n), g') \<and> drv_good ok cap g' \<and> drv_sect st g' = drv_sect st g"
proof -
  obtain drv where drv: "g = Some drv" "hardware drv" "transport drv \<noteq> Software" "drv_sector_count drv = cap" "ok (device drv)"
    using assms(2) by (auto simp: drv_good_def)
  obtain h where "hw_read ops n 1 (device drv) = (Some (st (device drv) n), h)" "ok h" "st h = st (device drv)"
    using sector_device.rd_ok [OF assms(1) [unfolded virtio_device_def] drv(5) assms(3)] by blast
  with drv show ?thesis
    by (simp add: read_sectors_def drv_read_sectors_def hardware_read_sectors_def drv_good_def drv_sect_def)
qed

lemma write_sectors_good:
  assumes "virtio_device ops st ok cap" and "drv_good ok cap g" and "n < cap" and "length b = 512"
  shows "\<exists>g'. write_sectors ops n 1 b g = (Ok (), g') \<and> drv_good ok cap g' \<and> drv_sect st g' = (drv_sect st g)(n := b)"
proof -
  obtain drv where drv: "g = Some drv" "hardware drv" "transport drv \<noteq> Software" "drv_sector_count drv = cap" "ok (device drv)"
    using assms(2) by (auto simp: drv_good_def)
  obtain h where "hw_write ops n 1 b (device drv) = (True, h)" "ok h" "st h = (st (device drv))(n := b)"
    using sector_device.wr_ok [OF assms(1) [unfolded virtio_device_def] drv(5) assms(3,4)] by blast
  with drv assms(4) show ?thesis
    by (simp add: write_sectors_def drv_write_sectors_def hardware_write_sectors_def drv_good_def drv_sect_def)
qed

sublocale virtio_device \<subseteq> drv: sector_device "drv_read ops" "drv_write ops" "drv_sect st" "drv_good ok cap" cap
proof
  show "\<exists>d'. drv_read ops n d = (Some (drv_sect st d n), d') \<and> drv_good ok cap d' \<and> drv_sect st d' = drv_sect st d"
    if "drv_good ok cap d" "n < cap" for d n
    using read_sectors_good [OF virtio_device_axioms that] by (auto simp: drv_read_def)
  show "\<exists>d'. drv_write ops n b d = (True, d') \<and> drv_good ok cap d' \<and> drv_sect st d' = (drv_sect st d)(n := b)"
    if "drv_good ok cap d" "n < cap" "length b = 512" for d n b
    using write_sectors_good [OF virtio_device_axioms that] by (auto simp: drv_write_def)
  show "length (drv_sect st d n) = 512" if "drv_good ok cap d" for d n
    using that sect_len by (auto simp: drv_good_def drv_sect_def)
qed

section \<open>Bytes and sectors\<close>

lemma same_sector:
  "i < 512 - a mod 512 \<Longrightarrow> (a + i) div 512 = a div 512 \<and> (a + i) mod 512 = a mod 512 + (i :: nat)"
proof -
  assume "i < 512 - a mod 512"
  then have "a mod 512 + i < 512" by simp
  moreover have "a + i = a div 512 * 512 + (a mod 512 + i)" by simp
  ultimately show ?thesis by (metis div_mult_self3 div_less mod_less mod_mult_self3 add_0_right zero_neq_numeral)
qed

lemma sector_slice:
  assumes "length (st (a div 512)) = 512" and "n \<le> 512 - a mod 512"
  shows "take n (drop (a mod 512) (st (a div 512))) = map (disk_byte st) [a..<a + n]"
proof (rule nth_equalityI)
  show "length (take n (drop (a mod 512) (st (a div 512)))) = length (map (disk_byte st) [a..<a + n])"
    using assms by simp
  fix i assume "i < length (take n (drop (a mod 512) (st (a div 512))))"
  then have i: "i < n" "i < 512 - a mod 512" using assms by auto
  then show "take n (drop (a mod 512) (st (a div 512))) ! i = map (disk_byte st) [a..<a + n] ! i"
    using same_sector [OF i(2)] assms by (simp add: disk_byte_def)
qed

lemma disk_byte_write:
  assumes "n + a mod 512 \<le> 512" and "length bs = n" and "length old = 512"
    and "\<And>i. i < a mod 512 \<or> a mod 512 + n \<le> i \<Longrightarrow> i < 512 \<Longrightarrow> old ! i = st (a div 512) ! i"
  shows "disk_byte (st(a div 512 := copy_into old (a mod 512) bs)) i =
    (if a \<le> i \<and> i < a + n then bs ! (i - a) else disk_byte st i)"
proof (cases "i div 512 = a div 512")
  case True
  have "i = i div 512 * 512 + i mod 512" "a = a div 512 * 512 + a mod 512" by simp_all
  then have cmp: "a \<le> i \<longleftrightarrow> a mod 512 \<le> i mod 512" "i < a + n \<longleftrightarrow> i mod 512 < a mod 512 + n"
    "a \<le> i \<Longrightarrow> i - a = i mod 512 - a mod 512"
    using True by linarith+
  have "i mod 512 < 512" by simp
  then have "copy_into old (a mod 512) bs ! (i mod 512) =
      (if a mod 512 \<le> i mod 512 \<and> i mod 512 < a mod 512 + n then bs ! (i mod 512 - a mod 512) else old ! (i mod 512))"
    using assms by (subst nth_copy_into) auto
  then show ?thesis using True cmp assms(4) [of "i mod 512"] by (auto simp: disk_byte_def)
next
  case False
  have "\<not> (a \<le> i \<and> i < a + n)"
  proof
    assume c: "a \<le> i \<and> i < a + n"
    then have "i - a < 512 - a mod 512" using assms(1) by linarith
    from same_sector [OF this] c False show False by simp
  qed
  with False show ?thesis by (auto simp: disk_byte_def)
qed

lemma read_bytes_loop_good:
  assumes dev: "virtio_device ops st ok cap" and "drv_good ok cap g" and range: "off + cnt \<le> cap * 512" and "k \<le> cnt"
  shows "\<exists>g'. read_bytes_loop ops off cnt k out g = (Ok (out @ map (disk_byte (drv_sect st g)) [off + k..<off + cnt]), g') \<and>
    drv_good ok cap g' \<and> drv_sect st g' = drv_sect st g"
  using assms(2,4)
proof (induction "cnt - k" arbitrary: k out g rule: less_induct)
  case less
  show ?case
  proof (cases "k = cnt")
    case True
    with less.prems show ?thesis by (subst read_bytes_loop.simps) simp
  next
    case False
    define a where "a = off + k"
    define n where "n = min (512 - a mod 512) (cnt - k)"
    have k: "k < cnt" and "a div 512 < cap" using False less.prems range by (auto simp: a_def)
    then obtain g1 where g1: "read_sectors ops (a div 512) 1 512 g = (Ok (drv_sect st g (a div 512)), g1)"
      "drv_good ok cap g1" "drv_sect st g1 = drv_sect st g"
      using read_sectors_good [OF dev less.prems(1)] by blast
    have n: "n \<le> 512 - a mod 512" "k + n \<le> cnt" "cnt - (k + n) < cnt - k"
      using k chunk_pos [OF k, of a] unfolding n_def by linarith+
    have "length (drv_sect st g (a div 512)) = 512"
      using less.prems(1) sector_device.sect_len [OF dev [unfolded virtio_device_def]] by (auto simp: drv_good_def drv_sect_def)
    then have chunk: "take n (drop (a mod 512) (drv_sect st g (a div 512))) = map (disk_byte (drv_sect st g)) [a..<a + n]"
      using n(1) by (rule sector_slice)
    obtain g' where g': "read_bytes_loop ops off cnt (k + n) (out @ map (disk_byte (drv_sect st g)) [a..<a + n]) g1 =
        (Ok ((out @ map (disk_byte (drv_sect st g)) [a..<a + n]) @ map (disk_byte (drv_sect st g1)) [off + (k + n)..<off + cnt]), g')"
      "drv_good ok cap g'" "drv_sect st g' = drv_sect st g1"
      using less.hyps [OF n(3) g1(2) n(2)] by blast
    have "[a..<off + cnt] = [a..<a + n] @ [off + (k + n)..<off + cnt]"
      using upt_add_eq_append [of a "a + n" "cnt - k - n"] n(2) by (simp add: a_def add.assoc)
    then have "read_bytes_loop ops off cnt k out g = (Ok (out @ map (disk_byte (drv_sect st g)) [off + k..<off + cnt]), g')"
      by (subst read_bytes_loop.simps, unfold Let_def, fold a_def, fold n_def)
         (use k in \<open>simp add: g1(1,3) chunk g'(1) del: One_nat_def\<close>)
    with g' g1(3) show ?thesis by simp
  qed
qed

lemma write_bytes_loop_good:
  assumes dev: "virtio_device ops st ok cap" and "drv_good ok cap g" and range: "off + cnt \<le> cap * 512" and "k \<le> cnt"
    and len: "cnt \<le> length input"
  shows "\<exists>g'. write_bytes_loop ops off input cnt k g = (Ok cnt, g') \<and> drv_good ok cap g' \<and>
    (\<forall>i. disk_byte (drv_sect st g') i =
       (if off + k \<le> i \<and> i < off + cnt then input ! (i - off) else disk_byte (drv_sect st g) i))"
  using assms(2,4)
proof (induction "cnt - k" arbitrary: k g rule: less_induct)
  case less
  show ?case
  proof (cases "k = cnt")
    case True
    with less.prems show ?thesis by (subst write_bytes_loop.simps) auto
  next
    case False
    define a where "a = off + k"
    define n where "n = min (512 - a mod 512) (cnt - k)"
    define bs where "bs = take n (drop k input)"
    have k: "k < cnt" and a: "a div 512 < cap" using False less.prems range by (auto simp: a_def)
    have n: "n + a mod 512 \<le> 512" "k + n \<le> cnt" using mod_less_divisor [of 512 a] k unfolding n_def by linarith+
    have bs: "length bs = n" using len n(2) by (simp add: bs_def)
    have bs_nth: "bs ! (i - a) = input ! (i - off)" if "a \<le> i" "i < a + n" for i
      using that n(2) len by (simp add: bs_def a_def)
    have old: "\<exists>old g1. (if a mod 512 \<noteq> 0 \<or> n \<noteq> 512 then read_sectors ops (a div 512) 1 512 g else (Ok (replicate 512 0), g)) = (Ok old, g1) \<and>
      drv_good ok cap g1 \<and> drv_sect st g1 = drv_sect st g \<and> length old = 512 \<and>
      (\<forall>i. i < a mod 512 \<or> a mod 512 + n \<le> i \<longrightarrow> i < 512 \<longrightarrow> old ! i = drv_sect st g (a div 512) ! i)"
    proof (cases "a mod 512 \<noteq> 0 \<or> n \<noteq> 512")
      case True
      have "length (drv_sect st g (a div 512)) = 512"
        using less.prems(1) sector_device.sect_len [OF dev [unfolded virtio_device_def]] by (auto simp: drv_good_def drv_sect_def)
      with True read_sectors_good [OF dev less.prems(1) a] show ?thesis by fastforce
    next
      case False
      with less.prems show ?thesis by auto
    qed
    then obtain old g1 where old: "(if a mod 512 \<noteq> 0 \<or> n \<noteq> 512 then read_sectors ops (a div 512) 1 512 g else (Ok (replicate 512 0), g)) = (Ok old, g1)"
      "drv_good ok cap g1" "drv_sect st g1 = drv_sect st g" "length old = 512"
      "\<And>i. i < a mod 512 \<or> a mod 512 + n \<le> i \<Longrightarrow> i < 512 \<Longrightarrow> old ! i = drv_sect st g (a div 512) ! i"
      by blast
    have "length (copy_into old (a mod 512) bs) = 512" using old(4) bs n(1) by simp
    then obtain g2 where g2: "write_sectors ops (a div 512) 1 (copy_into old (a mod 512) bs) g1 = (Ok (), g2)"
      "drv_good ok cap g2" "drv_sect st g2 = (drv_sect st g1)(a div 512 := copy_into old (a mod 512) bs)"
      using write_sectors_good [OF dev old(2) a] by blast
    have byte: "disk_byte (drv_sect st g2) i =
        (if a \<le> i \<and> i < a + n then bs ! (i - a) else disk_byte (drv_sect st g) i)" for i
      unfolding g2(3) old(3) using n(1) bs old(4,5) by (rule disk_byte_write)
    obtain g' where g': "write_bytes_loop ops off input cnt (k + n) g2 = (Ok cnt, g')" "drv_good ok cap g'"
      "\<And>i. disk_byte (drv_sect st g') i =
        (if off + (k + n) \<le> i \<and> i < off + cnt then input ! (i - off) else disk_byte (drv_sect st g2) i)"
      using less.hyps [of "k + n" g2] g2(2) n(2) chunk_pos [OF k, of a] by (auto simp: n_def)
    have "disk_byte (drv_sect st g') i =
        (if off + k \<le> i \<and> i < off + cnt then input ! (i - off) else disk_byte (drv_sect st g) i)" for i
      using g'(3) [of i] byte [of i] bs_nth [of i] n(2) by (simp add: a_def)
    moreover have "write_bytes_loop ops off input cnt k g = (Ok cnt, g')"
      by (subst write_bytes_loop.simps, unfold Let_def, fold a_def, fold n_def, fold bs_def)
         (use k in \<open>simp only: old(1) g2(1) g'(1) prod.case sum.case not_le [symmetric] if_False simp_thms\<close>)
    ultimately show ?thesis using g'(2) by blast
  qed
qed

section \<open>A device in memory\<close>

definition ram_ops :: "bytes list HwOps" where
  "ram_ops =
     \<lparr>hw_read = (\<lambda>sector n h. if n = 1 \<and> sector < length h then (Some (h ! sector), h) else (None, h)),
      hw_write = (\<lambda>sector n b h. if n = 1 \<and> sector < length h then (True, h[sector := b]) else (False, h))\<rparr>"

definition ram_sect :: "bytes list \<Rightarrow> nat \<Rightarrow> bytes" where
  "ram_sect h i = (if i < length h then h ! i else replicate 512 0)"

definition ram_ok :: "nat \<Rightarrow> bytes list \<Rightarrow> bool" where
  "ram_ok cap h \<longleftrightarrow> length h = cap \<and> (\<forall>s \<in> set h. length s = 512)"

interpretation ram: virtio_device ram_ops ram_sect "ram_ok cap" cap for cap
proof
  show "\<exists>d'. hw_read ram_ops n 1 d = (Some (ram_sect d n), d') \<and> ram_ok cap d' \<and> ram_sect d' = ram_sect d"
    if "ram_ok cap d" "n < cap" for d n
    using that by (simp add: ram_ops_def ram_ok_def ram_sect_def)
  show "\<exists>d'. hw_write ram_ops n 1 b d = (True, d') \<and> ram_ok cap d' \<and> ram_sect d' = (ram_sect d)(n := b)"
    if "ram_ok cap d" "n < cap" "length b = 512" for d n b
    using that by (auto simp: ram_ops_def ram_ok_def ram_sect_def fun_eq_iff nth_list_update dest: set_update_subset_insert [THEN subsetD])
  show "length (ram_sect d n) = 512" if "ram_ok cap d" for d n
    using that by (simp add: ram_ok_def ram_sect_def)
qed

section \<open>Properties\<close>

text \<open>
  C15: on a device that stores sectors, the byte interface of the block layer is a flat
  array of bytes.  A write changes exactly the bytes from its offset on, as many as it
  reports, cut at the end of the disk, whatever the alignment; a read returns the bytes
  from its offset on and changes nothing.
\<close>

theorem disk_is_byte_array:
  assumes "virtio_device ops st ok cap" and "drv_good ok cap g" and "cap * 512 \<le> USIZE_MAX"
  shows "(let n = min (length input) (cap * 512 - off) in
            \<exists>g'. write_bytes ops off input g = (Ok n, g') \<and> drv_good ok cap g' \<and>
              (\<forall>i. disk_byte (drv_sect st g') i =
                 (if off \<le> i \<and> i < off + n then input ! (i - off) else disk_byte (drv_sect st g) i))) \<and>
         (\<exists>g'. read_bytes ops off len g =
             (Ok (map (disk_byte (drv_sect st g)) [off..<off + min len (cap * 512 - off)]), g') \<and>
           drv_good ok cap g' \<and> drv_sect st g' = drv_sect st g)"
proof -
  have size: "saturating_mul (blk_sector_count g) 512 = cap * 512"
    using assms(2,3) by (auto simp: drv_good_def blk_sector_count_def saturating_mul_def)
  have "\<exists>g'. write_bytes ops off input g = (Ok (min (length input) (cap * 512 - off)), g') \<and> drv_good ok cap g' \<and>
      (\<forall>i. disk_byte (drv_sect st g') i =
         (if off \<le> i \<and> i < off + min (length input) (cap * 512 - off) then input ! (i - off) else disk_byte (drv_sect st g) i))"
  proof (cases "input = [] \<or> cap * 512 \<le> off")
    case True
    then show ?thesis using assms(2) size by (auto simp: write_bytes_def Let_def)
  next
    case False
    then have "off + min (length input) (cap * 512 - off) \<le> cap * 512" by linarith
    with False show ?thesis
      using write_bytes_loop_good [OF assms(1,2), of off "min (length input) (cap * 512 - off)" 0 input] size
      by (simp add: write_bytes_def Let_def)
  qed
  moreover have "\<exists>g'. read_bytes ops off len g = (Ok (map (disk_byte (drv_sect st g)) [off..<off + min len (cap * 512 - off)]), g') \<and>
      drv_good ok cap g' \<and> drv_sect st g' = drv_sect st g"
  proof (cases "len = 0 \<or> cap * 512 \<le> off")
    case True
    then show ?thesis using assms(2) size by (auto simp: read_bytes_def Let_def)
  next
    case False
    then have "off + min len (cap * 512 - off) \<le> cap * 512" by linarith
    with False show ?thesis
      using read_bytes_loop_good [OF assms(1,2), of off "min len (cap * 512 - off)" 0 "[]"] size
      by (simp add: read_bytes_def Let_def)
  qed
  ultimately show ?thesis by (simp add: Let_def)
qed

definition demo_driver :: "bytes list VirtioBlockDriver option" where
  "demo_driver = Some \<lparr>drv_sector_count = 2, hardware = True, transport = LegacyIo,
     device = [replicate 512 0, replicate 512 7]\<rparr>"

theorem disk_is_byte_array_witness:
  "\<exists>g. fst (write_bytes ram_ops 510 [1, 2, 3, 4] demo_driver) = Ok 4 \<and>
     fst (read_bytes ram_ops 0 3 demo_driver) = Ok g \<and> length g = 3"
proof -
  have good: "drv_good (ram_ok 2) 2 demo_driver" by (simp add: drv_good_def demo_driver_def ram_ok_def)
  have "2 * 512 \<le> USIZE_MAX" by (simp add: USIZE_MAX_def)
  from disk_is_byte_array [OF ram.virtio_device_axioms good this, of "[1, 2, 3, 4]" 510 3]
    disk_is_byte_array [OF ram.virtio_device_axioms good this, of "[]" 0 3]
  show ?thesis by (auto simp: Let_def)
qed

text \<open>
  The driver never comes back from a failure.  After one failed hardware transfer the
  driver reads from the image built into the kernel, whatever the disk holds, and every
  write fails.
\<close>

theorem failed_transfer_falls_back:
  assumes "hardware drv" and "transport drv \<noteq> Software" and "fst (hw_read ops sector 1 (device drv)) = None"
    and "read_sectors ops sector 1 512 (Some drv) = (r, g)"
  shows "r = software_read sector 1 \<and> (\<forall>s. fst (read_sectors ops s 1 512 g) = software_read s 1) \<and>
         (\<forall>s b. fst (write_sectors ops s 1 b g) = Err Blk_IoError)"
proof -
  obtain h where "hw_read ops sector 1 (device drv) = (None, h)"
    using assms(3) by (cases "hw_read ops sector 1 (device drv)") auto
  then have "r = software_read sector 1" "g = Some (drv\<lparr>device := h, hardware := False, transport := Software\<rparr>)"
    using assms by (auto simp: read_sectors_def drv_read_sectors_def hardware_read_sectors_def)
  then show ?thesis by (simp add: read_sectors_def drv_read_sectors_def write_sectors_def drv_write_sectors_def)
qed

theorem failed_transfer_falls_back_witness:
  "\<exists>r g. read_sectors ram_ops 2 1 512 demo_driver = (r, g) \<and> r = software_read 2 1 \<and>
     fst (write_sectors ram_ops 0 1 (replicate 512 0) g) = Err Blk_IoError"
proof -
  let ?drv = "the demo_driver"
  have h: "hardware ?drv" "transport ?drv \<noteq> Software" "fst (hw_read ram_ops 2 1 (device ?drv)) = None" "Some ?drv = demo_driver"
    by (simp_all add: demo_driver_def ram_ops_def)
  obtain r g where rg: "read_sectors ram_ops 2 1 512 demo_driver = (r, g)" by fastforce
  from failed_transfer_falls_back [OF h(1-3), of r g] rg h(4) show ?thesis by auto
qed

end
