(* ===== verification/Ext2_Base.thy ===== *)
theory Ext2_Base
  imports Vfs_Base Block_Device
begin

text \<open>
  The ext2 file system of \<open>kernel/src/fs/ext2.rs\<close>, lower half: the mounted file system and
  its inodes, blocks, byte order, paths and the two allocation bitmaps.

  Every method may fail with an \<open>Ext2Error\<close>, may panic (an index out of range) and acts
  on the kernel's block device, so a method of the model is a function from the state of
  the world to a result and the new state, or to \<open>None\<close> for a panic.  \<open>xbind\<close> is Rust's
  \<open>?\<close>, \<open>xtry\<close> gives the result as a value, as in \<open>if let Err(err) = ...\<close> and \<open>let _ = ...\<close>.
  \<open>DevOps\<close> holds what the file system uses of the rest of the kernel: one sector read and
  written, the clock, and fallible allocation.  Arithmetic on \<open>u32\<close> wraps, as in the
  release build.  Slice offsets that are in range by construction are read with plain
  list indexing.
\<close>

section \<open>Methods\<close>

type_synonym ('d, 'a) xio = "'d \<Rightarrow> ((Ext2Error, 'a) result \<times> 'd) option"

definition xok :: "'a \<Rightarrow> ('d, 'a) xio" where
  "xok x d = Some (Ok x, d)"

definition xfail :: "Ext2Error \<Rightarrow> ('d, 'a) xio" where
  "xfail e d = Some (Err e, d)"

definition xpanic :: "('d, 'a) xio" where
  "xpanic d = None"

definition xbind :: "('d, 'a) xio \<Rightarrow> ('a \<Rightarrow> ('d, 'b) xio) \<Rightarrow> ('d, 'b) xio" where
  "xbind m f d =
     (case m d of None \<Rightarrow> None | Some (Inl e, d') \<Rightarrow> Some (Err e, d') | Some (Inr x, d') \<Rightarrow> f x d')"

definition xtry :: "('d, 'a) xio \<Rightarrow> ('d, (Ext2Error, 'a) result) xio" where
  "xtry m d = (case m d of None \<Rightarrow> None | Some (r, d') \<Rightarrow> Some (Ok r, d'))"

text \<open>\<open>if let Err(err) = m { cleanup; return Err(err); }\<close>\<close>

definition xcleanup :: "('d, 'a) xio \<Rightarrow> ('d, unit) xio \<Rightarrow> ('d, 'a) xio" where
  "xcleanup m cleanup =
     xbind (xtry m) (\<lambda>r. case r of Inl e \<Rightarrow> xbind (xtry cleanup) (\<lambda>_. xfail e) | Inr x \<Rightarrow> xok x)"

definition xlift :: "(Ext2Error, 'a) result \<Rightarrow> ('d, 'a) xio" where
  "xlift r d = Some (r, d)"

primrec xfold :: "('a \<Rightarrow> 's \<Rightarrow> ('d, 's) xio) \<Rightarrow> 'a list \<Rightarrow> 's \<Rightarrow> ('d, 's) xio" where
  "xfold f [] s = xok s"
| "xfold f (x # xs) s = xbind (f x s) (xfold f xs)"

primrec xmap :: "('a \<Rightarrow> ('d, 'b) xio) \<Rightarrow> 'a list \<Rightarrow> ('d, 'b list) xio" where
  "xmap f [] = xok []"
| "xmap f (x # xs) = xbind (f x) (\<lambda>y. xbind (xmap f xs) (\<lambda>ys. xok (y # ys)))"

section \<open>Data\<close>

record 'd DevOps =
  dev_read :: "nat \<Rightarrow> 'd \<Rightarrow> bytes option \<times> 'd"
  dev_write :: "nat \<Rightarrow> bytes \<Rightarrow> 'd \<Rightarrow> bool \<times> 'd"
  dev_time :: "'d \<Rightarrow> u64 \<times> 'd"
  dev_reserve :: "nat \<Rightarrow> 'd \<Rightarrow> bool \<times> 'd"

definition EXT2_MAGIC :: u16 where "EXT2_MAGIC = 0xEF53"
definition EXT2_ROOT_INO :: u32 where "EXT2_ROOT_INO = 2"
definition EXT2_N_BLOCKS :: usize where "EXT2_N_BLOCKS = 15"
definition EXT2_DIRECT_BLOCKS :: usize where "EXT2_DIRECT_BLOCKS = 12"
definition EXT2_S_IFMT :: u16 where "EXT2_S_IFMT = 0xF000"
definition EXT2_S_IFREG :: u16 where "EXT2_S_IFREG = 0x8000"
definition EXT2_S_IFDIR :: u16 where "EXT2_S_IFDIR = 0x4000"
definition EXT2_S_IFLNK :: u16 where "EXT2_S_IFLNK = 0xA000"
definition EXT2_FIRST_NORMAL_INO :: u32 where "EXT2_FIRST_NORMAL_INO = 11"
definition EXT2_FT_REG_FILE :: u8 where "EXT2_FT_REG_FILE = 1"
definition EXT2_FT_DIR :: u8 where "EXT2_FT_DIR = 2"
definition EXT2_FT_SYMLINK :: u8 where "EXT2_FT_SYMLINK = 7"

lemmas ext2_consts =
  EXT2_MAGIC_def EXT2_ROOT_INO_def EXT2_N_BLOCKS_def EXT2_DIRECT_BLOCKS_def EXT2_S_IFMT_def EXT2_S_IFREG_def
  EXT2_S_IFDIR_def EXT2_S_IFLNK_def EXT2_FIRST_NORMAL_INO_def EXT2_FT_REG_FILE_def EXT2_FT_DIR_def EXT2_FT_SYMLINK_def

record BlockGroup =
  g_block_bitmap :: u32
  g_inode_bitmap :: u32
  g_inode_table :: u32

record Ext2Fs =
  fs_start_sector :: nat
  fs_block_size :: usize
  fs_blocks_count :: u32
  fs_inodes_count :: u32
  fs_blocks_per_group :: u32
  fs_inodes_per_group :: u32
  fs_inode_size :: usize
  fs_groups :: "BlockGroup list"
  fs_root_ino :: u32

record Inode =
  i_mode :: u16
  i_uid :: u32
  i_gid :: u32
  i_size :: u64
  i_atime :: u32
  i_ctime :: u32
  i_mtime :: u32
  i_links :: u16
  i_blocks :: "u32 list"

record DirEntry =
  de_ino :: u32
  de_name :: bytes

definition is_file :: "Inode \<Rightarrow> bool" where
  "is_file i \<longleftrightarrow> i_mode i AND EXT2_S_IFMT = EXT2_S_IFREG"

definition is_dir :: "Inode \<Rightarrow> bool" where
  "is_dir i \<longleftrightarrow> i_mode i AND EXT2_S_IFMT = EXT2_S_IFDIR"

definition is_symlink :: "Inode \<Rightarrow> bool" where
  "is_symlink i \<longleftrightarrow> i_mode i AND EXT2_S_IFMT = EXT2_S_IFLNK"

definition current_ext2_time :: "'d DevOps \<Rightarrow> ('d, u32) xio" where
  "current_ext2_time ops d = (let (t, d') = dev_time ops d in Some (Ok (ucast (min t 0xFFFFFFFF)), d'))"

definition empty_inode :: "u16 \<Rightarrow> u32 \<Rightarrow> u32 \<Rightarrow> u64 \<Rightarrow> u16 \<Rightarrow> u32 list \<Rightarrow> u32 \<Rightarrow> Inode" where
  "empty_inode md user grp sz links blocks now =
     \<lparr>i_mode = md, i_uid = user, i_gid = grp, i_size = sz, i_atime = now, i_ctime = now, i_mtime = now,
      i_links = links, i_blocks = blocks\<rparr>"

definition empty_file :: "'d DevOps \<Rightarrow> u32 \<Rightarrow> u32 \<Rightarrow> u16 \<Rightarrow> ('d, Inode) xio" where
  "empty_file ops user grp md =
     xbind (current_ext2_time ops) (\<lambda>now.
     xok (empty_inode (EXT2_S_IFREG OR (md AND 0xFFF)) user grp 0 1 (replicate EXT2_N_BLOCKS 0) now))"

definition empty_dir :: "'d DevOps \<Rightarrow> u32 \<Rightarrow> u32 \<Rightarrow> u16 \<Rightarrow> u32 \<Rightarrow> ('d, Inode) xio" where
  "empty_dir ops user grp md block =
     xbind (current_ext2_time ops) (\<lambda>now.
     xok (empty_inode (EXT2_S_IFDIR OR (md AND 0xFFF)) user grp 1024 2 ((replicate EXT2_N_BLOCKS 0)[0 := block]) now))"

definition empty_symlink :: "'d DevOps \<Rightarrow> u32 \<Rightarrow> u32 \<Rightarrow> ('d, Inode) xio" where
  "empty_symlink ops user grp =
     xbind (current_ext2_time ops) (\<lambda>now.
     xok (empty_inode (EXT2_S_IFLNK OR 0x1FF) user grp 0 1 (replicate EXT2_N_BLOCKS 0) now))"

definition increment_links :: "'d DevOps \<Rightarrow> Inode \<Rightarrow> ('d, Inode) xio" where
  "increment_links ops inode =
     (if i_links inode = - 1 then xfail X_TooManyLinks
      else xbind (current_ext2_time ops) (\<lambda>now. xok (inode\<lparr>i_links := i_links inode + 1, i_ctime := now\<rparr>)))"

section \<open>Bytes\<close>

definition le_u16 :: "bytes \<Rightarrow> usize \<Rightarrow> u16" where
  "le_u16 buf off = u16_from_le (buf ! off) (buf ! (off + 1))"

definition le_u32 :: "bytes \<Rightarrow> usize \<Rightarrow> u32" where
  "le_u32 buf off = u32_from_le (buf ! off) (buf ! (off + 1)) (buf ! (off + 2)) (buf ! (off + 3))"

definition put_u16 :: "bytes \<Rightarrow> usize \<Rightarrow> u16 \<Rightarrow> bytes" where
  "put_u16 buf off value = copy_into buf off (u16_to_le value)"

definition put_u32 :: "bytes \<Rightarrow> usize \<Rightarrow> u32 \<Rightarrow> bytes" where
  "put_u32 buf off value = copy_into buf off (u32_to_le value)"

definition align4 :: "usize \<Rightarrow> usize" where
  "align4 value = unat ((word_of_nat (value + 3) :: u64) AND NOT 3)"

section \<open>Paths\<close>

fun join_parts :: "bytes list \<Rightarrow> bytes" where
  "join_parts [] = []"
| "join_parts [p] = p"
| "join_parts (p # ps) = p @ SLASH # join_parts ps"

definition components_to_path :: "bytes list \<Rightarrow> bytes" where
  "components_to_path parts = SLASH # join_parts parts"

definition normalize_ext2_path :: "bytes \<Rightarrow> (Ext2Error, bytes) result" where
  "normalize_ext2_path path =
     (if \<not> starts_with_slash path then Err X_NotFound else Ok (components_to_path (path_parts path)))"

definition trim_start :: "bytes \<Rightarrow> bytes" where
  "trim_start = dropWhile (\<lambda>c. c = SLASH)"

definition join_ext2_path :: "bytes \<Rightarrow> bytes \<Rightarrow> bytes" where
  "join_ext2_path base leaf =
     (if leaf = [] then base
      else if base = [SLASH] then SLASH # trim_start leaf
      else trim_end_slashes base @ SLASH # trim_start leaf)"

definition split_parent_name :: "bytes \<Rightarrow> (Ext2Error, bytes \<times> bytes) result" where
  "split_parent_name path =
     (case normalize_ext2_path path of
        Inl e \<Rightarrow> Err e
      | Inr normalized \<Rightarrow>
          let trimmed = trim_end_slashes normalized in
          if \<not> starts_with_slash trimmed \<or> trimmed = [SLASH] then Err X_NotFound
          else case rfind_slash trimmed of
                 None \<Rightarrow> Err X_NotFound
               | Some slash \<Rightarrow>
                   let parent = (if slash = 0 then [SLASH] else take slash trimmed);
                       name = drop (slash + 1) trimmed
                   in if name = [] then Err X_NotFound else Ok (parent, name))"

section \<open>Blocks\<close>

definition read_sector :: "'d DevOps \<Rightarrow> nat \<Rightarrow> ('d, bytes) xio" where
  "read_sector ops sector d =
     (case dev_read ops sector d of
        (Some bs, d') \<Rightarrow> Some (Ok bs, d') | (None, d') \<Rightarrow> Some (Err X_IoError, d'))"

definition write_sector :: "'d DevOps \<Rightarrow> nat \<Rightarrow> bytes \<Rightarrow> ('d, unit) xio" where
  "write_sector ops sector bs d =
     (case dev_write ops sector bs d of
        (True, d') \<Rightarrow> Some (Ok (), d') | (False, d') \<Rightarrow> Some (Err X_IoError, d'))"

text \<open>The free functions of the same names, applied to the geometry of the mounted file system.\<close>

definition read_block_sized :: "'d DevOps \<Rightarrow> nat \<Rightarrow> nat \<Rightarrow> usize \<Rightarrow> usize \<Rightarrow> ('d, bytes) xio" where
  "read_block_sized ops start block block_size out_len =
     (if out_len < block_size \<or> block_size \<noteq> 1024 then xfail X_IoError
      else let sector = start + block * (block_size div 512) in
           xbind (read_sector ops sector) (\<lambda>lo. xbind (read_sector ops (sector + 1)) (\<lambda>hi. xok (lo @ hi))))"

definition write_block_sized :: "'d DevOps \<Rightarrow> nat \<Rightarrow> nat \<Rightarrow> usize \<Rightarrow> bytes \<Rightarrow> ('d, unit) xio" where
  "write_block_sized ops start block block_size input =
     (if length input < block_size \<or> block_size \<noteq> 1024 then xfail X_IoError
      else let sector = start + block * (block_size div 512) in
           xbind (write_sector ops sector (take 512 input)) (\<lambda>_.
           write_sector ops (sector + 1) (take 512 (drop 512 input))))"

definition fs_read_block :: "'d DevOps \<Rightarrow> Ext2Fs \<Rightarrow> nat \<Rightarrow> usize \<Rightarrow> ('d, bytes) xio" where
  "fs_read_block ops fs block out_len = read_block_sized ops (fs_start_sector fs) block (fs_block_size fs) out_len"

definition fs_write_block :: "'d DevOps \<Rightarrow> Ext2Fs \<Rightarrow> nat \<Rightarrow> bytes \<Rightarrow> ('d, unit) xio" where
  "fs_write_block ops fs block input = write_block_sized ops (fs_start_sector fs) block (fs_block_size fs) input"

section \<open>Allocation bitmaps\<close>

definition bitmap_bit :: "bytes \<Rightarrow> nat \<Rightarrow> bool option" where
  "bitmap_bit buf i = map_option (\<lambda>b. b AND push_bit (i mod 8) 1 \<noteq> 0) (nth_opt buf (i div 8))"

definition set_bitmap_bit :: "bytes \<Rightarrow> nat \<Rightarrow> bool \<Rightarrow> bytes option" where
  "set_bitmap_bit buf i used =
     map_option (\<lambda>b. buf[i div 8 := (if used then b OR push_bit (i mod 8) 1 else b AND NOT (push_bit (i mod 8) 1))])
       (nth_opt buf (i div 8))"

text \<open>
  The scan of one bitmap for a clear bit: \<open>None\<close> is an index out of range, \<open>Inl\<close> a number
  past the last one of the file system, \<open>Inr None\<close> a full group.
\<close>

fun scan_bitmap :: "bytes \<Rightarrow> (nat \<Rightarrow> bool) \<Rightarrow> nat list \<Rightarrow> (unit + nat option) option" where
  "scan_bitmap bitmap beyond [] = Some (Inr None)"
| "scan_bitmap bitmap beyond (i # is) =
     (if beyond i then Some (Inl ())
      else case bitmap_bit bitmap i of
             None \<Rightarrow> None
           | Some used \<Rightarrow> if \<not> used then Some (Inr (Some i)) else scan_bitmap bitmap beyond is)"

text \<open>
  The loop over the groups shared by \<open>allocate_inode\<close> and \<open>allocate_block\<close>: \<open>bm\<close> is the
  bitmap block of a group, \<open>first\<close> and \<open>per\<close> the range of bits, \<open>num g i\<close> the number of
  bit \<open>i\<close> of group \<open>g\<close> and \<open>beyond\<close> the test that it is past the last one.
\<close>

fun allocate_bit ::
    "'d DevOps \<Rightarrow> Ext2Fs \<Rightarrow> (BlockGroup \<Rightarrow> u32) \<Rightarrow> (nat \<Rightarrow> nat) \<Rightarrow> nat \<Rightarrow> (nat \<Rightarrow> nat \<Rightarrow> u32) \<Rightarrow> (u32 \<Rightarrow> bool) \<Rightarrow>
     nat \<Rightarrow> BlockGroup list \<Rightarrow> ('d, u32) xio" where
  "allocate_bit ops fs bm first per num beyond g [] = xfail X_NoSpace"
| "allocate_bit ops fs bm first per num beyond g (grp # gs) =
     xbind (fs_read_block ops fs (unat (bm grp)) 1024) (\<lambda>bitmap.
       case scan_bitmap bitmap (\<lambda>i. beyond (num g i)) [first g..<per] of
         None \<Rightarrow> xpanic
       | Some (Inl _) \<Rightarrow> xfail X_NoSpace
       | Some (Inr None) \<Rightarrow> allocate_bit ops fs bm first per num beyond (g + 1) gs
       | Some (Inr (Some i)) \<Rightarrow>
           (case set_bitmap_bit bitmap i True of
              None \<Rightarrow> xpanic
            | Some bitmap' \<Rightarrow>
                xbind (fs_write_block ops fs (unat (bm grp)) bitmap') (\<lambda>_. xok (num g i))))"

definition inode_number :: "Ext2Fs \<Rightarrow> nat \<Rightarrow> nat \<Rightarrow> u32" where
  "inode_number fs g i = of_nat g * fs_inodes_per_group fs + of_nat i + 1"

definition block_number :: "Ext2Fs \<Rightarrow> nat \<Rightarrow> nat \<Rightarrow> u32" where
  "block_number fs g i = of_nat g * fs_blocks_per_group fs + of_nat i"

definition allocate_inode :: "'d DevOps \<Rightarrow> Ext2Fs \<Rightarrow> ('d, u32) xio" where
  "allocate_inode ops fs =
     allocate_bit ops fs g_inode_bitmap (\<lambda>g. if g = 0 then unat (EXT2_FIRST_NORMAL_INO - 1) else 0)
       (unat (fs_inodes_per_group fs)) (inode_number fs) (\<lambda>ino. ino > fs_inodes_count fs) 0 (fs_groups fs)"

definition allocate_block :: "'d DevOps \<Rightarrow> Ext2Fs \<Rightarrow> ('d, u32) xio" where
  "allocate_block ops fs =
     allocate_bit ops fs g_block_bitmap (\<lambda>_. 0) (unat (fs_blocks_per_group fs)) (block_number fs)
       (\<lambda>block. block \<ge> fs_blocks_count fs) 0 (fs_groups fs)"

text \<open>\<open>free_inode\<close> and \<open>free_block\<close>: clear bit \<open>index mod per\<close> of group \<open>index div per\<close>.\<close>

definition free_bit ::
    "'d DevOps \<Rightarrow> Ext2Fs \<Rightarrow> (BlockGroup \<Rightarrow> u32) \<Rightarrow> u32 \<Rightarrow> u32 \<Rightarrow> ('d, unit) xio" where
  "free_bit ops fs bm per index =
     (case nth_opt (fs_groups fs) (unat (index div per)) of
        None \<Rightarrow> xfail X_NotFound
      | Some grp \<Rightarrow>
          xbind (fs_read_block ops fs (unat (bm grp)) 1024) (\<lambda>bitmap.
            case set_bitmap_bit bitmap (unat (index mod per)) False of
              None \<Rightarrow> xpanic
            | Some bitmap' \<Rightarrow> fs_write_block ops fs (unat (bm grp)) bitmap'))"

definition free_inode :: "'d DevOps \<Rightarrow> Ext2Fs \<Rightarrow> u32 \<Rightarrow> ('d, unit) xio" where
  "free_inode ops fs ino =
     (if ino = 0 \<or> ino > fs_inodes_count fs then xfail X_NotFound
      else free_bit ops fs g_inode_bitmap (fs_inodes_per_group fs) (ino - 1))"

definition free_block :: "'d DevOps \<Rightarrow> Ext2Fs \<Rightarrow> u32 \<Rightarrow> ('d, unit) xio" where
  "free_block ops fs block =
     (if block \<ge> fs_blocks_count fs then xfail X_NotFound
      else free_bit ops fs g_block_bitmap (fs_blocks_per_group fs) block)"

text \<open>The counts of clear bits; a group's scan ends at the last number of the file system.\<close>

fun count_clear :: "bytes \<Rightarrow> (nat \<Rightarrow> bool) \<Rightarrow> nat list \<Rightarrow> nat \<Rightarrow> nat option" where
  "count_clear bitmap beyond [] free = Some free"
| "count_clear bitmap beyond (i # is) free =
     (if beyond i then Some free
      else case bitmap_bit bitmap i of
             None \<Rightarrow> None
           | Some used \<Rightarrow> count_clear bitmap beyond is (if used then free else min (free + 1) (2 ^ 32 - 1)))"

fun count_free ::
    "'d DevOps \<Rightarrow> Ext2Fs \<Rightarrow> (BlockGroup \<Rightarrow> u32) \<Rightarrow> nat \<Rightarrow> (nat \<Rightarrow> nat \<Rightarrow> u32) \<Rightarrow> (u32 \<Rightarrow> bool) \<Rightarrow>
     nat \<Rightarrow> BlockGroup list \<Rightarrow> nat \<Rightarrow> ('d, nat) xio" where
  "count_free ops fs bm per num beyond g [] free = xok free"
| "count_free ops fs bm per num beyond g (grp # gs) free =
     xbind (fs_read_block ops fs (unat (bm grp)) 1024) (\<lambda>bitmap.
       case count_clear bitmap (\<lambda>i. beyond (num g i)) [0..<per] free of
         None \<Rightarrow> xpanic
       | Some free' \<Rightarrow> count_free ops fs bm per num beyond (g + 1) gs free')"

definition count_free_inodes :: "'d DevOps \<Rightarrow> Ext2Fs \<Rightarrow> ('d, nat) xio" where
  "count_free_inodes ops fs =
     count_free ops fs g_inode_bitmap (unat (fs_inodes_per_group fs)) (inode_number fs)
       (\<lambda>ino. ino > fs_inodes_count fs) 0 (fs_groups fs) 0"

definition count_free_blocks :: "'d DevOps \<Rightarrow> Ext2Fs \<Rightarrow> ('d, nat) xio" where
  "count_free_blocks ops fs =
     count_free ops fs g_block_bitmap (unat (fs_blocks_per_group fs)) (block_number fs)
       (\<lambda>block. block \<ge> fs_blocks_count fs) 0 (fs_groups fs) 0"

end
