(* ===== verification/Ext2_Logic.thy ===== *)
theory Ext2_Logic
  imports Ext2_Base
begin

text \<open>
  A weakest-precondition calculus for the methods of the ext2 file system, and what the
  block and bitmap operations do to the contents of the disk.  The calculus is stated
  over the interface the file system uses of the kernel, \<open>ext2_device\<close>: a sector store, a
  clock and an allocator that do not touch it.  The interface is interpreted on the
  model of the block driver.
\<close>

section \<open>The interface\<close>

type_synonym store = "nat \<Rightarrow> bytes"

locale ext2_device =
  sector_device "dev_read ops" "dev_write ops" sect good cap
  for ops :: "'d DevOps" and sect good cap +
  assumes time_ok: "good d \<Longrightarrow> good (snd (dev_time ops d)) \<and> sect (snd (dev_time ops d)) = sect d"
    and reserve_ok: "good d \<Longrightarrow> \<exists>d'. dev_reserve ops n d = (True, d') \<and> good d' \<and> sect d' = sect d"

text \<open>The operations of the kernel on the block driver, with a clock that ticks and a heap that has room.\<close>

definition kernel_dev :: "'h HwOps \<Rightarrow> ('h VirtioBlockDriver option \<times> u64) DevOps" where
  "kernel_dev hw =
     \<lparr>dev_read = (\<lambda>n (g, t). let (r, g') = drv_read hw n g in (r, (g', t))),
      dev_write = (\<lambda>n b (g, t). let (r, g') = drv_write hw n b g in (r, (g', t))),
      dev_time = (\<lambda>(g, t). (t, (g, t + 1))),
      dev_reserve = (\<lambda>_ s. (True, s))\<rparr>"

sublocale virtio_device \<subseteq> kernel: ext2_device "kernel_dev ops" "\<lambda>s. drv_sect st (fst s)" "\<lambda>s. drv_good ok cap (fst s)" cap
proof
  fix d :: "'h VirtioBlockDriver option \<times> u64" and n b
  assume good: "drv_good ok cap (fst d)"
  show "\<exists>d'. dev_read (kernel_dev ops) n d = (Some (drv_sect st (fst d) n), d') \<and> drv_good ok cap (fst d') \<and>
      drv_sect st (fst d') = drv_sect st (fst d)" if "n < cap"
    using drv.rd_ok [OF good that] by (auto simp: kernel_dev_def split: prod.splits)
  show "\<exists>d'. dev_write (kernel_dev ops) n b d = (True, d') \<and> drv_good ok cap (fst d') \<and>
      drv_sect st (fst d') = (drv_sect st (fst d))(n := b)" if "n < cap" "length b = 512"
    using drv.wr_ok [OF good that] by (auto simp: kernel_dev_def split: prod.splits)
  show "length (drv_sect st (fst d) n) = 512"
    using drv.sect_len [OF good] .
  show "drv_good ok cap (fst (snd (dev_time (kernel_dev ops) d))) \<and>
      drv_sect st (fst (snd (dev_time (kernel_dev ops) d))) = drv_sect st (fst d)"
    using good by (cases d) (simp add: kernel_dev_def)
  show "\<exists>d'. dev_reserve (kernel_dev ops) n d = (True, d') \<and> drv_good ok cap (fst d') \<and> drv_sect st (fst d') = drv_sect st (fst d)"
    using good by (simp add: kernel_dev_def)
qed

section \<open>Fields of a buffer\<close>

lemma le_put_same [simp]:
  "off + 4 \<le> length buf \<Longrightarrow> le_u32 (put_u32 buf off v) off = v"
  "off + 2 \<le> length buf \<Longrightarrow> le_u16 (put_u16 buf off w) off = w"
  by (simp_all add: le_u32_def put_u32_def le_u16_def put_u16_def nth_copy_into u32_to_le_def u16_to_le_def)

lemma length_to_le [simp]: "length (u32_to_le v) = 4" "length (u16_to_le w) = 2"
  by (simp_all add: u32_to_le_def u16_to_le_def)

lemma le_copy_other:
  assumes "off + length inp \<le> length buf"
  shows "at + 4 \<le> length buf \<Longrightarrow> off + length inp \<le> at \<or> at + 4 \<le> off \<Longrightarrow> le_u32 (copy_into buf off inp) at = le_u32 buf at"
    and "at + 2 \<le> length buf \<Longrightarrow> off + length inp \<le> at \<or> at + 2 \<le> off \<Longrightarrow> le_u16 (copy_into buf off inp) at = le_u16 buf at"
  using assms by (auto simp: le_u32_def le_u16_def nth_copy_into)

lemma le_put_other:
  "off + 4 \<le> length buf \<Longrightarrow> at + 4 \<le> length buf \<Longrightarrow> off + 4 \<le> at \<or> at + 4 \<le> off \<Longrightarrow> le_u32 (put_u32 buf off v) at = le_u32 buf at"
  "off + 2 \<le> length buf \<Longrightarrow> at + 4 \<le> length buf \<Longrightarrow> off + 2 \<le> at \<or> at + 4 \<le> off \<Longrightarrow> le_u32 (put_u16 buf off w) at = le_u32 buf at"
  "off + 4 \<le> length buf \<Longrightarrow> at + 2 \<le> length buf \<Longrightarrow> off + 4 \<le> at \<or> at + 2 \<le> off \<Longrightarrow> le_u16 (put_u32 buf off v) at = le_u16 buf at"
  "off + 2 \<le> length buf \<Longrightarrow> at + 2 \<le> length buf \<Longrightarrow> off + 2 \<le> at \<or> at + 2 \<le> off \<Longrightarrow> le_u16 (put_u16 buf off w) at = le_u16 buf at"
  by (simp_all add: put_u32_def put_u16_def le_copy_other)

lemma length_put [simp]:
  "off + 4 \<le> length buf \<Longrightarrow> length (put_u32 buf off v) = length buf"
  "off + 2 \<le> length buf \<Longrightarrow> length (put_u16 buf off w) = length buf"
  by (simp_all add: put_u32_def put_u16_def)

section \<open>Weakest preconditions\<close>

text \<open>
  \<open>wpx good sect m st Q\<close>: from every good state whose disk is \<open>st\<close>, the method ends without
  a panic in a good state, and its result and the disk it leaves satisfy \<open>Q\<close>.
\<close>

definition wpx ::
    "('d \<Rightarrow> bool) \<Rightarrow> ('d \<Rightarrow> store) \<Rightarrow> ('d, 'a) xio \<Rightarrow> store \<Rightarrow> ((Ext2Error, 'a) result \<Rightarrow> store \<Rightarrow> bool) \<Rightarrow> bool" where
  "wpx good sect m st Q \<longleftrightarrow>
     (\<forall>d. good d \<and> sect d = st \<longrightarrow> (\<exists>r d'. m d = Some (r, d') \<and> good d' \<and> Q r (sect d')))"

text \<open>A postcondition from one for errors and one for results.\<close>

definition upon :: "(Ext2Error \<Rightarrow> store \<Rightarrow> bool) \<Rightarrow> ('a \<Rightarrow> store \<Rightarrow> bool) \<Rightarrow> (Ext2Error, 'a) result \<Rightarrow> store \<Rightarrow> bool" where
  "upon E P r st = (case r of Inl e \<Rightarrow> E e st | Inr x \<Rightarrow> P x st)"

lemma upon_simps [simp]: "upon E P (Inl e) st = E e st" "upon E P (Inr x) st = P x st"
  by (simp_all add: upon_def)

lemma wpxD: "wpx good sect m (sect d) Q \<Longrightarrow> good d \<Longrightarrow> \<exists>r d'. m d = Some (r, d') \<and> good d' \<and> Q r (sect d')"
  by (auto simp: wpx_def)

lemma wpx_okD:
  assumes "wpx good sect m (sect d) (upon (\<lambda>_ _. False) P)" and "good d"
  shows "\<exists>x d'. m d = Some (Ok x, d') \<and> good d' \<and> P x (sect d')"
proof -
  obtain r d' where "m d = Some (r, d')" "good d'" "upon (\<lambda>_ _. False) P r (sect d')" using wpxD [OF assms] by blast
  then show ?thesis by (cases r) auto
qed

lemma wpx_conseq: "wpx good sect m st Q \<Longrightarrow> (\<And>r st'. Q r st' \<Longrightarrow> R r st') \<Longrightarrow> wpx good sect m st R"
  unfolding wpx_def by blast

lemma wpx_ok: "P x st \<Longrightarrow> wpx good sect (xok x) st (upon E P)"
  by (auto simp: wpx_def xok_def)

lemma wpx_fail: "E e st \<Longrightarrow> wpx good sect (xfail e) st (upon E P)"
  by (auto simp: wpx_def xfail_def)

lemma wpx_lift: "(case r of Inl e \<Rightarrow> E e st | Inr x \<Rightarrow> P x st) \<Longrightarrow> wpx good sect (xlift r) st (upon E P)"
  by (auto simp: wpx_def xlift_def upon_def)

lemma wpx_bind:
  assumes "wpx good sect m st (upon E (\<lambda>x st'. wpx good sect (f x) st' (upon E P)))"
  shows "wpx good sect (xbind m f) st (upon E P)"
  unfolding wpx_def
proof (intro allI impI)
  fix d
  assume "good d \<and> sect d = st"
  then obtain r d' where m: "m d = Some (r, d')" "good d'"
      "upon E (\<lambda>x st'. wpx good sect (f x) st' (upon E P)) r (sect d')"
    using assms unfolding wpx_def by blast
  show "\<exists>r d'. xbind m f d = Some (r, d') \<and> good d' \<and> upon E P r (sect d')"
  proof (cases r)
    case (Inl e)
    with m show ?thesis by (simp add: xbind_def)
  next
    case (Inr x)
    with m have "wpx good sect (f x) (sect d') (upon E P)" by simp
    then show ?thesis using m Inr wpxD [of good sect "f x" d' "upon E P"] by (simp add: xbind_def)
  qed
qed

lemma wpx_bindI:
  assumes "wpx good sect m st (upon E P)" and "\<And>x st'. P x st' \<Longrightarrow> wpx good sect (f x) st' (upon E R)"
  shows "wpx good sect (xbind m f) st (upon E R)"
  by (rule wpx_bind, rule wpx_conseq [OF assms(1)]) (auto simp: upon_def assms(2) split: sum.splits)

lemma wpx_upon_conseq:
  assumes "wpx good sect m st (upon E P)" and "\<And>e st'. E e st' \<Longrightarrow> E' e st'" and "\<And>x st'. P x st' \<Longrightarrow> P' x st'"
  shows "wpx good sect m st (upon E' P')"
  by (rule wpx_conseq [OF assms(1)]) (auto simp: upon_def assms(2,3) split: sum.splits)

lemma wpx_if: "(c \<Longrightarrow> wpx good sect m st Q) \<Longrightarrow> (\<not> c \<Longrightarrow> wpx good sect m' st Q) \<Longrightarrow> wpx good sect (if c then m else m') st Q"
  by simp

lemma xbind_assoc: "xbind (xbind m f) g = xbind m (\<lambda>x. xbind (f x) g)"
  by (auto simp: xbind_def fun_eq_iff split: option.splits sum.splits prod.splits)

text \<open>A loop keeps an invariant over the elements still to come.\<close>

lemma wpx_xfold:
  assumes "I xs s st"
    and "\<And>y ys s st. I (y # ys) s st \<Longrightarrow> wpx good sect (f y s) st (upon E (I ys))"
  shows "wpx good sect (xfold f xs s) st (upon E (I []))"
  using assms(1)
proof (induction xs arbitrary: s st)
  case Nil
  then show ?case by (simp add: wpx_ok)
next
  case (Cons y ys)
  show ?case unfolding xfold.simps by (rule wpx_bindI [OF assms(2) [OF Cons.prems] Cons.IH])
qed

section \<open>Blocks of the disk\<close>

definition blkv :: "Ext2Fs \<Rightarrow> store \<Rightarrow> nat \<Rightarrow> bytes" where
  "blkv fs st n = st (fs_start_sector fs + 2 * n) @ st (fs_start_sector fs + 2 * n + 1)"

definition bput :: "Ext2Fs \<Rightarrow> store \<Rightarrow> nat \<Rightarrow> bytes \<Rightarrow> store" where
  "bput fs st n data =
     st(fs_start_sector fs + 2 * n := take 512 data, fs_start_sector fs + 2 * n + 1 := drop 512 data)"

abbreviation nblocks :: "Ext2Fs \<Rightarrow> nat" where
  "nblocks fs \<equiv> unat (fs_blocks_count fs)"

lemma blkv_bput: "blkv fs (bput fs st n data) m = (if m = n then data else blkv fs st m)"
proof (cases "m = n")
  case False
  have "fs_start_sector fs + 2 * m \<noteq> fs_start_sector fs + 2 * n + 1" "fs_start_sector fs + 2 * m + 1 \<noteq> fs_start_sector fs + 2 * n"
    by presburger+
  with False show ?thesis by (simp add: blkv_def bput_def)
qed (simp add: blkv_def bput_def)

text \<open>The parts of the geometry that the data of files depends on.\<close>

definition geom :: "Ext2Fs \<Rightarrow> nat \<Rightarrow> bool" where
  "geom fs cap \<longleftrightarrow>
     fs_block_size fs = 1024 \<and> fs_start_sector fs + 2 * nblocks fs \<le> cap"

context ext2_device
begin

abbreviation wp where "wp \<equiv> wpx good sect"

lemma wp_len: "((\<And>n. length (st n) = 512) \<Longrightarrow> wp m st Q) \<Longrightarrow> wp m st Q"
  unfolding wpx_def using sect_len by metis

lemma wp_read_sector:
  assumes "n < cap" and "P (st n) st"
  shows "wp (read_sector ops n) st (upon E P)"
  unfolding wpx_def
proof (intro allI impI)
  fix d
  assume d: "good d \<and> sect d = st"
  then obtain d' where "dev_read ops n d = (Some (st n), d')" "good d'" "sect d' = st"
    using rd_ok [of d n] assms(1) by auto
  with assms(2) show "\<exists>r d'. read_sector ops n d = Some (r, d') \<and> good d' \<and> upon E P r (sect d')"
    by (simp add: read_sector_def)
qed

lemma wp_write_sector:
  assumes "n < cap" and "length bs = 512" and "P () (st(n := bs))"
  shows "wp (write_sector ops n bs) st (upon E P)"
  unfolding wpx_def
proof (intro allI impI)
  fix d
  assume d: "good d \<and> sect d = st"
  then obtain d' where "dev_write ops n bs d = (True, d')" "good d'" "sect d' = st(n := bs)"
    using wr_ok [of d n bs] assms(1,2) by auto
  with assms(3) show "\<exists>r d'. write_sector ops n bs d = Some (r, d') \<and> good d' \<and> upon E P r (sect d')"
    by (simp add: write_sector_def)
qed

lemma wp_read_block:
  assumes "geom fs cap" and "n < nblocks fs" and "1024 \<le> len" and "length (blkv fs st n) = 1024 \<Longrightarrow> P (blkv fs st n) st"
  shows "wp (fs_read_block ops fs n len) st (upon E P)"
proof (rule wp_len)
  assume len: "\<And>n. length (st n) = 512"
  have n: "fs_start_sector fs + 2 * n < cap" "fs_start_sector fs + 2 * n + 1 < cap"
    using assms(1,2) unfolding geom_def by linarith+
  have "P (st (fs_start_sector fs + 2 * n) @ st (fs_start_sector fs + 2 * n + 1)) st"
    using assms(4) len by (simp add: blkv_def)
  then show ?thesis
    unfolding fs_read_block_def read_block_sized_def
    using assms(1,3) n by (auto simp: geom_def Let_def mult.commute [of n] intro!: wpx_bind wp_read_sector wpx_ok)
qed

lemma wp_write_block:
  assumes "geom fs cap" and "n < nblocks fs" and "length data = 1024" and "P () (bput fs st n data)"
  shows "wp (fs_write_block ops fs n data) st (upon E P)"
proof -
  have n: "fs_start_sector fs + 2 * n < cap" "fs_start_sector fs + 2 * n + 1 < cap"
    using assms(1,2) unfolding geom_def by linarith+
  show ?thesis
    unfolding fs_write_block_def write_block_sized_def
    using assms n by (auto simp: geom_def bput_def Let_def mult.commute [of n] intro!: wpx_bind wp_write_sector)
qed

lemma wp_time:
  assumes "\<And>t. P t st"
  shows "wp (current_ext2_time ops) st (upon E P)"
  unfolding wpx_def
proof (intro allI impI)
  fix d
  assume d: "good d \<and> sect d = st"
  obtain t d' where "dev_time ops d = (t, d')" by (cases "dev_time ops d")
  with d time_ok [of d] assms show "\<exists>r d'. current_ext2_time ops d = Some (r, d') \<and> good d' \<and> upon E P r (sect d')"
    by (simp add: current_ext2_time_def)
qed

lemma wp_reserve:
  assumes "wp m st Q"
  shows "wp (\<lambda>d. case dev_reserve ops n d of (False, d') \<Rightarrow> f d' | (True, d') \<Rightarrow> m d') st Q"
  unfolding wpx_def
proof (intro allI impI)
  fix d
  assume d: "good d \<and> sect d = st"
  then obtain d' where "dev_reserve ops n d = (True, d')" "good d'" "sect d' = st"
    using reserve_ok [of d n] by auto
  with assms show "\<exists>r d'. (case dev_reserve ops n d of (False, d') \<Rightarrow> f d' | (True, d') \<Rightarrow> m d') = Some (r, d') \<and>
      good d' \<and> Q r (sect d')"
    by (simp add: wpx_def)
qed

end

end
