(* ===== verification/Ext2_Bitmap.thy ===== *)
theory Ext2_Bitmap
  imports Ext2_Logic
begin

text \<open>
  The two allocation bitmaps of \<open>kernel/src/fs/ext2.rs\<close>, seen as one mark for each inode
  and one for each block, and what allocating and freeing do to the marks.
\<close>

section \<open>One bitmap\<close>

definition isset :: "bytes \<Rightarrow> nat \<Rightarrow> bool" where
  "isset bm i = bit (bm ! (i div 8)) (i mod 8)"

definition putbit :: "bytes \<Rightarrow> nat \<Rightarrow> bool \<Rightarrow> bytes" where
  "putbit bm i v =
     bm[i div 8 := (if v then bm ! (i div 8) OR push_bit (i mod 8) 1 else bm ! (i div 8) AND NOT (push_bit (i mod 8) 1))]"

lemma and_exp_u8: "w AND 2 ^ n \<noteq> 0 \<longleftrightarrow> bit w n" for w :: u8
  by (simp add: and_exp_eq_0_iff_not_bit)

lemma bitmap_bit_isset: "i < 8 * length bm \<Longrightarrow> bitmap_bit bm i = Some (isset bm i)"
  by (simp add: bitmap_bit_def nth_opt_def isset_def and_exp_u8 less_mult_imp_div_less mult.commute)

lemma set_bitmap_bit_putbit: "i < 8 * length bm \<Longrightarrow> set_bitmap_bit bm i v = Some (putbit bm i v)"
  by (simp add: set_bitmap_bit_def nth_opt_def putbit_def less_mult_imp_div_less mult.commute)

lemma length_putbit [simp]: "length (putbit bm i v) = length bm"
  by (simp add: putbit_def)

lemma isset_putbit:
  assumes "i < 8 * length bm" and "j < 8 * length bm"
  shows "isset (putbit bm i v) j = (if j = i then v else isset bm j)"
proof -
  have len: "i div 8 < length bm" "j div 8 < length bm" using assms by simp_all
  have "j mod 8 < 8" "i mod 8 < 8" by simp_all
  moreover have "j = i \<longleftrightarrow> j div 8 = i div 8 \<and> j mod 8 = i mod 8"
    by (metis div_mult_mod_eq)
  ultimately show ?thesis
    using len by (auto simp: isset_def putbit_def nth_list_update bit_simps)
qed

text \<open>The scan stops at the first bit that is clear or past the end.\<close>

definition scan_result :: "bytes \<Rightarrow> (nat \<Rightarrow> bool) \<Rightarrow> nat \<Rightarrow> nat \<Rightarrow> (unit + nat option) option \<Rightarrow> bool" where
  "scan_result bm beyond a b r =
     (case r of
        None \<Rightarrow> False
      | Some (Inl _) \<Rightarrow> \<exists>i. a \<le> i \<and> i < b \<and> beyond i \<and> (\<forall>j. a \<le> j \<and> j < i \<longrightarrow> isset bm j)
      | Some (Inr None) \<Rightarrow> \<forall>j. a \<le> j \<and> j < b \<longrightarrow> isset bm j
      | Some (Inr (Some i)) \<Rightarrow>
          a \<le> i \<and> i < b \<and> \<not> beyond i \<and> \<not> isset bm i \<and> (\<forall>j. a \<le> j \<and> j < i \<longrightarrow> isset bm j))"

lemma scan_cases:
  assumes "scan_result bm beyond a b r"
  obtains (Beyond) i where "r = Some (Inl ())" "a \<le> i" "i < b" "beyond i" "\<And>j. a \<le> j \<Longrightarrow> j < i \<Longrightarrow> isset bm j"
    | (Full) "r = Some (Inr None)" "\<And>j. a \<le> j \<Longrightarrow> j < b \<Longrightarrow> isset bm j"
    | (Found) i where "r = Some (Inr (Some i))" "a \<le> i" "i < b" "\<not> beyond i" "\<not> isset bm i"
        "\<And>j. a \<le> j \<Longrightarrow> j < i \<Longrightarrow> isset bm j"
proof (cases r)
  case None
  then show ?thesis using assms by (simp add: scan_result_def)
next
  case (Some s)
  show ?thesis
  proof (cases s)
    case (Inl u)
    then show ?thesis using assms Some Beyond by (auto simp: scan_result_def)
  next
    case (Inr t)
    then show ?thesis using assms Some Full Found by (cases t) (auto simp: scan_result_def)
  qed
qed

lemma scan_result_Suc:
  assumes "isset bm a" and "scan_result bm beyond (Suc a) b r"
  shows "scan_result bm beyond a b r"
proof -
  have le: "\<And>j. a \<le> j \<longleftrightarrow> j = a \<or> Suc a \<le> j" by auto
  show ?thesis using assms unfolding scan_result_def le by (auto split: option.splits sum.splits)
qed

lemma scan_bitmap_upt:
  assumes "b \<le> 8 * length bm"
  shows "scan_result bm beyond a b (scan_bitmap bm beyond [a..<b])"
proof (induction "b - a" arbitrary: a)
  case 0
  then show ?case by (auto simp: scan_result_def)
next
  case (Suc n)
  then have a: "a < b" by simp
  have IH: "scan_result bm beyond (Suc a) b (scan_bitmap bm beyond [Suc a..<b])"
    by (rule Suc.hyps(1)) (use Suc.hyps(2) in simp)
  have upt: "[a..<b] = a # [Suc a..<b]" using a by (simp add: upt_conv_Cons)
  have bit: "bitmap_bit bm a = Some (isset bm a)" using a assms by (simp add: bitmap_bit_isset)
  show ?case
  proof (cases "beyond a \<or> \<not> isset bm a")
    case True
    with a bit show ?thesis by (auto simp: upt scan_result_def)
  next
    case False
    then show ?thesis using bit scan_result_Suc [OF _ IH] by (simp add: upt)
  qed
qed

section \<open>The marks of all groups\<close>

definition mark_block :: "(BlockGroup \<Rightarrow> u32) \<Rightarrow> nat \<Rightarrow> Ext2Fs \<Rightarrow> nat \<Rightarrow> nat" where
  "mark_block bm per fs n = unat (bm (fs_groups fs ! (n div per)))"

definition marked :: "(BlockGroup \<Rightarrow> u32) \<Rightarrow> nat \<Rightarrow> Ext2Fs \<Rightarrow> store \<Rightarrow> nat \<Rightarrow> bool" where
  "marked bm per fs st n = isset (blkv fs st (mark_block bm per fs n)) (n mod per)"

definition setmark :: "(BlockGroup \<Rightarrow> u32) \<Rightarrow> nat \<Rightarrow> Ext2Fs \<Rightarrow> store \<Rightarrow> nat \<Rightarrow> bool \<Rightarrow> store" where
  "setmark bm per fs st n v =
     bput fs st (mark_block bm per fs n) (putbit (blkv fs st (mark_block bm per fs n)) (n mod per) v)"

text \<open>The bitmaps of kind \<open>bm\<close>, with \<open>per\<close> marks a group, hold \<open>cnt\<close> marks.\<close>

definition bitmaps_ok :: "(BlockGroup \<Rightarrow> u32) \<Rightarrow> nat \<Rightarrow> nat \<Rightarrow> Ext2Fs \<Rightarrow> bool" where
  "bitmaps_ok bm per cnt fs \<longleftrightarrow>
     0 < per \<and> per \<le> 8192 \<and> cnt \<le> length (fs_groups fs) * per \<and> length (fs_groups fs) * per < 2 ^ 32 \<and>
     distinct (map bm (fs_groups fs)) \<and> list_all (\<lambda>g. unat (bm g) < nblocks fs) (fs_groups fs)"

lemma bitmaps_ok_div: "bitmaps_ok bm per cnt fs \<Longrightarrow> n < cnt \<Longrightarrow> n div per < length (fs_groups fs)"
  unfolding bitmaps_ok_def by (meson less_le_trans less_mult_imp_div_less)

lemma mark_block_less: "bitmaps_ok bm per cnt fs \<Longrightarrow> n < cnt \<Longrightarrow> mark_block bm per fs n < nblocks fs"
  using bitmaps_ok_div [of bm per cnt fs n] by (simp add: bitmaps_ok_def mark_block_def list_all_length)

lemma mark_block_in: "bitmaps_ok bm per cnt fs \<Longrightarrow> n < cnt \<Longrightarrow> mark_block bm per fs n \<in> (\<lambda>g. unat (bm g)) ` set (fs_groups fs)"
  using bitmaps_ok_div [of bm per cnt fs n] by (simp add: mark_block_def)

lemma mark_block_eq:
  assumes "bitmaps_ok bm per cnt fs" and "n < cnt" and "m < cnt"
  shows "mark_block bm per fs n = mark_block bm per fs m \<longleftrightarrow> n div per = m div per"
proof -
  have "map bm (fs_groups fs) ! (n div per) = map bm (fs_groups fs) ! (m div per) \<longleftrightarrow> n div per = m div per"
    by (rule nth_eq_iff_index_eq)
       (use bitmaps_ok_div [OF assms(1,2)] bitmaps_ok_div [OF assms(1,3)] assms(1) in \<open>simp_all add: bitmaps_ok_def\<close>)
  then show ?thesis
    using bitmaps_ok_div [OF assms(1,2)] bitmaps_ok_div [OF assms(1,3)] by (simp add: mark_block_def word_unat_eq_iff)
qed

lemma marked_setmark:
  assumes "bitmaps_ok bm per cnt fs" and "n < cnt" and "m < cnt" and "\<And>k. length (blkv fs st k) = 1024"
  shows "marked bm per fs (setmark bm per fs st n v) m = (if m = n then v else marked bm per fs st m)"
proof (cases "n div per = m div per")
  case True
  then have "mark_block bm per fs m = mark_block bm per fs n" by (simp add: mark_block_def)
  moreover have "m = n \<longleftrightarrow> m mod per = n mod per" using True by (metis div_mult_mod_eq)
  moreover have "n mod per < 8 * 1024" "m mod per < 8 * 1024"
    using assms(1) mod_less_divisor [of per n] mod_less_divisor [of per m] unfolding bitmaps_ok_def by linarith+
  ultimately show ?thesis by (simp add: marked_def setmark_def blkv_bput isset_putbit assms(4))
next
  case False
  then have "m \<noteq> n" "mark_block bm per fs m \<noteq> mark_block bm per fs n"
    using mark_block_eq [OF assms(1,3,2)] by auto
  then show ?thesis by (simp add: marked_def setmark_def blkv_bput)
qed

lemma blkv_setmark: "k \<noteq> mark_block bm per fs n \<Longrightarrow> blkv fs (setmark bm per fs st n v) k = blkv fs st k"
  by (simp add: setmark_def blkv_bput)

lemma blkv_len: "(\<And>n. length (st n) = 512) \<Longrightarrow> length (blkv fs st k) = 1024"
  by (simp add: blkv_def)

section \<open>Allocating and freeing\<close>

text \<open>The bits of group \<open>g\<close> from \<open>first g\<close> on, for the numbers below \<open>cnt\<close>.\<close>

definition candidate :: "(nat \<Rightarrow> nat) \<Rightarrow> nat \<Rightarrow> nat \<Rightarrow> bool" where
  "candidate first per n \<longleftrightarrow> first (n div per) \<le> n mod per"

text \<open>Numbers from \<open>lo\<close> on: none is free below \<open>n\<close>.\<close>

definition none_free :: "(BlockGroup \<Rightarrow> u32) \<Rightarrow> (nat \<Rightarrow> nat) \<Rightarrow> nat \<Rightarrow> Ext2Fs \<Rightarrow> store \<Rightarrow> nat \<Rightarrow> nat \<Rightarrow> bool" where
  "none_free bm first per fs st lo n \<longleftrightarrow>
     (\<forall>m. lo \<le> m \<and> m < n \<and> candidate first per m \<longrightarrow> marked bm per fs st m)"

lemma group_bits:
  assumes "0 < (per :: nat)" and "g * per \<le> m" and "m < g * per + per"
  shows "m div per = g" "m mod per = m - g * per"
proof -
  define i where "i = m - g * per"
  have "m = g * per + i" unfolding i_def using assms(2) by (rule le_add_diff_inverse [symmetric])
  moreover have "i < per" using assms(2,3) unfolding i_def by linarith
  ultimately show "m div per = g" "m mod per = m - g * per" by simp_all
qed

lemma none_free_group:
  assumes "0 < per" and "i \<le> per" and "\<And>j. first g \<le> j \<Longrightarrow> j < i \<Longrightarrow> isset (blkv fs st (unat (bm (fs_groups fs ! g)))) j"
  shows "none_free bm first per fs st (g * per) (g * per + i)"
  unfolding none_free_def
proof (intro allI impI)
  fix m
  assume m: "g * per \<le> m \<and> m < g * per + i \<and> candidate first per m"
  then have "m < g * per + per" using assms(2) by linarith
  then have mod: "m div per = g" "m mod per = m - g * per" using group_bits [OF assms(1), of g m] m by simp_all
  have "first g \<le> m - g * per" using m mod by (simp add: candidate_def)
  moreover have "m - g * per < i" using m by linarith
  ultimately show "marked bm per fs st m" using assms(3) by (simp add: marked_def mark_block_def mod)
qed

lemma none_free_trans:
  "none_free bm first per fs st lo mid \<Longrightarrow> none_free bm first per fs st mid n \<Longrightarrow> none_free bm first per fs st lo n"
  unfolding none_free_def by (meson not_le)

definition no_space ::
    "(BlockGroup \<Rightarrow> u32) \<Rightarrow> (nat \<Rightarrow> nat) \<Rightarrow> nat \<Rightarrow> nat \<Rightarrow> Ext2Fs \<Rightarrow> store \<Rightarrow> nat \<Rightarrow> Ext2Error \<Rightarrow> store \<Rightarrow> bool" where
  "no_space bm first per cnt fs st lo e st' \<longleftrightarrow> e = X_NoSpace \<and> st' = st \<and> none_free bm first per fs st lo cnt"

definition takes_first ::
    "(BlockGroup \<Rightarrow> u32) \<Rightarrow> (nat \<Rightarrow> nat) \<Rightarrow> nat \<Rightarrow> nat \<Rightarrow> (nat \<Rightarrow> u32) \<Rightarrow> Ext2Fs \<Rightarrow> store \<Rightarrow> nat \<Rightarrow> u32 \<Rightarrow> store \<Rightarrow> bool" where
  "takes_first bm first per cnt N fs st lo x st' \<longleftrightarrow>
     (\<exists>n < cnt. lo \<le> n \<and> candidate first per n \<and> x = N n \<and> \<not> marked bm per fs st n \<and>
        none_free bm first per fs st lo n \<and> st' = setmark bm per fs st n True)"

lemma no_space_earlier:
  "none_free bm first per fs st lo mid \<Longrightarrow> no_space bm first per cnt fs st mid e st' \<Longrightarrow> no_space bm first per cnt fs st lo e st'"
  using none_free_trans by (auto simp: no_space_def)

lemma takes_first_earlier:
  assumes "none_free bm first per fs st lo mid" and "lo \<le> mid" and "takes_first bm first per cnt N fs st mid x st'"
  shows "takes_first bm first per cnt N fs st lo x st'"
  using assms none_free_trans [OF assms(1)] unfolding takes_first_def by (metis (no_types) le_trans)

context ext2_device
begin

lemma wp_allocate_bit:
  assumes ok: "bitmaps_ok bm per cnt fs" and fs: "geom fs cap"
    and num: "\<And>g i. g < length (fs_groups fs) \<Longrightarrow> i < per \<Longrightarrow> num g i = N (g * per + i)"
    and beyond: "\<And>n. n < length (fs_groups fs) * per \<Longrightarrow> beyond (N n) \<longleftrightarrow> cnt \<le> n"
    and gs: "gs = drop g (fs_groups fs)" "g \<le> length (fs_groups fs)"
  shows "wp (allocate_bit ops fs bm first per num beyond g gs) st
     (upon (no_space bm first per cnt fs st (g * per)) (takes_first bm first per cnt N fs st (g * per)))"
  using gs
proof (induction gs arbitrary: g)
  case Nil
  then have "cnt \<le> g * per" using ok by (simp add: bitmaps_ok_def)
  then show ?case by (auto simp: no_space_def none_free_def intro!: wpx_fail)
next
  case (Cons grp gs)
  let ?Q = "upon (no_space bm first per cnt fs st (g * per)) (takes_first bm first per cnt N fs st (g * per))"
  have len: "g < length (fs_groups fs)" using Cons.prems by (metis drop_eq_Nil list.discI not_le)
  then have g: "grp = fs_groups fs ! g" "gs = drop (g + 1) (fs_groups fs)"
    using Cons.prems(1) Cons_nth_drop_Suc [OF len] by (metis list.inject Suc_eq_plus1)+
  have per: "0 < per" "per \<le> 8192" using ok by (simp_all add: bitmaps_ok_def)
  have blk: "unat (bm grp) < nblocks fs" using ok len g(1) by (simp add: bitmaps_ok_def list_all_length)
  have nums: "g * per + i < length (fs_groups fs) * per" if "i < per" for i
  proof -
    have "g * per + i < (g + 1) * per" using that by simp
    also have "\<dots> \<le> length (fs_groups fs) * per" using len by (intro mult_le_mono) simp_all
    finally show ?thesis .
  qed
  define bits where "bits = blkv fs st (unat (bm grp))"
  have full: "none_free bm first per fs st (g * per) (g * per + i)" if "i \<le> per" "\<And>j. first g \<le> j \<Longrightarrow> j < i \<Longrightarrow> isset bits j" for i
    using none_free_group [of per i first g fs st bm] per(1) that g(1) by (simp add: bits_def)
  have rest: "wp (allocate_bit ops fs bm first per num beyond (g + 1) gs) st ?Q"
    if "none_free bm first per fs st (g * per) ((g + 1) * per)"
    by (rule wpx_upon_conseq [OF Cons.IH [OF g(2)]])
       (use len no_space_earlier [OF that] takes_first_earlier [OF that] in simp_all)
  show ?case
    unfolding allocate_bit.simps
  proof (rule wpx_bind, rule wp_read_block [OF fs blk], simp, fold bits_def)
    assume L: "length bits = 1024"
    have "scan_result bits (\<lambda>i. beyond (num g i)) (first g) per (scan_bitmap bits (\<lambda>i. beyond (num g i)) [first g..<per])"
      by (rule scan_bitmap_upt) (use per(2) L in simp)
    then show "wp (case scan_bitmap bits (\<lambda>i. beyond (num g i)) [first g..<per] of None \<Rightarrow> xpanic | Some (Inl _) \<Rightarrow> xfail X_NoSpace
        | Some (Inr None) \<Rightarrow> allocate_bit ops fs bm first per num beyond (g + 1) gs
        | Some (Inr (Some i)) \<Rightarrow> (case set_bitmap_bit bits i True of None \<Rightarrow> xpanic
            | Some bitmap' \<Rightarrow> xbind (fs_write_block ops fs (unat (bm grp)) bitmap') (\<lambda>_. xok (num g i)))) st ?Q"
    proof (cases rule: scan_cases)
      case (Beyond i)
      have "cnt \<le> g * per + i" using beyond [OF nums [OF Beyond(3)]] Beyond(3,4) num [OF len Beyond(3)] by simp
      then have "no_space bm first per cnt fs st (g * per) X_NoSpace st"
        using full [of i] Beyond(3,5) by (auto simp: no_space_def none_free_def)
      then show ?thesis by (simp add: Beyond(1) wpx_fail)
    next
      case Full
      have "none_free bm first per fs st (g * per) ((g + 1) * per)"
        using full [OF order_refl Full(2)] by (simp add: add.commute)
      then show ?thesis using rest by (simp add: Full(1))
    next
      case (Found i)
      have i: "i < 8 * length bits" using Found(3) per(2) L by simp
      have div: "(g * per + i) div per = g" "(g * per + i) mod per = i" using Found(3) by simp_all
      have set: "setmark bm per fs st (g * per + i) True = bput fs st (unat (bm grp)) (putbit bits i True)"
        unfolding setmark_def mark_block_def div g(1) bits_def ..
      have n: "g * per + i < cnt" "candidate first per (g * per + i)" "\<not> marked bm per fs st (g * per + i)"
          "none_free bm first per fs st (g * per) (g * per + i)"
        using Found full [of i] beyond [OF nums [OF Found(3)]] num [OF len Found(3)]
        unfolding candidate_def marked_def mark_block_def div g(1) bits_def by simp_all
      then have "takes_first bm first per cnt N fs st (g * per) (num g i) (bput fs st (unat (bm grp)) (putbit bits i True))"
        unfolding takes_first_def set [symmetric] num [OF len Found(3)] using le_add1 by blast
      then show ?thesis
        by (simp add: Found(1) set_bitmap_bit_putbit [OF i])
           (rule wpx_bind, rule wp_write_block [OF fs blk], simp add: L, rule wpx_ok)
    qed
  qed
qed

lemma wp_free_bit:
  assumes "bitmaps_ok bm (unat per) cnt fs" and "geom fs cap" and "unat index < cnt"
    and "P () (setmark bm (unat per) fs st (unat index) False)"
  shows "wp (free_bit ops fs bm per index) st (upon E P)"
proof -
  let ?n = "unat index" and ?p = "unat per"
  have g: "nth_opt (fs_groups fs) (unat (index div per)) = Some (fs_groups fs ! (?n div ?p))"
    using bitmaps_ok_div [OF assms(1,3)] by (simp add: nth_opt_def unat_div)
  have "?n mod ?p < 8192" using assms(1) mod_less_divisor [of ?p ?n] unfolding bitmaps_ok_def by linarith
  then have i: "?n mod ?p < 8 * length (blkv fs st (mark_block bm ?p fs ?n))"
    if "length (blkv fs st (mark_block bm ?p fs ?n)) = 1024" using that by simp
  show ?thesis
    unfolding free_bit_def g option.case
    by (rule wpx_bind, fold mark_block_def, rule wp_read_block [OF assms(2) mark_block_less [OF assms(1,3)]], simp)
       (simp add: unat_mod set_bitmap_bit_putbit [OF i],
        rule wp_write_block [OF assms(2) mark_block_less [OF assms(1,3)]],
        simp, use assms(4) in \<open>simp add: setmark_def\<close>)
qed

end

section \<open>Blocks\<close>

abbreviation bpg :: "Ext2Fs \<Rightarrow> nat" where "bpg fs \<equiv> unat (fs_blocks_per_group fs)"

definition busy :: "Ext2Fs \<Rightarrow> store \<Rightarrow> nat \<Rightarrow> bool" where
  "busy fs st n = marked g_block_bitmap (bpg fs) fs st n"

definition set_busy :: "Ext2Fs \<Rightarrow> store \<Rightarrow> nat \<Rightarrow> bool \<Rightarrow> store" where
  "set_busy fs st n v = setmark g_block_bitmap (bpg fs) fs st n v"

definition bitmap_blocks :: "Ext2Fs \<Rightarrow> nat set" where
  "bitmap_blocks fs = (\<lambda>g. unat (g_block_bitmap g)) ` set (fs_groups fs)"

definition blocks_ok :: "Ext2Fs \<Rightarrow> nat \<Rightarrow> bool" where
  "blocks_ok fs cap \<longleftrightarrow> geom fs cap \<and> bitmaps_ok g_block_bitmap (bpg fs) (nblocks fs) fs"

lemma busy_set_busy:
  assumes "blocks_ok fs cap" and "n < nblocks fs" and "m < nblocks fs" and "\<And>k. length (st k) = 512"
  shows "busy fs (set_busy fs st n v) m = (if m = n then v else busy fs st m)"
  unfolding busy_def set_busy_def
  by (rule marked_setmark [of _ _ "nblocks fs"]) (use assms in \<open>simp_all add: blocks_ok_def blkv_len\<close>)

lemma blkv_set_busy:
  assumes "blocks_ok fs cap" and "n < nblocks fs" and "m \<notin> bitmap_blocks fs"
  shows "blkv fs (set_busy fs st n v) m = blkv fs st m"
  unfolding set_busy_def
  by (rule blkv_setmark) (use mark_block_in [of g_block_bitmap "bpg fs" "nblocks fs" fs n] assms in \<open>auto simp: blocks_ok_def bitmap_blocks_def\<close>)

lemma busy_bput: "n \<notin> bitmap_blocks fs \<Longrightarrow> blocks_ok fs cap \<Longrightarrow> m < nblocks fs \<Longrightarrow> busy fs (bput fs st n data) m = busy fs st m"
  using mark_block_in [of g_block_bitmap "bpg fs" "nblocks fs" fs m]
  by (auto simp: busy_def marked_def blkv_bput bitmap_blocks_def blocks_ok_def)

definition disk_full :: "Ext2Fs \<Rightarrow> store \<Rightarrow> bool" where
  "disk_full fs st \<longleftrightarrow> (\<forall>n < nblocks fs. busy fs st n)"

context ext2_device
begin

lemma wp_allocate_block:
  assumes "blocks_ok fs cap"
  shows "wp (allocate_block ops fs) st (upon
     (\<lambda>e st'. e = X_NoSpace \<and> st' = st \<and> disk_full fs st)
     (\<lambda>b st'. unat b < nblocks fs \<and> \<not> busy fs st (unat b) \<and> (\<forall>n < unat b. busy fs st n) \<and>
        st' = set_busy fs st (unat b) True))"
proof -
  have ok: "bitmaps_ok g_block_bitmap (bpg fs) (nblocks fs) fs" "geom fs cap" using assms by (simp_all add: blocks_ok_def)
  then have lim: "length (fs_groups fs) * bpg fs < 2 ^ 32" by (simp add: bitmaps_ok_def)
  have wp: "wp (allocate_block ops fs) st (upon (no_space g_block_bitmap (\<lambda>_. 0) (bpg fs) (nblocks fs) fs st (0 * bpg fs))
     (takes_first g_block_bitmap (\<lambda>_. 0) (bpg fs) (nblocks fs) of_nat fs st (0 * bpg fs)))"
    unfolding allocate_block_def
  proof (rule wp_allocate_bit [OF ok])
    show "block_number fs g i = of_nat (g * bpg fs + i)" for g i by (simp add: block_number_def)
    show "of_nat n \<ge> fs_blocks_count fs \<longleftrightarrow> nblocks fs \<le> n" if "n < length (fs_groups fs) * bpg fs" for n
      using that lim by (simp add: word_le_nat_alt unat_of_nat)
  qed simp_all
  show ?thesis
  proof (rule wpx_upon_conseq [OF wp])
    fix b st'
    assume "takes_first g_block_bitmap (\<lambda>_. 0) (bpg fs) (nblocks fs) of_nat fs st (0 * bpg fs) b st'"
    then obtain n where n: "n < nblocks fs" "b = of_nat n" "\<not> busy fs st n" "\<forall>m < n. busy fs st m" "st' = set_busy fs st n True"
      by (auto simp: takes_first_def none_free_def candidate_def busy_def set_busy_def)
    then have "unat b = n" using unat_u32_less [of "fs_blocks_count fs"] by (simp add: unat_of_nat)
    with n show "unat b < nblocks fs \<and> \<not> busy fs st (unat b) \<and> (\<forall>n < unat b. busy fs st n) \<and> st' = set_busy fs st (unat b) True"
      by simp
  qed (auto simp: no_space_def none_free_def candidate_def disk_full_def busy_def)
qed

lemma wp_free_block:
  assumes "blocks_ok fs cap" and "unat b < nblocks fs" and "P () (set_busy fs st (unat b) False)"
  shows "wp (free_block ops fs b) st (upon E P)"
  unfolding free_block_def
  using assms by (auto simp: blocks_ok_def set_busy_def word_le_nat_alt intro!: wp_free_bit)

end

end
