(* ===== verification/Ext2_File.thy ===== *)
theory Ext2_File
  imports Ext2_Base
begin

text \<open>
  Inodes and file data of \<open>kernel/src/fs/ext2.rs\<close>: reading and writing an inode in the
  inode table, and the tree of direct, indirect, double and triple indirect blocks.

  The code writes the three depths of the tree out one after the other; the model has
  one function per traversal with the depth as its argument.  At depth \<open>k\<close> a pointer
  block is handled before its children or after them exactly as the code does it at
  that depth.
\<close>

section \<open>Inodes\<close>

definition inode_location :: "Ext2Fs \<Rightarrow> u32 \<Rightarrow> (Ext2Error, nat \<times> usize) result" where
  "inode_location fs ino =
     (if ino = 0 \<or> ino > fs_inodes_count fs then Err X_NotFound
      else
        let index = ino - 1 in
        case nth_opt (fs_groups fs) (unat (index div fs_inodes_per_group fs)) of
          None \<Rightarrow> Err X_NotFound
        | Some grp \<Rightarrow>
            let byte_offset = unat (index mod fs_inodes_per_group fs) * fs_inode_size fs
            in Ok (unat (g_inode_table grp) + byte_offset div fs_block_size fs, byte_offset mod fs_block_size fs))"

definition parse_inode :: "bytes \<Rightarrow> Inode" where
  "parse_inode raw =
     (let size_low = ucast (le_u32 raw 4) :: u64;
          size_high = (if le_u16 raw 0 AND EXT2_S_IFMT = EXT2_S_IFREG then ucast (le_u32 raw 108) else 0) :: u64
      in \<lparr>i_mode = le_u16 raw 0,
          i_uid = ucast (le_u16 raw 2) OR push_bit 16 (ucast (le_u16 raw 120)),
          i_gid = ucast (le_u16 raw 24) OR push_bit 16 (ucast (le_u16 raw 122)),
          i_size = size_low OR push_bit 32 size_high,
          i_atime = le_u32 raw 8, i_ctime = le_u32 raw 12, i_mtime = le_u32 raw 16,
          i_links = le_u16 raw 26,
          i_blocks = map (\<lambda>i. le_u32 raw (40 + i * 4)) [0..<EXT2_N_BLOCKS]\<rparr>)"

definition read_inode :: "'d DevOps \<Rightarrow> Ext2Fs \<Rightarrow> u32 \<Rightarrow> ('d, Inode) xio" where
  "read_inode ops fs ino =
     xbind (xlift (inode_location fs ino)) (\<lambda>(block, off).
     xbind (fs_read_block ops fs block (fs_block_size fs)) (\<lambda>data.
       if off + 128 > length data then xfail X_IoError
       else xok (parse_inode (take 128 (drop off data)))))"

text \<open>The pointers of an indirect block, without and with the zero ones.\<close>

definition block_pointers :: "bytes \<Rightarrow> usize \<Rightarrow> u32 list" where
  "block_pointers data block_size = map (\<lambda>i. le_u32 data (i * 4)) [0..<(block_size + 3) div 4]"

definition read_indirect_blocks :: "'d DevOps \<Rightarrow> Ext2Fs \<Rightarrow> u32 \<Rightarrow> ('d, u32 list) xio" where
  "read_indirect_blocks ops fs block =
     xbind (fs_read_block ops fs (unat block) (fs_block_size fs)) (\<lambda>data.
     xok (filter (\<lambda>b. b \<noteq> 0) (block_pointers data (fs_block_size fs))))"

definition read_indirect_entries :: "'d DevOps \<Rightarrow> Ext2Fs \<Rightarrow> u32 \<Rightarrow> ('d, u32 list) xio" where
  "read_indirect_entries ops fs block =
     xbind (fs_read_block ops fs (unat block) (fs_block_size fs)) (\<lambda>data d.
       case dev_reserve ops (fs_block_size fs div 4) d of
         (False, d') \<Rightarrow> Some (Err X_OutOfMemory, d')
       | (True, d') \<Rightarrow> Some (Ok (block_pointers data (fs_block_size fs)), d'))"

text \<open>The blocks below a pointer block of depth \<open>k\<close>, those that cannot be read left out.\<close>

primrec count_tree :: "nat \<Rightarrow> 'd DevOps \<Rightarrow> Ext2Fs \<Rightarrow> u32 \<Rightarrow> ('d, nat) xio" where
  "count_tree 0 ops fs block = xok 0"
| "count_tree (Suc k) ops fs block =
     xbind (xtry (read_indirect_blocks ops fs block)) (\<lambda>r.
       case r of
         Inl _ \<Rightarrow> xok 0
       | Inr children \<Rightarrow>
           xfold (\<lambda>child n. xbind (count_tree k ops fs child) (\<lambda>m. xok (n + 1 + m))) children 0)"

definition inode_sector_count :: "'d DevOps \<Rightarrow> Ext2Fs \<Rightarrow> Inode \<Rightarrow> ('d, u32) xio" where
  "inode_sector_count ops fs inode =
     (let direct = length (filter (\<lambda>b. b \<noteq> 0) (take EXT2_DIRECT_BLOCKS (i_blocks inode))) in
      xbind (xfold (\<lambda>k n. let block = i_blocks inode ! (11 + k) in
                          if block = 0 then xok n else xbind (count_tree k ops fs block) (\<lambda>m. xok (n + 1 + m)))
               [1, 2, 3] direct) (\<lambda>blocks.
      xok (of_nat (blocks * (fs_block_size fs div 512)))))"

definition encode_inode :: "u32 \<Rightarrow> Inode \<Rightarrow> bytes" where
  "encode_inode sectors inode =
     (let r0 = put_u16 (replicate 128 0) 0 (i_mode inode);
          r1 = put_u16 r0 2 (ucast (i_uid inode));
          r2 = put_u32 r1 4 (ucast (i_size inode));
          r3 = put_u32 r2 8 (i_atime inode);
          r4 = put_u32 r3 12 (i_ctime inode);
          r5 = put_u32 r4 16 (i_mtime inode);
          r6 = put_u16 r5 24 (ucast (i_gid inode));
          r7 = put_u16 r6 26 (i_links inode);
          r8 = put_u32 r7 28 sectors;
          r9 = fold (\<lambda>i raw. put_u32 raw (40 + i * 4) (i_blocks inode ! i)) [0..<EXT2_N_BLOCKS] r8;
          r10 = put_u32 r9 108 (ucast (drop_bit 32 (i_size inode)));
          r11 = put_u16 r10 120 (ucast (drop_bit 16 (i_uid inode)))
      in put_u16 r11 122 (ucast (drop_bit 16 (i_gid inode))))"

definition write_inode :: "'d DevOps \<Rightarrow> Ext2Fs \<Rightarrow> u32 \<Rightarrow> Inode \<Rightarrow> ('d, unit) xio" where
  "write_inode ops fs ino inode =
     xbind (xlift (inode_location fs ino)) (\<lambda>(block, off).
     xbind (fs_read_block ops fs block 1024) (\<lambda>data.
       if off + 128 > length data then xpanic
       else xbind (inode_sector_count ops fs inode) (\<lambda>sectors.
            fs_write_block ops fs block (copy_into data off (encode_inode sectors inode)))))"

section \<open>Freeing and reading file data\<close>

primrec free_tree :: "nat \<Rightarrow> 'd DevOps \<Rightarrow> Ext2Fs \<Rightarrow> u32 \<Rightarrow> ('d, unit) xio" where
  "free_tree 0 ops fs block = free_block ops fs block"
| "free_tree (Suc k) ops fs block =
     xbind (read_indirect_blocks ops fs block) (\<lambda>children.
     xbind (xfold (\<lambda>child _. free_tree k ops fs child) children ()) (\<lambda>_.
     free_block ops fs block))"

definition free_inode_blocks :: "'d DevOps \<Rightarrow> Ext2Fs \<Rightarrow> Inode \<Rightarrow> ('d, unit) xio" where
  "free_inode_blocks ops fs inode =
     xbind (xfold (\<lambda>block _. free_block ops fs block)
              (filter (\<lambda>b. b \<noteq> 0) (take EXT2_DIRECT_BLOCKS (i_blocks inode))) ()) (\<lambda>_.
     xfold (\<lambda>k _. let block = i_blocks inode ! (11 + k) in if block = 0 then xok () else free_tree k ops fs block)
       [1, 2, 3] ())"

text \<open>\<open>out\<close> is the part of the output already written, \<open>len\<close> the length of the whole.\<close>

definition read_data_block :: "'d DevOps \<Rightarrow> Ext2Fs \<Rightarrow> usize \<Rightarrow> u32 \<Rightarrow> bytes \<Rightarrow> ('d, bytes) xio" where
  "read_data_block ops fs len block out =
     (if length out \<ge> len then xok out
      else
        let n = min (len - length out) (fs_block_size fs) in
        if n = fs_block_size fs
        then xbind (fs_read_block ops fs (unat block) n) (\<lambda>data. xok (out @ data))
        else (\<lambda>d. case dev_reserve ops (fs_block_size fs) d of
                    (False, d') \<Rightarrow> Some (Err X_OutOfMemory, d')
                  | (True, d') \<Rightarrow>
                      xbind (fs_read_block ops fs (unat block) (fs_block_size fs)) (\<lambda>data. xok (out @ take n data)) d'))"

primrec read_tree :: "nat \<Rightarrow> 'd DevOps \<Rightarrow> Ext2Fs \<Rightarrow> usize \<Rightarrow> u32 \<Rightarrow> bytes \<Rightarrow> ('d, bytes) xio" where
  "read_tree 0 ops fs len block out =
     (if length out = len then xok out else read_data_block ops fs len block out)"
| "read_tree (Suc k) ops fs len block out =
     (if length out = len then xok out
      else xbind (read_indirect_blocks ops fs block) (\<lambda>children. xfold (read_tree k ops fs len) children out))"

definition read_inode_data :: "'d DevOps \<Rightarrow> Ext2Fs \<Rightarrow> Inode \<Rightarrow> ('d, bytes) xio" where
  "read_inode_data ops fs inode =
     (let len = unat (i_size inode) in
      (\<lambda>d. case dev_reserve ops len d of
             (False, d') \<Rightarrow> Some (Err X_OutOfMemory, d')
           | (True, d') \<Rightarrow>
               (if len = 0 then xok []
                else
                  xbind (xfold (read_tree 0 ops fs len)
                           (filter (\<lambda>b. b \<noteq> 0) (take EXT2_DIRECT_BLOCKS (i_blocks inode))) []) (\<lambda>direct.
                  xbind (xfold (\<lambda>k out. let block = i_blocks inode ! (11 + k) in
                                  if length out < len \<and> block \<noteq> 0 then read_tree k ops fs len block out else xok out)
                           [1, 2, 3] direct) (\<lambda>out.
                  if length out = len then xok out else xfail X_Unsupported))) d'))"

section \<open>Reading a range\<close>

definition copy_data_block_range ::
    "'d DevOps \<Rightarrow> Ext2Fs \<Rightarrow> u32 \<Rightarrow> usize \<Rightarrow> usize \<Rightarrow> usize \<Rightarrow> usize \<times> bytes \<Rightarrow> ('d, usize \<times> bytes) xio" where
  "copy_data_block_range ops fs block block_start read_offset target_len = (\<lambda>(copied, output).
     (case (checked_add read_offset target_len, checked_add block_start (fs_block_size fs)) of
        (Some target_end, Some block_end) \<Rightarrow>
          if block_end \<le> read_offset \<or> block_start \<ge> target_end then xok (copied, output)
          else
            let source_start = (if read_offset > block_start then read_offset - block_start else 0);
                source_end = (if target_end < block_end then target_end - block_start else fs_block_size fs)
            in if source_end \<le> source_start then xok (copied, output)
               else
                 let n = source_end - source_start in
                 (case Option.bind (checked_add block_start source_start) (\<lambda>absolute. checked_sub absolute read_offset) of
                    None \<Rightarrow> xfail X_Unsupported
                  | Some output_offset \<Rightarrow>
                      if output_offset + n > length output then xpanic
                      else
                        xbind (if block = 0 then xok (replicate n 0)
                               else if source_start = 0 \<and> n = fs_block_size fs then fs_read_block ops fs (unat block) n
                               else (\<lambda>d. case dev_reserve ops (fs_block_size fs) d of
                                           (False, d') \<Rightarrow> Some (Err X_OutOfMemory, d')
                                         | (True, d') \<Rightarrow>
                                             xbind (fs_read_block ops fs (unat block) (fs_block_size fs)) (\<lambda>data.
                                             xok (take n (drop source_start data))) d')) (\<lambda>bs.
                        (case checked_add copied n of
                           None \<Rightarrow> xfail X_Unsupported
                         | Some copied' \<Rightarrow> xok (copied', copy_into output output_offset bs))))
      | _ \<Rightarrow> xfail X_Unsupported))"

fun span_loop :: "nat \<Rightarrow> usize \<Rightarrow> usize \<Rightarrow> usize option" where
  "span_loop 0 entries span = Some span"
| "span_loop (Suc k) entries span =
     (if span * entries \<le> USIZE_MAX then span_loop k entries (span * entries) else None)"

definition indirect_span_bytes :: "Ext2Fs \<Rightarrow> nat \<Rightarrow> usize option" where
  "indirect_span_bytes fs level = span_loop level (fs_block_size fs div 4) (fs_block_size fs)"

definition skip_span :: "usize option \<Rightarrow> usize \<times> usize \<times> bytes \<Rightarrow> ('d, usize \<times> usize \<times> bytes) xio" where
  "skip_span span = (\<lambda>(logical, copied, output).
     case Option.bind span (checked_add logical) of
       None \<Rightarrow> xfail X_Unsupported | Some logical' \<Rightarrow> xok (logical', copied, output))"

primrec copy_indirect_range ::
    "nat \<Rightarrow> 'd DevOps \<Rightarrow> Ext2Fs \<Rightarrow> usize \<Rightarrow> usize \<Rightarrow> u32 \<Rightarrow> usize \<times> usize \<times> bytes \<Rightarrow> ('d, usize \<times> usize \<times> bytes) xio" where
  "copy_indirect_range 0 ops fs read_offset target_len block s = xfail X_Unsupported"
| "copy_indirect_range (Suc k) ops fs read_offset target_len block s =
     (case checked_add read_offset target_len of
        None \<Rightarrow> xfail X_Unsupported
      | Some target_end \<Rightarrow>
          if fst s \<ge> target_end \<or> fst (snd s) = target_len then xok s
          else if block = 0 then skip_span (indirect_span_bytes fs (Suc k)) s
          else
            xbind (read_indirect_entries ops fs block) (\<lambda>entries.
            xfold (\<lambda>entry s.
                if fst s \<ge> target_end \<or> fst (snd s) = target_len then xok s
                else if k = 0 then
                  xbind (copy_data_block_range ops fs entry (fst s) read_offset target_len (snd s)) (\<lambda>t.
                  skip_span (Some (fs_block_size fs)) (fst s, t))
                else if entry = 0 then skip_span (indirect_span_bytes fs k) s
                else copy_indirect_range k ops fs read_offset target_len entry s) entries s))"

text \<open>The loop over the three indirect pointers; a range that is done ends it early.\<close>

primrec range_levels ::
    "nat list \<Rightarrow> 'd DevOps \<Rightarrow> Ext2Fs \<Rightarrow> Inode \<Rightarrow> usize \<Rightarrow> usize \<Rightarrow> usize \<times> usize \<times> bytes \<Rightarrow> ('d, usize \<times> bytes) xio" where
  "range_levels [] ops fs inode off target_len s =
     (if fst (snd s) = target_len then xok (snd s) else xfail X_Unsupported)"
| "range_levels (level # levels) ops fs inode off target_len s =
     (if fst s \<ge> off + target_len \<or> fst (snd s) = target_len then xok (snd s)
      else xbind (copy_indirect_range level ops fs off target_len (i_blocks inode ! (11 + level)) s)
             (range_levels levels ops fs inode off target_len))"

definition read_inode_range :: "'d DevOps \<Rightarrow> Ext2Fs \<Rightarrow> Inode \<Rightarrow> usize \<Rightarrow> bytes \<Rightarrow> ('d, usize \<times> bytes) xio" where
  "read_inode_range ops fs inode off output =
     (let len = unat (i_size inode) in
      if output = [] \<or> off \<ge> len then xok (0, output)
      else
        let target_len = min (length output) (len - off) in
        (case checked_add off target_len of
           None \<Rightarrow> xfail X_Unsupported
         | Some target_end \<Rightarrow>
             xbind (xfold (\<lambda>block s.
                 if fst s \<ge> target_end \<or> fst (snd s) = target_len then xok s
                 else xbind (copy_data_block_range ops fs block (fst s) off target_len (snd s)) (\<lambda>t.
                      skip_span (Some (fs_block_size fs)) (fst s, t)))
                 (take EXT2_DIRECT_BLOCKS (i_blocks inode)) (0, 0, output)) (\<lambda>s1.
             range_levels [1, 2, 3] ops fs inode off target_len s1)))"

section \<open>Writing file data\<close>

definition write_data_block :: "'d DevOps \<Rightarrow> Ext2Fs \<Rightarrow> u32 \<Rightarrow> bytes \<Rightarrow> ('d, unit) xio" where
  "write_data_block ops fs block data =
     (let n = min (length data) (fs_block_size fs) in
      if n > 1024 then xpanic
      else fs_write_block ops fs (unat block) (copy_into (replicate 1024 0) 0 (take n data)))"

function chunks :: "nat \<Rightarrow> 'a list \<Rightarrow> 'a list list" where
  "chunks n xs = (if xs = [] \<or> n = 0 then [] else take n xs # chunks n (drop n xs))"
  by pat_completeness auto
termination
  by (relation "measure (\<lambda>(_, xs). length xs)") auto

declare chunks.simps [simp del]

text \<open>Allocate and fill the data blocks, one for each piece of the contents.\<close>

definition write_data_blocks :: "'d DevOps \<Rightarrow> Ext2Fs \<Rightarrow> bytes \<Rightarrow> ('d, u32 list) xio" where
  "write_data_blocks ops fs data =
     xmap (\<lambda>piece. xbind (allocate_block ops fs) (\<lambda>block.
                   xbind (write_data_block ops fs block piece) (\<lambda>_. xok block)))
       (chunks (fs_block_size fs) data)"

definition pointer_block :: "usize \<Rightarrow> u32 list \<Rightarrow> bytes" where
  "pointer_block block_size ptrs =
     fold (\<lambda>i data. put_u32 data (i * 4) (ptrs ! i)) [0..<length ptrs] (replicate block_size 0)"

text \<open>
  Allocate a pointer block of depth \<open>k\<close>, then the pointer blocks below it, and write it
  last.  At depth one the pointers are the data blocks themselves.
\<close>

primrec write_tree :: "nat \<Rightarrow> 'd DevOps \<Rightarrow> Ext2Fs \<Rightarrow> u32 list \<Rightarrow> ('d, u32) xio" where
  "write_tree 0 ops fs blocks = xok (hd blocks)"
| "write_tree (Suc k) ops fs blocks =
     xbind (allocate_block ops fs) (\<lambda>block.
     xbind (xmap (write_tree k ops fs) (chunks ((fs_block_size fs div 4) ^ k) blocks)) (\<lambda>ptrs.
     xbind (fs_write_block ops fs (unat block) (pointer_block (fs_block_size fs) ptrs)) (\<lambda>_.
     xok block)))"

text \<open>The pointer at index \<open>11 + k\<close> of the inode covers the data blocks from \<open>first\<close> on, at most \<open>span\<close> of them.\<close>

definition write_level ::
    "'d DevOps \<Rightarrow> Ext2Fs \<Rightarrow> nat \<Rightarrow> u32 list \<Rightarrow> u32 list \<Rightarrow> ('d, u32 list) xio" where
  "write_level ops fs k data_blocks blocks =
     (if data_blocks = [] then xok blocks
      else xbind (write_tree k ops fs data_blocks) (\<lambda>b. xok (blocks[11 + k := b])))"

definition write_inode_data :: "'d DevOps \<Rightarrow> Ext2Fs \<Rightarrow> Inode \<Rightarrow> bytes \<Rightarrow> ('d, Inode) xio" where
  "write_inode_data ops fs inode data =
     xbind (free_inode_blocks ops fs inode) (\<lambda>_.
       let blocks_needed = (length data + fs_block_size fs - 1) div fs_block_size fs;
           ppb = fs_block_size fs div 4
       in if blocks_needed > EXT2_DIRECT_BLOCKS + ppb + ppb * ppb + ppb * ppb * ppb then xfail X_Unsupported
          else
            xbind (write_data_blocks ops fs data) (\<lambda>data_blocks.
              let direct = take EXT2_DIRECT_BLOCKS data_blocks; rest = drop EXT2_DIRECT_BLOCKS data_blocks;
                  blocks0 = direct @ replicate (EXT2_N_BLOCKS - length direct) 0
              in
                xbind (write_level ops fs 1 (take ppb rest) blocks0) (\<lambda>blocks1.
                xbind (write_level ops fs 2 (take (ppb * ppb) (drop ppb rest)) blocks1) (\<lambda>blocks2.
                xbind (write_level ops fs 3 (drop (ppb + ppb * ppb) rest) blocks2) (\<lambda>blocks3.
                xbind (current_ext2_time ops) (\<lambda>now.
                xok (inode\<lparr>i_blocks := blocks3, i_size := of_nat (length data), i_mtime := now, i_ctime := now\<rparr>)))))))"

end
