(* ===== verification/Ext2_Tree.thy ===== *)
theory Ext2_Tree
  imports Ext2_Bitmap Ext2_File
begin

text \<open>
  The tree of blocks of a file: its leaves in order, what reading, freeing and writing a
  tree do, and the round trip of \<open>write_inode_data\<close> and \<open>read_inode_data\<close> of
  \<open>kernel/src/fs/ext2.rs\<close>.
\<close>

section \<open>Trees of blocks\<close>

definition ptrs :: "Ext2Fs \<Rightarrow> store \<Rightarrow> u32 \<Rightarrow> u32 list" where
  "ptrs fs st b = filter (\<lambda>p. p \<noteq> 0) (block_pointers (blkv fs st (unat b)) 1024)"

primrec leaves :: "nat \<Rightarrow> Ext2Fs \<Rightarrow> store \<Rightarrow> u32 \<Rightarrow> u32 list" where
  "leaves 0 fs st b = [b]"
| "leaves (Suc k) fs st b = concat (map (leaves k fs st) (ptrs fs st b))"

primrec tree_nodes :: "nat \<Rightarrow> Ext2Fs \<Rightarrow> store \<Rightarrow> u32 \<Rightarrow> u32 list" where
  "tree_nodes 0 fs st b = [b]"
| "tree_nodes (Suc k) fs st b = b # concat (map (tree_nodes k fs st) (ptrs fs st b))"

definition contents :: "Ext2Fs \<Rightarrow> store \<Rightarrow> u32 list \<Rightarrow> bytes" where
  "contents fs st bs = concat (map (\<lambda>b. blkv fs st (unat b)) bs)"

lemma contents_simps [simp]:
  "contents fs st [] = []"
  "contents fs st (b # bs) = blkv fs st (unat b) @ contents fs st bs"
  "contents fs st (bs @ cs) = contents fs st bs @ contents fs st cs"
  by (simp_all add: contents_def)

lemma root_in_nodes: "b \<in> set (tree_nodes k fs st b)"
  by (cases k) simp_all

lemma child_nodes: "p \<in> set (ptrs fs st b) \<Longrightarrow> n \<in> set (tree_nodes k fs st p) \<Longrightarrow> n \<in> set (tree_nodes (Suc k) fs st b)"
  by auto

lemma ptrs_cong: "blkv fs st' (unat b) = blkv fs st (unat b) \<Longrightarrow> ptrs fs st' b = ptrs fs st b"
  by (simp add: ptrs_def)

lemma tree_cong:
  assumes "\<And>n. n \<in> set (tree_nodes k fs st b) \<Longrightarrow> blkv fs st' (unat n) = blkv fs st (unat n)"
  shows "tree_nodes k fs st' b = tree_nodes k fs st b \<and> leaves k fs st' b = leaves k fs st b"
  using assms
proof (induction k arbitrary: b)
  case (Suc k)
  have p: "ptrs fs st' b = ptrs fs st b" by (rule ptrs_cong) (rule Suc.prems, simp)
  have "tree_nodes k fs st' p = tree_nodes k fs st p \<and> leaves k fs st' p = leaves k fs st p" if "p \<in> set (ptrs fs st b)" for p
    by (rule Suc.IH) (rule Suc.prems, rule child_nodes [OF that])
  then show ?case by (simp add: p cong: map_cong)
qed simp

text \<open>The nodes of a tree lie on the disk, apart from the bitmaps and block zero.\<close>

definition plain :: "Ext2Fs \<Rightarrow> u32 \<Rightarrow> bool" where
  "plain fs b \<longleftrightarrow> b \<noteq> 0 \<and> unat b < nblocks fs \<and> unat b \<notin> bitmap_blocks fs"

text \<open>Freeing a set of blocks clears their marks and changes no other block than the bitmaps.\<close>

definition freed :: "Ext2Fs \<Rightarrow> store \<Rightarrow> u32 set \<Rightarrow> store \<Rightarrow> bool" where
  "freed fs st S st' \<longleftrightarrow>
     (\<forall>m < nblocks fs. busy fs st' m \<longleftrightarrow> busy fs st m \<and> m \<notin> unat ` S) \<and>
     (\<forall>m. m \<notin> bitmap_blocks fs \<longrightarrow> blkv fs st' m = blkv fs st m)"

lemma freed_refl: "freed fs st {} st"
  by (simp add: freed_def)

lemma freed_trans: "freed fs st S st' \<Longrightarrow> freed fs st' T st'' \<Longrightarrow> freed fs st (S \<union> T) st''"
  by (auto simp: freed_def image_Un)

lemma freed_tree:
  assumes "freed fs st S st'" and "list_all (plain fs) (tree_nodes k fs st b)"
  shows "tree_nodes k fs st' b = tree_nodes k fs st b \<and> leaves k fs st' b = leaves k fs st b"
  by (rule tree_cong) (use assms in \<open>auto simp: freed_def plain_def list_all_iff\<close>)

context ext2_device
begin

lemma wp_read_indirect_blocks:
  assumes "geom fs cap" and "unat b < nblocks fs" and "P (ptrs fs st b) st"
  shows "wp (read_indirect_blocks ops fs b) st (upon E P)"
  unfolding read_indirect_blocks_def
  by (rule wpx_bind, rule wp_read_block [OF assms(1,2)])
     (use assms(1,3) in \<open>auto simp: geom_def ptrs_def intro!: wpx_ok\<close>)

section \<open>Reading a tree\<close>

lemma wp_read_data_block:
  assumes "geom fs cap" and "unat b < nblocks fs" and "length out \<le> len"
    and "P (take len (out @ blkv fs st (unat b))) st"
  shows "wp (read_data_block ops fs len b out) st (upon E P)"
proof (cases "length out = len")
  case True
  then show ?thesis using assms(4) by (simp add: read_data_block_def wpx_ok)
next
  case False
  define n where "n = min (len - length out) 1024"
  have n: "\<not> len \<le> length out" "fs_block_size fs = 1024" using False assms(1,3) by (simp_all add: geom_def)
  have wp: "wp (xbind (fs_read_block ops fs (unat b) m) (\<lambda>data. xok (out @ take n data))) st (upon E P)" if "1024 \<le> m" for m
  proof (rule wpx_bind, rule wp_read_block [OF assms(1,2) that], rule wpx_ok)
    assume L: "length (blkv fs st (unat b)) = 1024"
    have "take len (out @ blkv fs st (unat b)) = out @ take n (blkv fs st (unat b))"
      using assms(3) L by (simp add: n_def min_def)
    with assms(4) show "P (out @ take n (blkv fs st (unat b))) st" by simp
  qed
  show ?thesis
  proof (cases "n = 1024")
    case True
    have "wp (xbind (fs_read_block ops fs (unat b) n) (\<lambda>data. xok (out @ data))) st (upon E P)"
    proof (rule wpx_bind, rule wp_read_block [OF assms(1,2)], simp add: True, rule wpx_ok)
      assume L: "length (blkv fs st (unat b)) = 1024"
      have "take len (out @ blkv fs st (unat b)) = out @ blkv fs st (unat b)"
        using True L unfolding n_def by simp
      with assms(4) show "P (out @ blkv fs st (unat b)) st" by simp
    qed
    with True n show ?thesis by (simp add: read_data_block_def Let_def n_def)
  next
    case False
    show ?thesis
      unfolding read_data_block_def Let_def n(2) n_def [symmetric] if_not_P [OF n(1)] if_not_P [OF False]
      by (rule wp_reserve, rule wp) simp
  qed
qed

lemma wp_read_trees:
  assumes tree: "\<And>b out. b \<in> set bs \<Longrightarrow> length out \<le> len \<Longrightarrow>
      wp (f b out) st (upon E (\<lambda>out' st'. st' = st \<and> out' = take len (out @ contents fs st (lv b))))"
    and "length out \<le> len"
  shows "wp (xfold f bs out) st (upon E (\<lambda>out' st'. st' = st \<and> out' = take len (out @ contents fs st (concat (map lv bs)))))"
  using assms
proof (induction bs arbitrary: out)
  case Nil
  then show ?case by (simp add: wpx_ok)
next
  case (Cons b bs)
  show ?case
    unfolding xfold.simps
  proof (rule wpx_bindI [OF Cons.prems(1)])
    fix out' st'
    assume "st' = st \<and> out' = take len (out @ contents fs st (lv b))"
    then have st: "st' = st" and out: "out' = take len (out @ contents fs st (lv b))" by simp_all
    have tk: "take len (take len xs @ ys) = take len (xs @ ys)" for xs ys :: bytes by (simp add: min_def)
    have "wp (xfold f bs out') st (upon E (\<lambda>o2 st'. st' = st \<and> o2 = take len (out' @ contents fs st (concat (map lv bs)))))"
      by (rule Cons.IH) (use Cons.prems(1) in \<open>auto simp: out\<close>)
    then show "wp (xfold f bs out') st' (upon E (\<lambda>o2 st'. st' = st \<and> o2 = take len (out @ contents fs st (concat (map lv (b # bs))))))"
      using tk [of "out @ contents fs st (lv b)"] by (simp add: st out)
  qed (use Cons.prems(2) in auto)
qed

lemma wp_read_tree:
  assumes "geom fs cap" and "list_all (\<lambda>n. unat n < nblocks fs) (tree_nodes k fs st b)" and "length out \<le> len"
  shows "wp (read_tree k ops fs len b out) st
     (upon E (\<lambda>out' st'. st' = st \<and> out' = take len (out @ contents fs st (leaves k fs st b))))"
  using assms(2,3)
proof (induction k arbitrary: b out)
  case 0
  then show ?case by (auto intro!: wpx_ok wp_read_data_block [OF assms(1)])
next
  case (Suc k)
  have b: "unat b < nblocks fs" using Suc.prems(1) by simp
  have kids: "list_all (\<lambda>n. unat n < nblocks fs) (tree_nodes k fs st p)" if "p \<in> set (ptrs fs st b)" for p
    using Suc.prems(1) that by (auto simp: list_all_iff)
  show ?case
  proof (cases "length out = len")
    case False
    have "wp (xfold (read_tree k ops fs len) (ptrs fs st b) out) st
       (upon E (\<lambda>out' st'. st' = st \<and> out' = take len (out @ contents fs st (concat (map (leaves k fs st) (ptrs fs st b))))))"
      by (rule wp_read_trees [OF Suc.IH [OF kids]]) (use Suc.prems(2) in auto)
    then show ?thesis
      using False by (auto intro!: wpx_bind wp_read_indirect_blocks [OF assms(1) b])
  qed (simp add: wpx_ok)
qed

section \<open>Freeing a tree\<close>

lemma wp_free_one:
  assumes "blocks_ok fs cap" and "plain fs b"
  shows "wp (free_block ops fs b) st (upon E (\<lambda>_. freed fs st {b}))"
proof (rule wp_len)
  assume len: "\<And>n. length (st n) = 512"
  have b: "unat b < nblocks fs" using assms(2) by (simp add: plain_def)
  show ?thesis
    by (rule wp_free_block [OF assms(1) b])
       (auto simp: freed_def busy_set_busy [OF assms(1) b _ len] blkv_set_busy [OF assms(1) b])
qed

lemma wp_free_trees:
  assumes "\<And>b st' T. b \<in> set bs \<Longrightarrow> freed fs st T st' \<Longrightarrow> wp (f b) st' (upon E (\<lambda>_. freed fs st' (N b)))"
  shows "wp (xfold (\<lambda>b _. f b) bs ()) st (upon E (\<lambda>_. freed fs st (\<Union>b \<in> set bs. N b)))"
  using assms
proof (induction bs arbitrary: st)
  case Nil
  then show ?case by (simp add: wpx_ok freed_refl)
next
  case (Cons b bs)
  show ?case
    unfolding xfold.simps
  proof (rule wpx_bindI [OF Cons.prems])
    show "b \<in> set (b # bs)" by simp
    show "freed fs st {} st" by (rule freed_refl)
    fix u :: unit and st1
    assume st1: "freed fs st (N b) st1"
    have "wp (xfold (\<lambda>b _. f b) bs ()) st1 (upon E (\<lambda>_. freed fs st1 (\<Union>b \<in> set bs. N b)))"
      by (rule Cons.IH) (rule Cons.prems, simp, erule freed_trans [OF st1])
    then show "wp (xfold (\<lambda>b _. f b) bs u) st1 (upon E (\<lambda>_. freed fs st (\<Union>b \<in> set (b # bs). N b)))"
      unfolding unit_eq [of u] by (rule wpx_upon_conseq) (auto dest: freed_trans [OF st1])
  qed
qed

lemma wp_free_tree:
  assumes ok: "blocks_ok fs cap" and "list_all (plain fs) (tree_nodes k fs st b)"
  shows "wp (free_tree k ops fs b) st (upon E (\<lambda>_. freed fs st (set (tree_nodes k fs st b))))"
  using assms(2)
proof (induction k arbitrary: st b)
  case 0
  then show ?case using wp_free_one [OF ok] by simp
next
  case (Suc k)
  have b: "plain fs b" "unat b < nblocks fs" "geom fs cap" using Suc.prems ok by (simp_all add: plain_def blocks_ok_def)
  let ?N = "\<Union>p \<in> set (ptrs fs st b). set (tree_nodes k fs st p)"
  have kids: "list_all (plain fs) (tree_nodes k fs st p)" if "p \<in> set (ptrs fs st b)" for p
    using Suc.prems that by (auto simp: list_all_iff)
  have kid: "wp (free_tree k ops fs p) st' (upon E (\<lambda>_. freed fs st' (set (tree_nodes k fs st p))))"
    if "p \<in> set (ptrs fs st b)" "freed fs st T st'" for p st' T
    using Suc.IH [of st' p] freed_tree [OF that(2) kids [OF that(1)]] kids [OF that(1)] by simp
  show ?case
    unfolding free_tree.simps
  proof (rule wpx_bind, rule wp_read_indirect_blocks [OF b(3,2)], rule wpx_bindI [OF wp_free_trees [OF kid]])
    fix u :: unit and st1
    assume st1: "freed fs st ?N st1"
    show "wp (free_block ops fs b) st1 (upon E (\<lambda>_. freed fs st (set (tree_nodes (Suc k) fs st b))))"
      by (rule wpx_upon_conseq [OF wp_free_one [OF ok b(1)]]) (auto dest: freed_trans [OF st1])
  qed
qed

end

end
