(* ===== verification/Ext2_Data.thy ===== *)
theory Ext2_Data
  imports Ext2_Tree
begin

text \<open>
  Writing the contents of a file, \<open>write_inode_data\<close> of \<open>kernel/src/fs/ext2.rs\<close>: every block
  it takes was free, every block in use keeps its contents, and the contents read back.
\<close>

section \<open>Blocks in use\<close>

text \<open>Block zero and the bitmaps themselves are marked.\<close>

definition meta_busy :: "Ext2Fs \<Rightarrow> store \<Rightarrow> bool" where
  "meta_busy fs st \<longleftrightarrow> (\<forall>n < nblocks fs. n = 0 \<or> n \<in> bitmap_blocks fs \<longrightarrow> busy fs st n)"

definition held :: "Ext2Fs \<Rightarrow> store \<Rightarrow> u32 \<Rightarrow> bool" where
  "held fs st b \<longleftrightarrow> plain fs b \<and> busy fs st (unat b)"

text \<open>The blocks in use stay in use, and those that are no bitmap keep their contents.\<close>

definition grows :: "Ext2Fs \<Rightarrow> store \<Rightarrow> store \<Rightarrow> bool" where
  "grows fs st st' \<longleftrightarrow>
     (\<forall>n < nblocks fs. busy fs st n \<longrightarrow> busy fs st' n \<and> (n \<notin> bitmap_blocks fs \<longrightarrow> blkv fs st' n = blkv fs st n))"

definition out_of_space :: "Ext2Fs \<Rightarrow> store \<Rightarrow> Ext2Error \<Rightarrow> store \<Rightarrow> bool" where
  "out_of_space fs st e st' \<longleftrightarrow> e = X_NoSpace \<and> grows fs st st' \<and> disk_full fs st'"

lemma grows_refl [simp]: "grows fs st st"
  by (simp add: grows_def)

lemma grows_trans: "grows fs st st' \<Longrightarrow> grows fs st' st'' \<Longrightarrow> grows fs st st''"
  by (auto simp: grows_def)

lemma out_of_space_trans: "grows fs st st' \<Longrightarrow> out_of_space fs st' e st'' \<Longrightarrow> out_of_space fs st e st''"
  by (auto simp: out_of_space_def intro: grows_trans)

lemma meta_busy_grows: "meta_busy fs st \<Longrightarrow> grows fs st st' \<Longrightarrow> meta_busy fs st'"
  by (auto simp: meta_busy_def grows_def)

lemma held_grows: "held fs st b \<Longrightarrow> grows fs st st' \<Longrightarrow> held fs st' b"
  by (auto simp: held_def grows_def plain_def)

lemma blkv_grows: "held fs st b \<Longrightarrow> grows fs st st' \<Longrightarrow> blkv fs st' (unat b) = blkv fs st (unat b)"
  by (auto simp: held_def grows_def plain_def)

lemma free_grows: "held fs st b \<Longrightarrow> grows fs st st' \<Longrightarrow> \<not> busy fs st' (unat b) \<Longrightarrow> False"
  by (auto simp: held_def grows_def plain_def)

lemma not_busy_grows: "plain fs b \<Longrightarrow> grows fs st st' \<Longrightarrow> \<not> busy fs st' (unat b) \<Longrightarrow> \<not> busy fs st (unat b)"
  by (auto simp: grows_def plain_def)

lemma contents_grows: "list_all (held fs st) bs \<Longrightarrow> grows fs st st' \<Longrightarrow> contents fs st' bs = contents fs st bs"
  by (induction bs) (simp_all add: blkv_grows)

lemma tree_grows:
  assumes "list_all (held fs st) (tree_nodes k fs st b)" and "grows fs st st'"
  shows "tree_nodes k fs st' b = tree_nodes k fs st b \<and> leaves k fs st' b = leaves k fs st b"
  by (rule tree_cong) (use assms in \<open>auto simp: list_all_iff intro: blkv_grows\<close>)

lemma grows_bput:
  assumes "blocks_ok fs cap" and "grows fs st0 st" and "plain fs b" and "\<not> busy fs st0 (unat b)"
  shows "grows fs st0 (bput fs st (unat b) data)"
  using assms by (auto simp: grows_def plain_def busy_bput blkv_bput)

section \<open>Pointer blocks\<close>

lemma pointer_block_fold:
  assumes "m \<le> 256"
  shows "length (fold (\<lambda>i data. put_u32 data (i * 4) (ps ! i)) [0..<m] (replicate 1024 0)) = 1024 \<and>
    (\<forall>i < 256. le_u32 (fold (\<lambda>i data. put_u32 data (i * 4) (ps ! i)) [0..<m] (replicate 1024 0)) (i * 4) =
       (if i < m then ps ! i else 0))"
  using assms
proof (induction m)
  case 0
  then show ?case by (simp add: le_u32_def u32_from_le_def u32_from_be_def)
next
  case (Suc m)
  define buf where "buf = fold (\<lambda>i data. put_u32 data (i * 4) (ps ! i)) [0..<m] (replicate 1024 0)"
  have buf: "length buf = 1024" "\<And>i. i < 256 \<Longrightarrow> le_u32 buf (i * 4) = (if i < m then ps ! i else 0)"
    using Suc by (simp_all add: buf_def)
  have fold: "fold (\<lambda>i data. put_u32 data (i * 4) (ps ! i)) [0..<Suc m] (replicate 1024 0) = put_u32 buf (m * 4) (ps ! m)"
    by (simp add: buf_def)
  have "le_u32 (put_u32 buf (m * 4) (ps ! m)) (i * 4) = (if i < Suc m then ps ! i else 0)" if "i < 256" for i
  proof (cases "i = m")
    case False
    then have "m * 4 + 4 \<le> i * 4 \<or> i * 4 + 4 \<le> m * 4" by linarith
    with False show ?thesis using buf that Suc.prems by (simp add: le_put_other)
  qed (use buf Suc.prems in simp)
  then show ?case unfolding fold using buf(1) Suc.prems by simp
qed

lemma length_pointer_block: "length ps \<le> 256 \<Longrightarrow> length (pointer_block 1024 ps) = 1024"
  using pointer_block_fold [of "length ps" ps] by (simp add: pointer_block_def)

lemma ptrs_pointer_block:
  assumes "length ps \<le> 256" and "list_all (\<lambda>p. p \<noteq> 0) ps"
  shows "filter (\<lambda>p. p \<noteq> 0) (block_pointers (pointer_block 1024 ps) 1024) = ps"
proof -
  have "block_pointers (pointer_block 1024 ps) 1024 = map (\<lambda>i. if i < length ps then ps ! i else 0) [0..<256]"
    using pointer_block_fold [OF assms(1), of ps] unfolding block_pointers_def pointer_block_def by (intro map_cong) simp_all
  also have "[0..<256] = [0..<length ps] @ [length ps..<256]" using assms(1) by (metis le_add_diff_inverse upt_add_eq_append zero_le)
  also have "map (\<lambda>i. if i < length ps then ps ! i else 0) ([0..<length ps] @ [length ps..<256]) =
      ps @ map (\<lambda>_. 0) [length ps..<256]"
    by (auto intro!: nth_equalityI simp: nth_append)
  finally have "block_pointers (pointer_block 1024 ps) 1024 = ps @ map (\<lambda>_. 0) [length ps..<256]" .
  then show ?thesis using assms(2) by (simp add: list_all_iff filter_id_conv)
qed

section \<open>Pieces\<close>

lemma concat_chunks: "0 < n \<Longrightarrow> concat (chunks n xs) = xs"
  by (induction n xs rule: chunks.induct) (subst chunks.simps, auto)

lemma chunks_pieces: "0 < n \<Longrightarrow> list_all (\<lambda>c. c \<noteq> [] \<and> length c \<le> n \<and> set c \<subseteq> set xs) (chunks n xs)"
proof (induction n xs rule: chunks.induct)
  case (1 n xs)
  show ?case
  proof (cases "xs = []")
    case False
    have "list_all (\<lambda>c. c \<noteq> [] \<and> length c \<le> n \<and> set c \<subseteq> set (drop n xs)) (chunks n (drop n xs))"
      using 1 False by simp
    then show ?thesis
      using False 1(2) set_drop_subset [of n xs] set_take_subset [of n xs]
      by (subst chunks.simps) (auto simp: list_all_iff)
  qed (simp add: chunks.simps)
qed

lemma length_chunks: "0 < n \<Longrightarrow> length xs \<le> m * n \<Longrightarrow> length (chunks n xs) \<le> m"
proof (induction n xs arbitrary: m rule: chunks.induct)
  case (1 n xs)
  show ?case
  proof (cases "xs = []")
    case False
    with 1(3) obtain j where m: "m = Suc j" by (cases m) auto
    have "length (chunks n (drop n xs)) \<le> j" using 1 False m by simp
    then show ?thesis using False 1(2) m by (subst chunks.simps) simp
  qed (simp add: chunks.simps)
qed

section \<open>Taking blocks\<close>

context ext2_device
begin

lemma wp_take_block:
  assumes ok: "blocks_ok fs cap" and meta: "meta_busy fs st"
  shows "wp (allocate_block ops fs) st (upon (out_of_space fs st)
     (\<lambda>b st'. grows fs st st' \<and> held fs st' b \<and> \<not> busy fs st (unat b)))"
proof (rule wp_len, rule wpx_upon_conseq [OF wp_allocate_block [OF ok]])
  fix b :: u32 and st'
  assume len: "\<And>n. length (st n) = 512"
    and "unat b < nblocks fs \<and> \<not> busy fs st (unat b) \<and> (\<forall>n<unat b. busy fs st n) \<and> st' = set_busy fs st (unat b) True"
  then have b: "unat b < nblocks fs" "\<not> busy fs st (unat b)" "st' = set_busy fs st (unat b) True" by simp_all
  have "plain fs b"
    using meta b(1,2) unfolding meta_busy_def plain_def by (metis unat_0)
  with b show "grows fs st st' \<and> held fs st' b \<and> \<not> busy fs st (unat b)"
    by (auto simp: grows_def held_def busy_set_busy [OF ok b(1) _ len] blkv_set_busy [OF ok b(1)])
qed (simp add: out_of_space_def)

lemma wp_out_of_space:
  assumes "wp m st1 (upon (out_of_space fs st1) P)" and "grows fs st st1"
  shows "wp m st1 (upon (out_of_space fs st) P)"
  by (rule wpx_upon_conseq [OF assms(1)]) (auto intro: out_of_space_trans [OF assms(2)])

lemma wp_write_held:
  assumes "blocks_ok fs cap" and "plain fs b" and "length data = 1024" and "P () (bput fs st (unat b) data)"
  shows "wp (fs_write_block ops fs (unat b) data) st (upon E P)"
  by (rule wp_write_block [of fs]) (use assms in \<open>simp_all add: blocks_ok_def plain_def\<close>)

lemma wp_xmap_grows:
  assumes step: "\<And>x st'. x \<in> set xs \<Longrightarrow> grows fs st st' \<Longrightarrow>
      wp (f x) st' (upon (out_of_space fs st') (\<lambda>y st''. grows fs st' st'' \<and> R x y st' st''))"
    and up: "\<And>x y s t u. R x y s t \<Longrightarrow> grows fs t u \<Longrightarrow> R x y s u"
    and down: "\<And>x y s t u. grows fs s t \<Longrightarrow> R x y t u \<Longrightarrow> R x y s u"
  shows "wp (xmap f xs) st (upon (out_of_space fs st)
     (\<lambda>ys st'. grows fs st st' \<and> list_all2 (\<lambda>x y. R x y st st') xs ys))"
  using step
proof (induction xs arbitrary: st)
  case Nil
  then show ?case by (simp add: wpx_ok)
next
  case (Cons x xs)
  show ?case
    unfolding xmap.simps
  proof (rule wpx_bindI [OF Cons.prems])
    fix y st1
    assume y: "grows fs st st1 \<and> R x y st st1"
    have IH: "wp (xmap f xs) st1 (upon (out_of_space fs st1)
        (\<lambda>ys st'. grows fs st1 st' \<and> list_all2 (\<lambda>x y. R x y st1 st') xs ys))"
      by (rule Cons.IH) (rule Cons.prems, simp, rule grows_trans, use y in auto)
    show "wp (xbind (xmap f xs) (\<lambda>ys. xok (y # ys))) st1 (upon (out_of_space fs st)
        (\<lambda>ys st'. grows fs st st' \<and> list_all2 (\<lambda>x y. R x y st st') (x # xs) ys))"
    proof (rule wpx_bindI [OF wp_out_of_space [OF IH]])
      show "grows fs st st1" using y ..
      fix ys st2
      assume ys: "grows fs st1 st2 \<and> list_all2 (\<lambda>x y. R x y st1 st2) xs ys"
      then have "list_all2 (\<lambda>x y. R x y st st2) xs ys"
        using down [of st st1] y by (auto elim: list_all2_mono)
      then show "wp (xok (y # ys)) st2 (upon (out_of_space fs st)
          (\<lambda>ys st'. grows fs st st' \<and> list_all2 (\<lambda>x y. R x y st st') (x # xs) ys))"
        using up [of x y st st1 st2] y ys grows_trans [of fs st st1 st2] by (intro wpx_ok) simp
    qed
  qed simp_all
qed

end

section \<open>Data blocks\<close>

definition pad :: "bytes \<Rightarrow> bytes" where
  "pad piece = piece @ replicate (1024 - length piece) 0"

definition stored :: "Ext2Fs \<Rightarrow> bytes \<Rightarrow> u32 \<Rightarrow> store \<Rightarrow> store \<Rightarrow> bool" where
  "stored fs piece b st st' \<longleftrightarrow> held fs st' b \<and> \<not> busy fs st (unat b) \<and> blkv fs st' (unat b) = pad piece"

lemma stored_up: "stored fs piece b s t \<Longrightarrow> grows fs t u \<Longrightarrow> stored fs piece b s u"
  by (auto simp: stored_def intro: held_grows dest: blkv_grows)

lemma stored_down: "grows fs s t \<Longrightarrow> stored fs piece b t u \<Longrightarrow> stored fs piece b s u"
  by (auto simp: stored_def held_def dest: not_busy_grows)

lemma held_bput: "blocks_ok fs cap \<Longrightarrow> plain fs c \<Longrightarrow> held fs (bput fs st (unat c) data) b = held fs st b"
  by (auto simp: held_def plain_def busy_bput)

context ext2_device
begin

lemma wp_write_data_block:
  assumes "blocks_ok fs cap" and "plain fs b" and "length piece \<le> 1024" and "P () (bput fs st (unat b) (pad piece))"
  shows "wp (write_data_block ops fs b piece) st (upon E P)"
proof -
  have "min (length piece) 1024 = length piece" "fs_block_size fs = 1024"
    using assms(1,3) by (simp_all add: blocks_ok_def geom_def)
  moreover have "copy_into (replicate 1024 0) 0 piece = pad piece" by (simp add: copy_into_def pad_def)
  moreover have "wp (fs_write_block ops fs (unat b) (pad piece)) st (upon E P)"
    by (rule wp_write_held [OF assms(1,2)]) (use assms(3,4) in \<open>simp_all add: pad_def\<close>)
  ultimately show ?thesis using assms(3) by (simp add: write_data_block_def Let_def)
qed

lemma wp_write_data_blocks:
  assumes ok: "blocks_ok fs cap" and meta: "meta_busy fs st"
  shows "wp (write_data_blocks ops fs data) st (upon (out_of_space fs st)
     (\<lambda>bs st'. grows fs st st' \<and> list_all2 (\<lambda>piece b. stored fs piece b st st') (chunks 1024 data) bs))"
proof -
  have size: "fs_block_size fs = 1024" using ok by (simp add: blocks_ok_def geom_def)
  show ?thesis
    unfolding write_data_blocks_def size
  proof (rule wp_xmap_grows)
    fix piece st1
    assume piece: "piece \<in> set (chunks 1024 data)" and st1: "grows fs st st1"
    have len: "length piece \<le> 1024" using chunks_pieces [of 1024 data] piece by (simp add: list_all_iff)
    show "wp (xbind (allocate_block ops fs) (\<lambda>block. xbind (write_data_block ops fs block piece) (\<lambda>_. xok block))) st1
        (upon (out_of_space fs st1) (\<lambda>y st''. grows fs st1 st'' \<and> stored fs piece y st1 st''))"
    proof (rule wpx_bindI [OF wp_take_block [OF ok meta_busy_grows [OF meta st1]]])
      fix b st2
      assume b: "grows fs st1 st2 \<and> held fs st2 b \<and> \<not> busy fs st1 (unat b)"
      then have "plain fs b" by (simp add: held_def)
      then have "grows fs st1 (bput fs st2 (unat b) (pad piece)) \<and> stored fs piece b st1 (bput fs st2 (unat b) (pad piece))"
        using b grows_bput [OF ok] held_bput [OF ok] by (simp add: stored_def blkv_bput)
      then show "wp (xbind (write_data_block ops fs b piece) (\<lambda>_. xok b)) st2
          (upon (out_of_space fs st1) (\<lambda>y st''. grows fs st1 st'' \<and> stored fs piece y st1 st''))"
        by (intro wpx_bind wp_write_data_block [OF ok \<open>plain fs b\<close> len] wpx_ok)
    qed
  qed (fact stored_up stored_down)+
qed

end

section \<open>Trees\<close>

text \<open>A tree over given leaves, all of it in use, its pointer blocks taken since \<open>st\<close>.\<close>

definition built :: "nat \<Rightarrow> Ext2Fs \<Rightarrow> u32 list \<Rightarrow> u32 \<Rightarrow> store \<Rightarrow> store \<Rightarrow> bool" where
  "built k fs bs b st st' \<longleftrightarrow>
     leaves k fs st' b = bs \<and> list_all (held fs st') (tree_nodes k fs st' b) \<and>
     (\<forall>n \<in> set (tree_nodes k fs st' b). n \<in> set bs \<or> \<not> busy fs st (unat n))"

lemma built_up: "built k fs bs b s t \<Longrightarrow> grows fs t u \<Longrightarrow> built k fs bs b s u"
  using tree_grows [of fs t k b u] by (auto simp: built_def list_all_iff intro: held_grows)

lemma built_down: "grows fs s t \<Longrightarrow> built k fs bs b t u \<Longrightarrow> built k fs bs b s u"
  by (auto simp: built_def list_all_iff held_def dest: not_busy_grows)

lemma built_root: "built k fs bs b s t \<Longrightarrow> b \<noteq> 0"
  using root_in_nodes [of b k fs t] by (auto simp: built_def list_all_iff held_def plain_def)

text \<open>The trees below a pointer block do not contain it, so they survive its being written.\<close>

lemma built_bput:
  assumes "blocks_ok fs cap" and "built k fs bs p s t" and "plain fs b" and "busy fs s (unat b)" and "b \<notin> set bs"
  shows "built k fs bs p s (bput fs t (unat b) data)"
proof -
  have "b \<notin> set (tree_nodes k fs t p)" using assms(2,4,5) by (auto simp: built_def)
  then have "tree_nodes k fs (bput fs t (unat b) data) p = tree_nodes k fs t p \<and>
      leaves k fs (bput fs t (unat b) data) p = leaves k fs t p"
    by (intro tree_cong) (auto simp: blkv_bput word_unat_eq_iff [symmetric])
  with assms show ?thesis by (auto simp: built_def list_all_iff held_bput)
qed

lemma built_Suc:
  assumes "blocks_ok fs cap" and b: "plain fs b" "\<not> busy fs st (unat b)" "held fs st1 b" and "grows fs st st1"
    and kids: "list_all2 (\<lambda>bs p. built k fs bs p st1 st2) (chunks (256 ^ k) bs) ps" and "grows fs st1 st2"
    and bs: "list_all (held fs st) bs" and len: "length bs \<le> 256 * 256 ^ k"
  shows "built (Suc k) fs bs b st (bput fs st2 (unat b) (pointer_block 1024 ps))"
proof -
  define st3 where "st3 = bput fs st2 (unat b) (pointer_block 1024 ps)"
  have nb: "b \<notin> set bs" using bs b(2) by (auto simp: list_all_iff held_def)
  have sub: "set c \<subseteq> set bs" if "c \<in> set (chunks (256 ^ k) bs)" for c
    using chunks_pieces [of "256 ^ k" bs] that by (simp add: list_all_iff)
  have keep: "built k fs c p st1 st3" if "c \<in> set (chunks (256 ^ k) bs)" "built k fs c p st1 st2" for c p
    unfolding st3_def
    by (rule built_bput [OF assms(1) that(2) b(1)]) (use b(3) nb sub [OF that(1)] in \<open>auto simp: held_def\<close>)
  then have kids3: "list_all2 (\<lambda>bs p. built k fs bs p st1 st3) (chunks (256 ^ k) bs) ps"
    using kids unfolding list_all2_conv_all_nth by simp
  have lens: "length ps = length (chunks (256 ^ k) bs)" using kids by (simp add: list_all2_lengthD)
  have ptr: "ptrs fs st3 b = ps"
    unfolding ptrs_def st3_def blkv_bput if_P [OF refl]
    by (rule ptrs_pointer_block)
       (use lens length_chunks [of "256 ^ k" bs 256] len kids in \<open>auto simp: list_all_length list_all2_conv_all_nth dest!: built_root\<close>)
  have lv: "map (leaves k fs st3) ps = chunks (256 ^ k) bs"
    using kids3 by (auto simp: built_def list_all2_conv_all_nth intro!: nth_equalityI)
  have "held fs st2 b" using held_grows [OF b(3) assms(7)] .
  then have b3: "held fs st3 b" using held_bput [OF assms(1) b(1)] by (simp add: st3_def)
  have nd: "held fs st3 n \<and> (n \<in> set bs \<or> \<not> busy fs st (unat n))" if p: "p \<in> set ps" and n: "n \<in> set (tree_nodes k fs st3 p)" for p n
  proof -
    obtain c where c: "c \<in> set (chunks (256 ^ k) bs)" "built k fs c p st1 st3"
      using kids3 p by (fastforce simp: list_all2_conv_all_nth in_set_conv_nth)
    then have "built k fs c p st st3" using built_down assms(5) by blast
    with n sub [OF c(1)] show ?thesis by (auto simp: built_def list_all_iff)
  qed
  show ?thesis
    unfolding built_def st3_def [symmetric]
    using b3 b(2) nd by (auto simp: ptr lv concat_chunks list_all_iff)
qed

context ext2_device
begin

lemma wp_write_tree:
  assumes ok: "blocks_ok fs cap"
  shows "meta_busy fs st \<Longrightarrow> list_all (held fs st) bs \<Longrightarrow> bs \<noteq> [] \<Longrightarrow> length bs \<le> 256 ^ k \<Longrightarrow>
     wp (write_tree k ops fs bs) st (upon (out_of_space fs st) (\<lambda>b st'. grows fs st st' \<and> built k fs bs b st st'))"
proof (induction k arbitrary: st bs)
  case 0
  then obtain b where "bs = [b]" by (cases bs) auto
  with 0 show ?case by (auto simp: built_def intro!: wpx_ok)
next
  case (Suc k)
  have size: "fs_block_size fs = 1024" using ok by (simp add: blocks_ok_def geom_def)
  have ppb: "(1024 div 4 :: nat) = 256" by simp
  show ?case
    unfolding write_tree.simps size
  proof (rule wpx_bindI [OF wp_take_block [OF ok Suc.prems(1)]])
    fix b st1
    assume b: "grows fs st st1 \<and> held fs st1 b \<and> \<not> busy fs st (unat b)"
    then have pb: "plain fs b" by (simp add: held_def)
    have kids: "wp (xmap (write_tree k ops fs) (chunks (256 ^ k) bs)) st1 (upon (out_of_space fs st1)
        (\<lambda>ps st'. grows fs st1 st' \<and> list_all2 (\<lambda>c p. built k fs c p st1 st') (chunks (256 ^ k) bs) ps))"
    proof (rule wp_xmap_grows)
      fix c st'
      assume c: "c \<in> set (chunks (256 ^ k) bs)" and st': "grows fs st1 st'"
      have "c \<noteq> []" "length c \<le> 256 ^ k" "set c \<subseteq> set bs"
        using chunks_pieces [of "256 ^ k" bs] c by (simp_all add: list_all_iff)
      moreover have g: "grows fs st st'" using b st' grows_trans by blast
      ultimately show "wp (write_tree k ops fs c) st' (upon (out_of_space fs st') (\<lambda>p st''. grows fs st' st'' \<and> built k fs c p st' st''))"
        using Suc.IH [of st' c] Suc.prems(1,2) meta_busy_grows [OF _ g] held_grows [OF _ g] by (auto simp: list_all_iff)
    qed (fact built_up built_down)+
    show "wp (xbind (xmap (write_tree k ops fs) (chunks ((1024 div 4) ^ k) bs)) (\<lambda>ps.
          xbind (fs_write_block ops fs (unat b) (pointer_block 1024 ps)) (\<lambda>_. xok b))) st1
        (upon (out_of_space fs st) (\<lambda>b st'. grows fs st st' \<and> built (Suc k) fs bs b st st'))"
      unfolding ppb
    proof (rule wpx_bindI [OF wp_out_of_space [OF kids]])
      fix ps st2
      assume ps: "grows fs st1 st2 \<and> list_all2 (\<lambda>c p. built k fs c p st1 st2) (chunks (256 ^ k) bs) ps"
      have len: "length (pointer_block 1024 ps) = 1024"
        by (rule length_pointer_block)
           (use ps length_chunks [of "256 ^ k" bs 256] Suc.prems(4) in \<open>auto dest: list_all2_lengthD\<close>)
      have "built (Suc k) fs bs b st (bput fs st2 (unat b) (pointer_block 1024 ps))"
        by (rule built_Suc [OF ok pb]) (use b ps Suc.prems(2,4) in auto)
      moreover have "grows fs st (bput fs st2 (unat b) (pointer_block 1024 ps))"
        using grows_bput [OF ok _ pb] grows_trans b ps by blast
      ultimately show "wp (xbind (fs_write_block ops fs (unat b) (pointer_block 1024 ps)) (\<lambda>_. xok b)) st2
          (upon (out_of_space fs st) (\<lambda>b st'. grows fs st st' \<and> built (Suc k) fs bs b st st'))"
        by (intro wpx_bind wp_write_held [OF ok pb len] wpx_ok conjI)
    qed (use b in blast)
  qed
qed

end

end
