(* ===== verification/Ext2_Inode.thy ===== *)
theory Ext2_Inode
  imports Ext2_Data
begin

text \<open>
  Whole files of \<open>kernel/src/fs/ext2.rs\<close>: the blocks of an inode, and what freeing, reading
  and writing the data of an inode do to the disk.
\<close>

section \<open>The blocks of an inode\<close>

definition level :: "('b \<Rightarrow> u32 \<Rightarrow> u32 list) \<Rightarrow> 'b \<Rightarrow> u32 \<Rightarrow> u32 list" where
  "level f k b = (if b = 0 then [] else f k b)"

definition direct_blocks :: "Inode \<Rightarrow> u32 list" where
  "direct_blocks inode = filter (\<lambda>b. b \<noteq> 0) (take 12 (i_blocks inode))"

definition file_leaves :: "Ext2Fs \<Rightarrow> store \<Rightarrow> Inode \<Rightarrow> u32 list" where
  "file_leaves fs st inode =
     direct_blocks inode @ level (\<lambda>k. leaves k fs st) 1 (i_blocks inode ! 12) @
     level (\<lambda>k. leaves k fs st) 2 (i_blocks inode ! 13) @ level (\<lambda>k. leaves k fs st) 3 (i_blocks inode ! 14)"

definition file_nodes :: "Ext2Fs \<Rightarrow> store \<Rightarrow> Inode \<Rightarrow> u32 list" where
  "file_nodes fs st inode =
     direct_blocks inode @ level (\<lambda>k. tree_nodes k fs st) 1 (i_blocks inode ! 12) @
     level (\<lambda>k. tree_nodes k fs st) 2 (i_blocks inode ! 13) @ level (\<lambda>k. tree_nodes k fs st) 3 (i_blocks inode ! 14)"

lemma level_simps [simp]: "level f k 0 = []" "b \<noteq> 0 \<Longrightarrow> level f k b = f k b"
  by (simp_all add: level_def)

lemma freed_level:
  assumes "freed fs st S st'" and "list_all (plain fs) (level (\<lambda>k. tree_nodes k fs st) k b)"
  shows "level (\<lambda>k. tree_nodes k fs st') k b = level (\<lambda>k. tree_nodes k fs st) k b"
  using freed_tree [OF assms(1), of k b] assms(2) by (cases "b = 0") simp_all

context ext2_device
begin

section \<open>Freeing\<close>

lemma wp_free_level:
  assumes "blocks_ok fs cap" and "freed fs st S st1" and "list_all (plain fs) (level (\<lambda>k. tree_nodes k fs st) k b)"
  shows "wp (if b = 0 then xok () else free_tree k ops fs b) st1
     (upon E (\<lambda>_. freed fs st (S \<union> set (level (\<lambda>k. tree_nodes k fs st) k b))))"
proof (cases "b = 0")
  case True
  then show ?thesis using assms(2) by (simp add: wpx_ok)
next
  case False
  have nodes: "tree_nodes k fs st1 b = tree_nodes k fs st b" using freed_level [OF assms(2,3)] False by simp
  have "wp (free_tree k ops fs b) st1 (upon E (\<lambda>_. freed fs st1 (set (tree_nodes k fs st1 b))))"
    by (rule wp_free_tree [OF assms(1)]) (use assms(3) False in \<open>simp add: nodes\<close>)
  then have "wp (free_tree k ops fs b) st1 (upon E (\<lambda>_. freed fs st (S \<union> set (tree_nodes k fs st b))))"
    by (rule wpx_upon_conseq) (auto simp: nodes dest: freed_trans [OF assms(2)])
  then show ?thesis using False by simp
qed

lemma wp_free_inode_blocks:
  assumes ok: "blocks_ok fs cap" and plain: "list_all (plain fs) (file_nodes fs st inode)"
  shows "wp (free_inode_blocks ops fs inode) st (upon E (\<lambda>_. freed fs st (set (file_nodes fs st inode))))"
proof -
  let ?N = "\<lambda>k. set (level (\<lambda>k. tree_nodes k fs st) k (i_blocks inode ! (11 + k)))"
  have lv: "list_all (plain fs) (level (\<lambda>k. tree_nodes k fs st) k (i_blocks inode ! (11 + k)))" if "k \<in> {1, 2, 3}" for k
    using that plain by (auto simp: file_nodes_def)
  have direct: "wp (xfold (\<lambda>b _. free_block ops fs b) (direct_blocks inode) ()) st
      (upon E (\<lambda>_. freed fs st (\<Union>b \<in> set (direct_blocks inode). {b})))"
    by (rule wp_free_trees, rule wp_free_one [OF ok]) (use plain in \<open>auto simp: file_nodes_def list_all_iff\<close>)
  have step: "wp (if i_blocks inode ! (11 + k) = 0 then xok () else free_tree k ops fs (i_blocks inode ! (11 + k))) st1
      (upon E (\<lambda>_. freed fs st (S \<union> ?N k)))" if "k \<in> {1, 2, 3}" "freed fs st S st1" for k S st1
    by (rule wp_free_level [OF ok that(2) lv [OF that(1)]])
  have all: "set (file_nodes fs st inode) = (\<Union>b \<in> set (direct_blocks inode). {b}) \<union> ?N 1 \<union> ?N 2 \<union> ?N 3"
    by (auto simp: file_nodes_def)
  show ?thesis
    unfolding free_inode_blocks_def ext2_consts xfold.simps Let_def all direct_blocks_def [symmetric]
    by (rule wpx_bindI [OF direct], rule wpx_bindI [OF step], simp, assumption, rule wpx_bindI [OF step], simp, assumption,
        rule wpx_bindI [OF step], simp, assumption, rule wpx_ok)
qed

section \<open>Reading\<close>

lemma wp_read_level:
  assumes "geom fs cap" and "list_all (\<lambda>n. unat n < nblocks fs) (level (\<lambda>k. tree_nodes k fs st) k b)" and "length out \<le> len"
  shows "wp (if length out < len \<and> b \<noteq> 0 then read_tree k ops fs len b out else xok out) st
     (upon E (\<lambda>out' st'. st' = st \<and> out' = take len (out @ contents fs st (level (\<lambda>k. leaves k fs st) k b))))"
proof (cases "length out < len \<and> b \<noteq> 0")
  case True
  then show ?thesis using wp_read_tree [OF assms(1), of k st b out len] assms(2) by simp
next
  case False
  then show ?thesis using assms(3) by (cases "b = 0") (simp_all add: wpx_ok)
qed

lemma wp_read_inode_data:
  assumes fs: "geom fs cap" and range: "list_all (\<lambda>n. unat n < nblocks fs) (file_nodes fs st inode)"
    and len: "len = unat (i_size inode)" and whole: "whole = contents fs st (file_leaves fs st inode)"
  shows "wp (read_inode_data ops fs inode) st
     (upon (\<lambda>e st'. st' = st \<and> e = X_Unsupported \<and> length whole < len)
           (\<lambda>out st'. st' = st \<and> len \<le> length whole \<and> out = take len whole))"
    (is "wp _ _ (upon ?E ?P)")
proof -
  let ?c = "\<lambda>k. contents fs st (level (\<lambda>k. leaves k fs st) k (i_blocks inode ! (11 + k)))"
  let ?f = "\<lambda>k out. let block = i_blocks inode ! (11 + k) in
              if length out < len \<and> block \<noteq> 0 then read_tree k ops fs len block out else xok out"
  define d where "d = contents fs st (direct_blocks inode)"
  have tk: "take len (take len xs @ ys) = take len (xs @ ys)" for xs ys :: bytes by (simp add: min_def)
  have step: "wp (?f k (take len xs)) st (upon E (\<lambda>out st'. st' = st \<and> out = take len (xs @ ?c k)))" if "k \<in> {1, 2, 3}" for k xs E
  proof -
    have "list_all (\<lambda>n. unat n < nblocks fs) (level (\<lambda>k. tree_nodes k fs st) k (i_blocks inode ! (11 + k)))"
      using that range by (auto simp: file_nodes_def)
    from wp_read_level [OF fs this, of "take len xs" len E] show ?thesis by (simp only: Let_def tk length_take min.cobounded2)
  qed
  have direct: "wp (xfold (read_tree 0 ops fs len) (direct_blocks inode) []) st
      (upon ?E (\<lambda>out st'. st' = st \<and> out = take len ([] @ contents fs st (concat (map (leaves 0 fs st) (direct_blocks inode))))))"
    by (rule wp_read_trees, rule wp_read_tree [OF fs]) (use range in \<open>auto simp: file_nodes_def list_all_iff\<close>)
  have lv0: "concat (map (leaves 0 fs st) bs) = bs" for bs by (induction bs) simp_all
  have w: "whole = ((d @ ?c 1) @ ?c 2) @ ?c 3"
    by (simp add: whole d_def file_leaves_def)
  have levels: "wp (xfold ?f [1, 2, 3] (take len d)) st (upon ?E (\<lambda>out st'. st' = st \<and> out = take len whole))"
    unfolding xfold.simps w
    by (rule wpx_bindI [OF step], simp, elim conjE, hypsubst, rule wpx_bindI [OF step], simp, elim conjE, hypsubst,
        rule wpx_bindI [OF step], simp, elim conjE, hypsubst, rule wpx_ok, simp)
  have main: "wp (if len = 0 then xok [] else
      xbind (xfold (read_tree 0 ops fs len) (direct_blocks inode) []) (\<lambda>direct. xbind (xfold ?f [1, 2, 3] direct) (\<lambda>out.
      if length out = len then xok out else xfail X_Unsupported))) st (upon ?E ?P)"
  proof (cases "len = 0")
    case False
    show ?thesis
      unfolding if_not_P [OF False]
      by (rule wpx_bindI [OF direct [unfolded lv0, simplified, folded d_def]], elim conjE, hypsubst, rule wpx_bindI [OF levels])
         (auto intro!: wpx_ok wpx_fail)
  qed (simp add: wpx_ok)
  show ?thesis
    unfolding read_inode_data_def len [symmetric] Let_def [of len] ext2_consts direct_blocks_def [symmetric]
    by (rule wp_reserve) (rule main)
qed

end

section \<open>Writing\<close>

text \<open>
  The pointer \<open>b\<close> of depth \<open>k\<close> covers the data blocks \<open>bs\<close>, all of its tree in use and its
  pointer blocks taken since \<open>st0\<close>.
\<close>

definition covers :: "nat \<Rightarrow> Ext2Fs \<Rightarrow> store \<Rightarrow> store \<Rightarrow> u32 \<Rightarrow> u32 list \<Rightarrow> bool" where
  "covers k fs st0 st b bs \<longleftrightarrow>
     level (\<lambda>k. leaves k fs st) k b = bs \<and> list_all (held fs st) (level (\<lambda>k. tree_nodes k fs st) k b) \<and>
     (\<forall>n \<in> set (level (\<lambda>k. tree_nodes k fs st) k b). n \<in> set bs \<or> \<not> busy fs st0 (unat n))"

lemma covers_grows: "covers k fs st0 st b bs \<Longrightarrow> grows fs st st' \<Longrightarrow> covers k fs st0 st' b bs"
  using tree_grows [of fs st k b st'] held_grows by (cases "b = 0") (auto simp: covers_def list_all_iff)

lemma covers_down: "covers k fs st1 st b bs \<Longrightarrow> grows fs st0 st1 \<Longrightarrow> covers k fs st0 st b bs"
  using not_busy_grows by (auto simp: covers_def list_all_iff held_def)

lemma pad_chunks: "\<exists>zs. concat (map pad (chunks 1024 data)) = data @ zs"
proof (induction "1024 :: nat" data rule: chunks.induct)
  case (1 data)
  show ?case
  proof (cases "data = []")
    case False
    with 1 obtain zs where "concat (map pad (chunks 1024 (drop 1024 data))) = drop 1024 data @ zs" by auto
    moreover have "pad (take 1024 data) = take 1024 data" if "1024 \<le> length data" using that by (simp add: pad_def)
    moreover have "chunks 1024 (drop 1024 data) = []" "pad (take 1024 data) = data @ replicate (1024 - length data) 0"
      if "length data < 1024" using that by (simp_all add: chunks.simps pad_def)
    ultimately show ?thesis
      using False by (subst chunks.simps, cases "length data < 1024") (simp_all add: append_assoc [symmetric] del: append_assoc)
  qed (simp add: chunks.simps)
qed

lemma contents_stored:
  assumes "list_all2 (\<lambda>piece b. stored fs piece b st st') pieces bs"
  shows "contents fs st' bs = concat (map pad pieces)" "list_all (held fs st') bs" "list_all (\<lambda>b. \<not> busy fs st (unat b)) bs"
  using assms by (induction rule: list_all2_induct) (simp_all add: stored_def)

text \<open>The pointers of an inode over the data blocks \<open>bs\<close>, twelve of them direct.\<close>

definition spread :: "Ext2Fs \<Rightarrow> store \<Rightarrow> store \<Rightarrow> u32 list \<Rightarrow> u32 list \<Rightarrow> bool" where
  "spread fs st0 st bs blocks \<longleftrightarrow>
     (\<exists>b1 b2 b3. blocks = (take 12 bs @ replicate (15 - length (take 12 bs)) 0)[12 := b1, 13 := b2, 14 := b3] \<and>
        covers 1 fs st0 st b1 (take 256 (drop 12 bs)) \<and>
        covers 2 fs st0 st b2 (take (256 * 256) (drop 256 (drop 12 bs))) \<and>
        covers 3 fs st0 st b3 (drop (256 + 256 * 256) (drop 12 bs)))"

context ext2_device
begin

lemma wp_write_level:
  assumes "blocks_ok fs cap" and "meta_busy fs st" and "list_all (held fs st) bs" and "length bs \<le> 256 ^ k"
    and "blocks ! (11 + k) = 0"
  shows "wp (write_level ops fs k bs blocks) st (upon (out_of_space fs st)
     (\<lambda>blocks' st'. grows fs st st' \<and> (\<exists>b. blocks' = blocks[11 + k := b] \<and> covers k fs st st' b bs)))"
proof (cases "bs = []")
  case True
  have "blocks[11 + k := 0] = blocks" using assms(5) by (metis list_update_id)
  then show ?thesis using True by (auto simp: write_level_def covers_def intro!: wpx_ok exI [of _ 0])
next
  case False
  have "covers k fs st st' b bs" if "built k fs bs b st st'" for b st'
    using that built_root [OF that] by (simp add: covers_def built_def)
  then show ?thesis
    unfolding write_level_def if_not_P [OF False]
    by (intro wpx_bindI [OF wp_write_tree [OF assms(1-3) False assms(4)]] wpx_ok) auto
qed

lemma wp_write_levels:
  assumes ok: "blocks_ok fs cap" and meta: "meta_busy fs st" and held: "list_all (held fs st) bs"
    and len: "length bs \<le> 12 + 256 + 256 * 256 + 256 * 256 * 256" and b0: "blocks0 = take 12 bs @ replicate (15 - length (take 12 bs)) 0"
  shows "wp (xbind (write_level ops fs 1 (take 256 (drop 12 bs)) blocks0) (\<lambda>blocks1.
      xbind (write_level ops fs 2 (take (256 * 256) (drop 256 (drop 12 bs))) blocks1) (\<lambda>blocks2.
      write_level ops fs 3 (drop (256 + 256 * 256) (drop 12 bs)) blocks2))) st (upon (out_of_space fs st)
     (\<lambda>blocks st'. grows fs st st' \<and> spread fs st st' bs blocks))"
    (is "wp (xbind ?m1 (\<lambda>blocks1. ?m2 blocks1)) _ ?Q")
proof -
  have z: "length blocks0 = 15" "blocks0 ! 12 = 0" "blocks0 ! 13 = 0" "blocks0 ! 14 = 0"
    by (auto simp: b0 nth_append)
  have sub: "list_all (held fs st') cs" if "set cs \<subseteq> set bs" "grows fs st st'" for cs st'
    using that(1) held held_grows [OF _ that(2)] by (auto simp: list_all_iff)
  have l3: "wp (write_level ops fs 3 (drop (256 + 256 * 256) (drop 12 bs)) (blocks0[12 := b1, 13 := b2])) st2 ?Q"
    if "grows fs st st2" "covers 1 fs st st2 b1 (take 256 (drop 12 bs))" "covers 2 fs st st2 b2 (take (256 * 256) (drop 256 (drop 12 bs)))"
    for b1 b2 st2
  proof (rule wpx_upon_conseq [OF wp_out_of_space [OF wp_write_level [OF ok meta_busy_grows [OF meta that(1)]] that(1)]])
    show "list_all (held fs st2) (drop (256 + 256 * 256) (drop 12 bs))"
      by (rule sub [OF _ that(1)]) (auto dest: in_set_dropD)
    fix blocks st'
    assume "grows fs st2 st' \<and> (\<exists>b. blocks = blocks0[12 := b1, 13 := b2, 11 + 3 := b] \<and>
        covers 3 fs st2 st' b (drop (256 + 256 * 256) (drop 12 bs)))"
    then obtain b3 where 3: "grows fs st2 st'" "blocks = blocks0[12 := b1, 13 := b2, 14 := b3]"
        "covers 3 fs st2 st' b3 (drop (256 + 256 * 256) (drop 12 bs))" by auto
    have "spread fs st st' bs blocks"
      unfolding spread_def b0 [symmetric] 3(2)
      using covers_grows [OF that(2) 3(1)] covers_grows [OF that(3) 3(1)] covers_down [OF 3(3) that(1)] by blast
    then show "grows fs st st' \<and> spread fs st st' bs blocks" using grows_trans [OF that(1) 3(1)] by blast
  qed (use z len in simp_all)
  have l2: "wp (?m2 (blocks0[12 := b1])) st1 ?Q" if "grows fs st st1" "covers 1 fs st st1 b1 (take 256 (drop 12 bs))" for b1 st1
  proof (rule wpx_bindI [OF wp_out_of_space [OF wp_write_level [OF ok meta_busy_grows [OF meta that(1)]] that(1)]])
    show "list_all (held fs st1) (take (256 * 256) (drop 256 (drop 12 bs)))"
      by (rule sub [OF _ that(1)]) (auto dest: in_set_takeD in_set_dropD)
    fix blocks2 st2
    assume "grows fs st1 st2 \<and> (\<exists>b. blocks2 = blocks0[12 := b1, 11 + 2 := b] \<and>
        covers 2 fs st1 st2 b (take (256 * 256) (drop 256 (drop 12 bs))))"
    then obtain b2 where 2: "grows fs st1 st2" "blocks2 = blocks0[12 := b1, 13 := b2]"
        "covers 2 fs st1 st2 b2 (take (256 * 256) (drop 256 (drop 12 bs)))" by auto
    show "wp (write_level ops fs 3 (drop (256 + 256 * 256) (drop 12 bs)) blocks2) st2 ?Q"
      unfolding 2(2) by (rule l3 [OF grows_trans [OF that(1) 2(1)] covers_grows [OF that(2) 2(1)] covers_down [OF 2(3) that(1)]])
  qed (use z in simp_all)
  show ?thesis
  proof (rule wpx_bindI [OF wp_write_level [OF ok meta]])
    show "list_all (held fs st) (take 256 (drop 12 bs))"
      by (rule sub) (auto dest: in_set_takeD in_set_dropD)
    show "wp (?m2 blocks1) st1 ?Q"
      if "grows fs st st1 \<and> (\<exists>b. blocks1 = blocks0[11 + 1 := b] \<and> covers 1 fs st st1 b (take 256 (drop 12 bs)))" for blocks1 st1
      using that l2 by auto
  qed (use z in simp_all)
qed

end

lemma spread_file:
  assumes "spread fs st0 st bs (i_blocks inode)" and held: "list_all (held fs st) bs"
  shows "length (i_blocks inode) = 15" "file_leaves fs st inode = bs" "list_all (held fs st) (file_nodes fs st inode)"
    "\<forall>n \<in> set (file_nodes fs st inode). n \<in> set bs \<or> \<not> busy fs st0 (unat n)"
proof -
  define b0 where "b0 = take 12 bs @ replicate (15 - length (take 12 bs)) 0"
  obtain b1 b2 b3 where b: "i_blocks inode = b0[12 := b1, 13 := b2, 14 := b3]"
      and c: "covers 1 fs st0 st b1 (take 256 (drop 12 bs))" "covers 2 fs st0 st b2 (take (256 * 256) (drop 256 (drop 12 bs)))"
      "covers 3 fs st0 st b3 (drop (256 + 256 * 256) (drop 12 bs))"
    using assms(1) unfolding spread_def b0_def by blast
  have len: "length b0 = 15" by (simp add: b0_def)
  show "length (i_blocks inode) = 15" by (simp add: b len)
  have nz: "\<forall>x \<in> set bs. x \<noteq> 0" using held by (auto simp: list_all_iff held_def plain_def)
  have "take 12 (i_blocks inode) = take 12 b0" by (simp add: b)
  also have "\<dots> = take 12 bs @ replicate (12 - length (take 12 bs)) 0" by (auto simp: b0_def min_def)
  finally have direct: "direct_blocks inode = take 12 bs"
    using nz by (auto simp: direct_blocks_def filter_id_conv dest: in_set_takeD)
  have at: "i_blocks inode ! 12 = b1" "i_blocks inode ! 13 = b2" "i_blocks inode ! 14 = b3" by (simp_all add: b len)
  define r where "r = drop 12 bs"
  have "drop (256 + 256 * 256) r = drop (256 * 256) (drop 256 r)" by simp
  then have "take 256 r @ take (256 * 256) (drop 256 r) @ drop (256 + 256 * 256) r = r" by (simp only: append_take_drop_id)
  then show "file_leaves fs st inode = bs"
    using c append_take_drop_id [of 12 bs] unfolding file_leaves_def direct at covers_def by (simp add: r_def)
  show "list_all (held fs st) (file_nodes fs st inode)"
    using c held unfolding file_nodes_def direct at covers_def by (auto simp: list_all_iff dest: in_set_takeD)
  show "\<forall>n \<in> set (file_nodes fs st inode). n \<in> set bs \<or> \<not> busy fs st0 (unat n)"
    using c unfolding file_nodes_def direct at covers_def by (auto dest: in_set_takeD in_set_dropD)
qed

text \<open>Every block in use outside \<open>S\<close> stays in use, and keeps its contents unless it is a bitmap.\<close>

definition spares :: "Ext2Fs \<Rightarrow> store \<Rightarrow> u32 set \<Rightarrow> store \<Rightarrow> bool" where
  "spares fs st S st' \<longleftrightarrow>
     (\<forall>n < nblocks fs. busy fs st n \<and> n \<notin> unat ` S \<longrightarrow>
        busy fs st' n \<and> (n \<notin> bitmap_blocks fs \<longrightarrow> blkv fs st' n = blkv fs st n))"

lemma sparesI: "freed fs st S st1 \<Longrightarrow> grows fs st1 st' \<Longrightarrow> spares fs st S st'"
  by (auto simp: freed_def grows_def spares_def)

lemma meta_busy_freed:
  assumes "meta_busy fs st" and "freed fs st S st'" and "\<forall>b \<in> S. plain fs b"
  shows "meta_busy fs st'"
  unfolding meta_busy_def
proof (intro allI impI)
  fix n
  assume n: "n < nblocks fs" "n = 0 \<or> n \<in> bitmap_blocks fs"
  have "n \<notin> unat ` S" using n assms(3) by (auto simp: plain_def unat_eq_zero)
  then show "busy fs st' n" using n assms(1,2) by (auto simp: meta_busy_def freed_def)
qed

definition max_file_blocks :: nat where
  "max_file_blocks = 12 + 256 + 256 * 256 + 256 * 256 * 256"

definition blocks_for :: "bytes \<Rightarrow> nat" where
  "blocks_for data = (length data + 1024 - 1) div 1024"

text \<open>What a write that fails leaves, and what a write that succeeds leaves.\<close>

definition write_failed :: "Ext2Fs \<Rightarrow> store \<Rightarrow> Inode \<Rightarrow> bytes \<Rightarrow> Ext2Error \<Rightarrow> store \<Rightarrow> bool" where
  "write_failed fs st inode data e st' \<longleftrightarrow>
     spares fs st (set (file_nodes fs st inode)) st' \<and>
     (e = X_NoSpace \<and> disk_full fs st' \<or> e = X_Unsupported \<and> max_file_blocks < blocks_for data)"

definition file_holds :: "Ext2Fs \<Rightarrow> store \<Rightarrow> Inode \<Rightarrow> bytes \<Rightarrow> bool" where
  "file_holds fs st inode data \<longleftrightarrow>
     length (i_blocks inode) = 15 \<and> unat (i_size inode) = length data \<and>
     list_all (held fs st) (file_nodes fs st inode) \<and>
     length data \<le> length (contents fs st (file_leaves fs st inode)) \<and>
     take (length data) (contents fs st (file_leaves fs st inode)) = data"

definition write_done :: "Ext2Fs \<Rightarrow> store \<Rightarrow> Inode \<Rightarrow> bytes \<Rightarrow> Inode \<Rightarrow> store \<Rightarrow> bool" where
  "write_done fs st inode data inode' st' \<longleftrightarrow>
     spares fs st (set (file_nodes fs st inode)) st' \<and> meta_busy fs st' \<and> file_holds fs st' inode' data \<and>
     (\<forall>n \<in> set (file_nodes fs st' inode'). n \<in> set (file_nodes fs st inode) \<or> \<not> busy fs st (unat n)) \<and>
     i_mode inode' = i_mode inode \<and> i_uid inode' = i_uid inode \<and> i_gid inode' = i_gid inode \<and> i_links inode' = i_links inode"

lemma write_doneI:
  assumes "freed fs st (set (file_nodes fs st inode)) st1" and "meta_busy fs st1" and "grows fs st1 st2" and "grows fs st2 st3"
    and "spread fs st2 st3 bs blocks" and "list_all (held fs st2) bs" and "list_all (\<lambda>b. \<not> busy fs st1 (unat b)) bs"
    and "contents fs st2 bs = concat (map pad (chunks 1024 data))" and "length data \<le> max_file_blocks * 1024"
  shows "write_done fs st inode data (inode\<lparr>i_blocks := blocks, i_size := of_nat (length data), i_mtime := now, i_ctime := now\<rparr>) st3"
proof -
  define inode' where "inode' = inode\<lparr>i_blocks := blocks, i_size := of_nat (length data), i_mtime := now, i_ctime := now\<rparr>"
  have held: "list_all (held fs st3) bs" using assms(6) held_grows [OF _ assms(4)] by (auto simp: list_all_iff)
  have sp: "spread fs st2 st3 bs (i_blocks inode')" using assms(5) by (simp add: inode'_def)
  have "length data < 2 ^ 64" using assms(9) by (simp add: max_file_blocks_def)
  then have "unat (i_size inode') = length data" by (simp add: inode'_def unat_of_nat)
  moreover obtain zs where "contents fs st3 bs = data @ zs"
    using contents_grows [OF assms(6,4)] assms(8) pad_chunks [of data] by auto
  ultimately have "file_holds fs st3 inode' data"
    using spread_file [OF sp held] by (simp add: file_holds_def)
  moreover have "n \<in> set (file_nodes fs st inode) \<or> \<not> busy fs st (unat n)" if n: "n \<in> set (file_nodes fs st3 inode')" for n
  proof -
    have "plain fs n" using spread_file(3) [OF sp held] n by (auto simp: list_all_iff held_def)
    moreover have "n \<in> set bs \<or> \<not> busy fs st2 (unat n)" using spread_file(4) [OF sp held] n by blast
    ultimately have "\<not> busy fs st1 (unat n)" "unat n < nblocks fs"
      using assms(7) not_busy_grows [OF _ assms(3)] by (auto simp: list_all_iff plain_def)
    then show ?thesis using assms(1) by (auto simp: freed_def word_unat_eq_iff [symmetric])
  qed
  ultimately show ?thesis
    using sparesI [OF assms(1)] grows_trans [OF assms(3,4)] meta_busy_grows [OF assms(2)]
    unfolding inode'_def write_done_def by auto
qed

context ext2_device
begin

lemma wp_write_inode_data:
  assumes ok: "blocks_ok fs cap" and meta: "meta_busy fs st" and plain: "list_all (plain fs) (file_nodes fs st inode)"
  shows "wp (write_inode_data ops fs inode data) st (upon (write_failed fs st inode data) (write_done fs st inode data))"
proof -
  let ?S = "set (file_nodes fs st inode)" and ?Q = "upon (write_failed fs st inode data) (write_done fs st inode data)"
  have size: "fs_block_size fs = 1024" using ok by (simp add: blocks_ok_def geom_def)
  have "\<forall>b \<in> ?S. plain fs b" using plain by (simp add: list_all_iff)
  note meta1 = meta_busy_freed [OF meta _ this]
  have fail: "wp m st2 (upon (write_failed fs st inode data) P)"
    if "freed fs st ?S st1" "grows fs st1 st2" "wp m st2 (upon (out_of_space fs st2) P)" for m st1 st2 and P :: "'x \<Rightarrow> store \<Rightarrow> bool"
    by (rule wpx_upon_conseq [OF that(3)])
       (use sparesI [OF that(1)] grows_trans [OF that(2)] in \<open>auto simp: write_failed_def out_of_space_def\<close>)
  have rest: "wp (xbind (write_data_blocks ops fs data) (\<lambda>data_blocks.
      let direct = take 12 data_blocks; rest = drop 12 data_blocks; blocks0 = direct @ replicate (15 - length direct) 0
      in xbind (write_level ops fs 1 (take 256 rest) blocks0) (\<lambda>blocks1.
         xbind (write_level ops fs 2 (take (256 * 256) (drop 256 rest)) blocks1) (\<lambda>blocks2.
         xbind (write_level ops fs 3 (drop (256 + 256 * 256) rest) blocks2) (\<lambda>blocks3.
         xbind (current_ext2_time ops) (\<lambda>now.
         xok (inode\<lparr>i_blocks := blocks3, i_size := of_nat (length data), i_mtime := now, i_ctime := now\<rparr>))))))) st1 ?Q"
    if st1: "freed fs st ?S st1" and fits: "blocks_for data \<le> max_file_blocks" for st1
  proof (rule wpx_bindI [OF fail [OF st1 grows_refl wp_write_data_blocks [OF ok meta1 [OF st1]]]])
    fix bs st2
    assume bs: "grows fs st1 st2 \<and> list_all2 (\<lambda>piece b. stored fs piece b st1 st2) (chunks 1024 data) bs"
    then have g: "grows fs st1 st2" and held: "list_all (held fs st2) bs" and
        fresh: "list_all (\<lambda>b. \<not> busy fs st1 (unat b)) bs" and cont: "contents fs st2 bs = concat (map pad (chunks 1024 data))"
      using contents_stored [of fs st1 st2 "chunks 1024 data" bs] by simp_all
    have room: "length data \<le> max_file_blocks * 1024"
      using fits unfolding blocks_for_def by (subst (asm) div_ceil_le) simp_all
    have "length bs \<le> max_file_blocks"
      using bs length_chunks [OF _ room] by (auto dest: list_all2_lengthD)
    note levels = wp_write_levels [OF ok meta_busy_grows [OF meta1 [OF st1] g] held this [unfolded max_file_blocks_def] refl]
    have fin: "write_done fs st inode data (inode\<lparr>i_blocks := blocks, i_size := of_nat (length data), i_mtime := now, i_ctime := now\<rparr>) st3"
      if "grows fs st2 st3 \<and> spread fs st2 st3 bs blocks" for blocks st3 now
      using write_doneI [OF st1 meta1 [OF st1] g _ _ held fresh cont room] that by blast
    show "wp (let direct = take 12 bs; rest = drop 12 bs; blocks0 = direct @ replicate (15 - length direct) 0
      in xbind (write_level ops fs 1 (take 256 rest) blocks0) (\<lambda>blocks1.
         xbind (write_level ops fs 2 (take (256 * 256) (drop 256 rest)) blocks1) (\<lambda>blocks2.
         xbind (write_level ops fs 3 (drop (256 + 256 * 256) rest) blocks2) (\<lambda>blocks3.
         xbind (current_ext2_time ops) (\<lambda>now.
         xok (inode\<lparr>i_blocks := blocks3, i_size := of_nat (length data), i_mtime := now, i_ctime := now\<rparr>)))))) st2 ?Q"
      unfolding Let_def xbind_assoc [symmetric]
      by (rule wpx_bindI [OF fail [OF st1 g levels [unfolded xbind_assoc [symmetric]]]], rule wpx_bind, rule wp_time, rule wpx_ok, rule fin)
  qed
  have ppb: "(1024 div 4 :: nat) = 256" by simp
  show ?thesis
    unfolding write_inode_data_def size ext2_consts ppb Let_def [of "256 :: nat"]
      blocks_for_def [symmetric] max_file_blocks_def [symmetric] Let_def [of "blocks_for data"]
  proof (rule wpx_bindI [OF wp_free_inode_blocks [OF ok plain]], rule wpx_if)
    fix u :: unit and st1
    assume st1: "freed fs st ?S st1" and "blocks_for data > max_file_blocks"
    then show "wp (xfail X_Unsupported) st1 ?Q"
      using sparesI [OF st1 grows_refl] by (intro wpx_fail) (simp add: write_failed_def)
  qed (rule rest, simp_all)
qed

end

end
