(* ===== verification/Ext2_Table.thy ===== *)
theory Ext2_Table
  imports Ext2_Inode
begin

text \<open>
  The inode table of \<open>kernel/src/fs/ext2.rs\<close>: the bytes of an inode, and writing and reading
  one in its slot.
\<close>

section \<open>The bytes of an inode\<close>

lemma split_u32: "ucast (ucast w :: u16) OR push_bit 16 (ucast (ucast (drop_bit 16 w) :: u16)) = (w :: u32)"
  by (rule bit_eqI) (auto simp: bit_simps)

lemma split_u64: "ucast (ucast w :: u32) OR push_bit 32 (ucast (ucast (drop_bit 32 w) :: u32)) = (w :: u64)"
  by (rule bit_eqI) (auto simp: bit_simps)

definition put_blocks :: "u32 list \<Rightarrow> nat \<Rightarrow> bytes \<Rightarrow> bytes" where
  "put_blocks bs m raw = fold (\<lambda>i raw. put_u32 raw (40 + i * 4) (bs ! i)) [0..<m] raw"

lemma put_blocks:
  assumes "m \<le> 15" and "length raw = 128"
  shows "length (put_blocks bs m raw) = 128" and "i < m \<Longrightarrow> le_u32 (put_blocks bs m raw) (40 + i * 4) = bs ! i"
    and "at + 4 \<le> 40 \<or> 100 \<le> at \<and> at \<le> 124 \<Longrightarrow> le_u32 (put_blocks bs m raw) at = le_u32 raw at"
    and "at + 2 \<le> 40 \<or> 100 \<le> at \<and> at \<le> 126 \<Longrightarrow> le_u16 (put_blocks bs m raw) at = le_u16 raw at"
  using assms(1)
proof (induction m arbitrary: i)
  case (Suc m)
  have step: "put_blocks bs (Suc m) raw = put_u32 (put_blocks bs m raw) (40 + m * 4) (bs ! m)" by (simp add: put_blocks_def)
  {
    case 1
    then show ?case using Suc.IH(1) by (simp add: step)
  next
    case 2
    show ?case
    proof (cases "i = m")
      case True
      then show ?thesis using Suc.IH(1) 2 by (simp add: step)
    next
      case False
      then have "40 + i * 4 + 4 \<le> 40 + m * 4" "i < m" using 2 by simp_all
      then show ?thesis using Suc.IH(1,2) 2 by (simp add: step le_put_other)
    qed
  next
    case 3
    then have "40 + m * 4 + 4 \<le> at \<or> at + 4 \<le> 40 + m * 4" "at + 4 \<le> 128" by auto
    then show ?case using Suc.IH(1,3) 3 by (simp add: step le_put_other)
  next
    case 4
    then have "40 + m * 4 + 4 \<le> at \<or> at + 2 \<le> 40 + m * 4" "at + 2 \<le> 128" by auto
    then show ?case using Suc.IH(1,4) 4 by (simp add: step le_put_other)
  }
qed (simp_all add: put_blocks_def assms(2))

lemma parse_encode:
  assumes "length (i_blocks inode) = 15" and "is_file inode \<or> drop_bit 32 (i_size inode) = 0"
  shows "length (encode_inode sectors inode) = 128" "parse_inode (encode_inode sectors inode) = inode"
proof -
  define r1 where "r1 = put_u32 (put_u16 (put_u16 (replicate 128 0) 0 (i_mode inode)) 2 (ucast (i_uid inode))) 4 (ucast (i_size inode))"
  define r2 where "r2 = put_u32 (put_u32 (put_u32 r1 8 (i_atime inode)) 12 (i_ctime inode)) 16 (i_mtime inode)"
  define r3 where "r3 = put_u32 (put_u16 (put_u16 r2 24 (ucast (i_gid inode))) 26 (i_links inode)) 28 sectors"
  define r4 where "r4 = put_blocks (i_blocks inode) 15 r3"
  define r5 where "r5 = put_u16 (put_u16 (put_u32 r4 108 (ucast (drop_bit 32 (i_size inode)))) 120 (ucast (drop_bit 16 (i_uid inode))))
     122 (ucast (drop_bit 16 (i_gid inode)))"
  have enc: "encode_inode sectors inode = r5"
    by (simp add: encode_inode_def Let_def ext2_consts r1_def r2_def r3_def r4_def r5_def put_blocks_def)
  have l1: "length r1 = 128" by (simp add: r1_def)
  have l2: "length r2 = 128" by (simp add: r2_def l1)
  have l3: "length r3 = 128" by (simp add: r3_def l2)
  note r4 = put_blocks [OF order_refl l3, where bs = "i_blocks inode", folded r4_def]
  show "length (encode_inode sectors inode) = 128" by (simp add: enc r5_def r4(1))
  have f1: "le_u16 r1 0 = i_mode inode" "le_u16 r1 2 = ucast (i_uid inode)" "le_u32 r1 4 = ucast (i_size inode)"
    by (simp_all add: r1_def le_put_other)
  have f2: "le_u32 r2 8 = i_atime inode" "le_u32 r2 12 = i_ctime inode" "le_u32 r2 16 = i_mtime inode"
      "le_u16 r2 0 = le_u16 r1 0" "le_u16 r2 2 = le_u16 r1 2" "le_u32 r2 4 = le_u32 r1 4"
    by (simp_all add: r2_def l1 le_put_other)
  have f3: "le_u16 r3 24 = ucast (i_gid inode)" "le_u16 r3 26 = i_links inode"
      "le_u16 r3 0 = le_u16 r2 0" "le_u16 r3 2 = le_u16 r2 2" "le_u32 r3 4 = le_u32 r2 4"
      "le_u32 r3 8 = le_u32 r2 8" "le_u32 r3 12 = le_u32 r2 12" "le_u32 r3 16 = le_u32 r2 16"
    by (simp_all add: r3_def l2 le_put_other)
  have f5: "le_u32 r5 108 = ucast (drop_bit 32 (i_size inode))" "le_u16 r5 120 = ucast (drop_bit 16 (i_uid inode))"
      "le_u16 r5 122 = ucast (drop_bit 16 (i_gid inode))"
    by (simp_all add: r5_def r4(1) le_put_other)
  have low: "le_u32 r5 at = le_u32 r4 at" "le_u16 r5 at = le_u16 r4 at" if "at \<le> 96" for at
    using that by (simp_all add: r5_def r4(1) le_put_other)
  have "map (\<lambda>i. le_u32 r5 (40 + i * 4)) [0..<15] = map (\<lambda>i. i_blocks inode ! i) [0..<15]"
    by (rule map_cong) (auto simp: low r4(2))
  also have "\<dots> = i_blocks inode" using map_nth [of "i_blocks inode"] assms(1) by simp
  finally have blocks: "map (\<lambda>i. le_u32 r5 (40 + i * 4)) [0..<15] = i_blocks inode" .
  have ucast_low: "ucast (ucast (i_size inode) :: u32) = i_size inode" if "\<not> is_file inode"
    using that assms(2) split_u64 [of "i_size inode"] by simp
  show "parse_inode (encode_inode sectors inode) = inode"
    unfolding enc parse_inode_def Let_def EXT2_N_BLOCKS_def blocks
    using ucast_low by (auto simp: low r4(3,4) f1 f2 f3 f5 split_u32 split_u64 is_file_def)
qed

section \<open>Slots\<close>

text \<open>The inodes of every group have a table on the disk, no two tables overlap, and a slot does not cross a block.\<close>

definition table_start :: "Ext2Fs \<Rightarrow> nat \<Rightarrow> nat" where
  "table_start fs g = unat (g_inode_table (fs_groups fs ! g)) * 1024"

abbreviation ipg :: "Ext2Fs \<Rightarrow> nat" where "ipg fs \<equiv> unat (fs_inodes_per_group fs)"

definition tables_ok :: "Ext2Fs \<Rightarrow> bool" where
  "tables_ok fs \<longleftrightarrow>
     fs_block_size fs = 1024 \<and> 128 \<le> fs_inode_size fs \<and> fs_inode_size fs dvd 1024 \<and> 0 < ipg fs \<and>
     unat (fs_inodes_count fs) \<le> length (fs_groups fs) * ipg fs \<and>
     (\<forall>g < length (fs_groups fs). table_start fs g + ipg fs * fs_inode_size fs \<le> nblocks fs * 1024 \<and>
        (\<forall>h < g. table_start fs g + ipg fs * fs_inode_size fs \<le> table_start fs h \<or>
                 table_start fs h + ipg fs * fs_inode_size fs \<le> table_start fs g))"

definition slot :: "Ext2Fs \<Rightarrow> u32 \<Rightarrow> nat" where
  "slot fs ino =
     (let n = unat ino - 1 in table_start fs (n div ipg fs) + n mod ipg fs * fs_inode_size fs)"

definition valid_ino :: "Ext2Fs \<Rightarrow> u32 \<Rightarrow> bool" where
  "valid_ino fs ino \<longleftrightarrow> ino \<noteq> 0 \<and> ino \<le> fs_inodes_count fs"

lemma ino_group:
  assumes "tables_ok fs" and "valid_ino fs ino"
  shows "(unat ino - 1) div ipg fs < length (fs_groups fs)" "(unat ino - 1) mod ipg fs < ipg fs"
proof -
  have "unat ino \<noteq> 0" "unat ino \<le> unat (fs_inodes_count fs)"
    using assms(2) by (simp_all add: valid_ino_def word_le_nat_alt unat_eq_zero)
  then have "unat ino - 1 < length (fs_groups fs) * ipg fs" using assms(1) unfolding tables_ok_def by linarith
  then show "(unat ino - 1) div ipg fs < length (fs_groups fs)" by (simp add: less_mult_imp_div_less)
  show "(unat ino - 1) mod ipg fs < ipg fs" using assms(1) by (simp add: tables_ok_def)
qed

lemma slot_bounds:
  assumes "tables_ok fs" and "valid_ino fs ino"
  shows "slot fs ino + fs_inode_size fs \<le> nblocks fs * 1024" "slot fs ino mod 1024 + 128 \<le> 1024" "slot fs ino div 1024 < nblocks fs"
proof -
  let ?n = "unat ino - 1"
  note g = ino_group [OF assms]
  have isz: "128 \<le> fs_inode_size fs" "fs_inode_size fs dvd 1024" using assms(1) by (simp_all add: tables_ok_def)
  have "(?n mod ipg fs + 1) * fs_inode_size fs \<le> ipg fs * fs_inode_size fs"
    by (rule mult_le_mono1) (use g(2) in simp)
  moreover have "table_start fs (?n div ipg fs) + ipg fs * fs_inode_size fs \<le> nblocks fs * 1024"
    using assms(1) g(1) by (simp add: tables_ok_def)
  ultimately show le: "slot fs ino + fs_inode_size fs \<le> nblocks fs * 1024" by (simp add: slot_def Let_def)
  then show "slot fs ino div 1024 < nblocks fs" using isz(1) by (simp add: less_mult_imp_div_less)
  have "fs_inode_size fs dvd slot fs ino mod 1024"
    using isz(2) by (auto simp: slot_def Let_def table_start_def dvd_mod_iff)
  then obtain j where j: "slot fs ino mod 1024 = fs_inode_size fs * j" by auto
  obtain m where m: "1024 = fs_inode_size fs * m" using isz(2) unfolding dvd_def by blast
  have "fs_inode_size fs * j < fs_inode_size fs * m" using j m mod_less_divisor [of 1024 "slot fs ino"] by simp
  then have "j + 1 \<le> m" by simp
  then have "fs_inode_size fs * (j + 1) \<le> fs_inode_size fs * m" by (rule mult_le_mono2)
  then show "slot fs ino mod 1024 + 128 \<le> 1024" using j m isz(1) by simp
qed

lemma slots_apart:
  assumes "tables_ok fs" and "valid_ino fs a" and "valid_ino fs b" and "a \<noteq> b"
  shows "slot fs a + fs_inode_size fs \<le> slot fs b \<or> slot fs b + fs_inode_size fs \<le> slot fs a"
proof -
  let ?i = "unat a - 1" and ?j = "unat b - 1" and ?z = "fs_inode_size fs"
  have "unat a \<noteq> 0" "unat b \<noteq> 0" using assms(2,3) by (simp_all add: valid_ino_def unat_eq_zero)
  moreover have "unat a \<noteq> unat b" using assms(4) word_unat_eq_iff by blast
  ultimately have ne: "?i \<noteq> ?j" by linarith
  have step: "x mod ipg fs * ?z + ?z \<le> y mod ipg fs * ?z" if "x mod ipg fs < y mod ipg fs" for x y
  proof -
    have "(x mod ipg fs + 1) * ?z \<le> y mod ipg fs * ?z" by (rule mult_le_mono1) (use that in simp)
    then show ?thesis by simp
  qed
  show ?thesis
  proof (cases "?i div ipg fs = ?j div ipg fs")
    case True
    then have "?i mod ipg fs \<noteq> ?j mod ipg fs" using ne by (metis div_mult_mod_eq)
    then have "?i mod ipg fs < ?j mod ipg fs \<or> ?j mod ipg fs < ?i mod ipg fs" by linarith
    then show ?thesis using step [of ?i ?j] step [of ?j ?i] True by (auto simp: slot_def Let_def)
  next
    case False
    have top: "x mod ipg fs * ?z + ?z \<le> ipg fs * ?z" if "x mod ipg fs < ipg fs" for x
    proof -
      have "(x mod ipg fs + 1) * ?z \<le> ipg fs * ?z" by (rule mult_le_mono1) (use that in simp)
      then show ?thesis by simp
    qed
    note g = ino_group [OF assms(1,2)] ino_group [OF assms(1,3)]
    have "table_start fs (?i div ipg fs) + ipg fs * ?z \<le> table_start fs (?j div ipg fs) \<or>
        table_start fs (?j div ipg fs) + ipg fs * ?z \<le> table_start fs (?i div ipg fs)"
      using assms(1) False g(1,3) unfolding tables_ok_def by (metis nat_neq_iff)
    then show ?thesis using top [OF g(2)] top [OF g(4)] by (auto simp: slot_def Let_def)
  qed
qed

lemma inode_location_slot:
  assumes "tables_ok fs" and "valid_ino fs ino"
  shows "inode_location fs ino = Ok (slot fs ino div 1024, slot fs ino mod 1024)"
proof -
  have "unat (ino - 1) = unat ino - 1" using assms(2) by (simp add: valid_ino_def unat_minus_one)
  then have "unat ((ino - 1) div fs_inodes_per_group fs) = (unat ino - 1) div ipg fs"
      "unat ((ino - 1) mod fs_inodes_per_group fs) = (unat ino - 1) mod ipg fs"
    by (simp_all add: unat_div unat_mod)
  then show ?thesis
    using assms ino_group [OF assms]
    by (auto simp: inode_location_def valid_ino_def Let_def nth_opt_def slot_def table_start_def tables_ok_def)
qed

section \<open>Reading and writing inodes\<close>

lemma slice_copy: "off + length inp \<le> length data \<Longrightarrow> take (length inp) (drop off (copy_into data off inp)) = inp"
  by (simp add: copy_into_def)

lemma slice_copy_other:
  assumes "off + length inp \<le> length data" and "at + n \<le> length data" and "off + length inp \<le> at \<or> at + n \<le> off"
  shows "take n (drop at (copy_into data off inp)) = take n (drop at data)"
  by (rule nth_equalityI) (use assms in \<open>auto simp: nth_copy_into\<close>)

definition inode_at :: "Ext2Fs \<Rightarrow> store \<Rightarrow> u32 \<Rightarrow> Inode" where
  "inode_at fs st ino =
     parse_inode (take 128 (drop (slot fs ino mod 1024) (blkv fs st (slot fs ino div 1024))))"

definition put_inode :: "Ext2Fs \<Rightarrow> store \<Rightarrow> u32 \<Rightarrow> u32 \<Rightarrow> Inode \<Rightarrow> store" where
  "put_inode fs st ino sectors inode =
     bput fs st (slot fs ino div 1024)
       (copy_into (blkv fs st (slot fs ino div 1024)) (slot fs ino mod 1024) (encode_inode sectors inode))"

lemma inode_at_put:
  assumes ok: "tables_ok fs" "valid_ino fs ino" and len: "\<And>n. length (st n) = 512"
    and inode: "length (i_blocks inode) = 15" "is_file inode \<or> drop_bit 32 (i_size inode) = 0"
  shows "inode_at fs (put_inode fs st ino sectors inode) ino = inode"
    and "valid_ino fs other \<Longrightarrow> other \<noteq> ino \<Longrightarrow> inode_at fs (put_inode fs st ino sectors inode) other = inode_at fs st other"
proof -
  note enc = parse_encode [OF inode, of sectors] and b = slot_bounds [OF ok]
  have L: "length (blkv fs st n) = 1024" for n using blkv_len len by blast
  show "inode_at fs (put_inode fs st ino sectors inode) ino = inode"
    using slice_copy [of "slot fs ino mod 1024" "encode_inode sectors inode"] b(2)
    by (simp add: inode_at_def put_inode_def blkv_bput L enc)
  assume o: "valid_ino fs other" "other \<noteq> ino"
  show "inode_at fs (put_inode fs st ino sectors inode) other = inode_at fs st other"
  proof (cases "slot fs other div 1024 = slot fs ino div 1024")
    case True
    have "slot fs other + 128 \<le> slot fs ino \<or> slot fs ino + 128 \<le> slot fs other"
      using slots_apart [OF ok(1) o(1) ok(2) o(2)] ok(1) unfolding tables_ok_def by linarith
    then have "slot fs ino mod 1024 + 128 \<le> slot fs other mod 1024 \<or> slot fs other mod 1024 + 128 \<le> slot fs ino mod 1024"
      using True div_mult_mod_eq [of "slot fs ino" 1024] div_mult_mod_eq [of "slot fs other" 1024] by linarith
    then show ?thesis
      using True b(2) slot_bounds(2) [OF ok(1) o(1)]
      by (simp add: inode_at_def put_inode_def blkv_bput slice_copy_other enc(1) L)
  next
    case False
    then show ?thesis by (simp add: inode_at_def put_inode_def blkv_bput)
  qed
qed

context ext2_device
begin

lemma wp_try: "wp m st P \<Longrightarrow> wp (xtry m) st (upon E P)"
  unfolding wpx_def xtry_def by fastforce

lemma wp_read_inode:
  assumes "geom fs cap" and "tables_ok fs" and "valid_ino fs ino" and "P (inode_at fs st ino) st"
  shows "wp (read_inode ops fs ino) st (upon E P)"
  unfolding read_inode_def inode_location_slot [OF assms(2,3)]
proof (rule wpx_bind, rule wpx_lift, simp, rule wpx_bind, rule wp_read_block [OF assms(1) slot_bounds(3) [OF assms(2,3)]])
  show "1024 \<le> fs_block_size fs" using assms(1) by (simp add: geom_def)
  show "wp (if length (blkv fs st (slot fs ino div 1024)) < slot fs ino mod 1024 + 128 then xfail X_IoError
      else xok (parse_inode (take 128 (drop (slot fs ino mod 1024) (blkv fs st (slot fs ino div 1024)))))) st (upon E P)"
    if "length (blkv fs st (slot fs ino div 1024)) = 1024"
    using that slot_bounds(2) [OF assms(2,3)] assms(4) by (simp add: inode_at_def wpx_ok)
qed

lemma wp_xfold_same:
  assumes "\<And>y s. y \<in> set xs \<Longrightarrow> wp (f y s) st (upon E (\<lambda>_ st'. st' = st))"
  shows "wp (xfold f xs s) st (upon E (\<lambda>_ st'. st' = st))"
  using assms
proof (induction xs arbitrary: s)
  case (Cons y ys)
  show ?case
    unfolding xfold.simps by (rule wpx_bindI [OF Cons.prems], simp, hypsubst, rule Cons.IH, rule Cons.prems, simp)
qed (simp add: wpx_ok)

lemma wp_count_tree:
  assumes "geom fs cap" and "list_all (\<lambda>n. unat n < nblocks fs) (tree_nodes k fs st b)"
  shows "wp (count_tree k ops fs b) st (upon E (\<lambda>_ st'. st' = st))"
  using assms(2)
proof (induction k arbitrary: b)
  case (Suc k)
  have kids: "list_all (\<lambda>n. unat n < nblocks fs) (tree_nodes k fs st p)" if "p \<in> set (ptrs fs st b)" for p
    using Suc.prems that by (auto simp: list_all_iff)
  have "wp (xfold (\<lambda>child n. xbind (count_tree k ops fs child) (\<lambda>m. xok (n + 1 + m))) (ptrs fs st b) 0) st (upon E (\<lambda>_ st'. st' = st))"
    by (rule wp_xfold_same, rule wpx_bindI [OF Suc.IH [OF kids]], assumption, rule wpx_ok)
  moreover have "wp (read_indirect_blocks ops fs b) st (upon (\<lambda>_ _. False) (\<lambda>xs st'. st' = st \<and> xs = ptrs fs st b))"
    by (rule wp_read_indirect_blocks [OF assms(1)]) (use Suc.prems in simp_all)
  ultimately show ?case
    unfolding count_tree.simps
    by (intro wpx_bind wp_try, elim wpx_conseq) (auto simp: upon_def split: sum.splits)
qed (simp add: wpx_ok)

lemma wp_inode_sector_count:
  assumes "geom fs cap" and "list_all (\<lambda>n. unat n < nblocks fs) (file_nodes fs st inode)"
  shows "wp (inode_sector_count ops fs inode) st (upon E (\<lambda>_ st'. st' = st))"
proof -
  have "wp (let block = i_blocks inode ! (11 + k) in
      if block = 0 then xok n else xbind (count_tree k ops fs block) (\<lambda>m. xok (n + 1 + m))) st (upon E (\<lambda>_ st'. st' = st))"
    if "k \<in> set [1, 2, 3]" for k n
  proof (cases "i_blocks inode ! (11 + k) = 0")
    case False
    then have "list_all (\<lambda>n. unat n < nblocks fs) (tree_nodes k fs st (i_blocks inode ! (11 + k)))"
      using that assms(2) by (auto simp: file_nodes_def)
    then show ?thesis using False by (auto simp: Let_def intro!: wpx_bindI [OF wp_count_tree [OF assms(1)]] wpx_ok)
  qed (simp add: wpx_ok)
  note levels = wp_xfold_same [OF this]
  show ?thesis
    unfolding inode_sector_count_def Let_def [of "length _"]
    by (rule wpx_bindI [OF levels]) (auto intro: wpx_ok)
qed

lemma wp_write_inode:
  assumes ok: "geom fs cap" "tables_ok fs" "valid_ino fs ino" and "list_all (\<lambda>n. unat n < nblocks fs) (file_nodes fs st inode)"
    and "length (i_blocks inode) = 15" "is_file inode \<or> drop_bit 32 (i_size inode) = 0" and "\<And>sectors. P () (put_inode fs st ino sectors inode)"
  shows "wp (write_inode ops fs ino inode) st (upon E P)"
  unfolding write_inode_def inode_location_slot [OF ok(2,3)]
proof (rule wpx_bind, rule wpx_lift, simp, rule wpx_bind, rule wp_read_block [OF ok(1) slot_bounds(3) [OF ok(2,3)]])
  let ?b = "blkv fs st (slot fs ino div 1024)" and ?off = "slot fs ino mod 1024"
  assume L: "length ?b = 1024"
  have "wp (xbind (inode_sector_count ops fs inode) (\<lambda>sectors.
      fs_write_block ops fs (slot fs ino div 1024) (copy_into ?b ?off (encode_inode sectors inode)))) st (upon E P)"
    by (rule wpx_bindI [OF wp_inode_sector_count [OF ok(1) assms(4)]], hypsubst, rule wp_write_block [OF ok(1) slot_bounds(3) [OF ok(2,3)]])
       (use L slot_bounds(2) [OF ok(2,3)] parse_encode(1) [OF assms(5,6)] assms(7) in \<open>simp_all add: put_inode_def\<close>)
  then show "wp (if length ?b < ?off + 128 then xpanic else xbind (inode_sector_count ops fs inode) (\<lambda>sectors.
      fs_write_block ops fs (slot fs ino div 1024) (copy_into ?b ?off (encode_inode sectors inode)))) st (upon E P)"
    using L slot_bounds(2) [OF ok(2,3)] by simp
qed simp

end

end
