(* ===== verification/Ext2_Dir.thy ===== *)
theory Ext2_Dir
  imports Ext2_File
begin

text \<open>
  Directories of \<open>kernel/src/fs/ext2.rs\<close>.  A directory is a sequence of records in its
  data, each with an inode number, the length of the record, the length of the name, a
  type and the name; the records are walked by their lengths.  Entries are inserted into
  and removed from the first block only, as the code does.
\<close>

section \<open>Definitions\<close>

text \<open>The record at an offset: inode, record length and name length.\<close>

definition rec_ino :: "bytes \<Rightarrow> usize \<Rightarrow> u32" where
  "rec_ino data off = le_u32 data off"

definition rec_len :: "bytes \<Rightarrow> usize \<Rightarrow> usize" where
  "rec_len data off = unat (le_u16 data (off + 4))"

definition rec_name_len :: "bytes \<Rightarrow> usize \<Rightarrow> usize" where
  "rec_name_len data off = unat (data ! (off + 6))"

definition rec_name :: "bytes \<Rightarrow> usize \<Rightarrow> bytes" where
  "rec_name data off = take (rec_name_len data off) (drop (off + 8) data)"

definition rec_used :: "bytes \<Rightarrow> usize \<Rightarrow> bool" where
  "rec_used data off \<longleftrightarrow>
     rec_ino data off \<noteq> 0 \<and> rec_name_len data off > 0 \<and> rec_name_len data off \<le> saturating_sub (rec_len data off) 8"

text \<open>The walk ends where no record header fits, or at a record that is too short or runs past the limit.\<close>

definition rec_ends :: "bytes \<Rightarrow> usize \<Rightarrow> usize \<Rightarrow> bool" where
  "rec_ends data limit off \<longleftrightarrow> off + 8 > limit \<or> rec_len data off < 8 \<or> off + rec_len data off > limit"

lemma rec_walk: "\<not> rec_ends data limit off \<Longrightarrow> limit - (off + rec_len data off) < limit - off"
  by (auto simp: rec_ends_def)

function dir_loop :: "bytes \<Rightarrow> usize \<Rightarrow> usize \<Rightarrow> DirEntry list" where
  "dir_loop data limit off =
     (if rec_ends data limit off then []
      else
        (if rec_used data off
         then case from_utf8 (rec_name data off) of
                None \<Rightarrow> [] | Some name \<Rightarrow> [\<lparr>de_ino = rec_ino data off, de_name = name\<rparr>]
         else []) @ dir_loop data limit (off + rec_len data off))"
  by pat_completeness auto
termination
  by (relation "measure (\<lambda>(data, limit, off). limit - off)") (auto simp: rec_walk)

declare dir_loop.simps [simp del]

definition read_dir_entries :: "'d DevOps \<Rightarrow> Ext2Fs \<Rightarrow> Inode \<Rightarrow> ('d, DirEntry list) xio" where
  "read_dir_entries ops fs inode =
     xbind (read_inode_data ops fs inode) (\<lambda>data.
     xok (dir_loop data (min (length data) (unat (i_size inode))) 0))"

definition DOT_NAMES :: "bytes list" where
  "DOT_NAMES = [[DOT], [DOT, DOT]]"

definition is_empty_dir :: "'d DevOps \<Rightarrow> Ext2Fs \<Rightarrow> Inode \<Rightarrow> ('d, bool) xio" where
  "is_empty_dir ops fs inode =
     (if \<not> is_dir inode then xfail X_NotDirectory
      else xbind (read_dir_entries ops fs inode) (\<lambda>entries.
           xok (list_all (\<lambda>e. de_name e \<in> set DOT_NAMES) entries)))"

definition write_dir_record :: "bytes \<Rightarrow> usize \<Rightarrow> u32 \<Rightarrow> u16 \<Rightarrow> bytes \<Rightarrow> u8 \<Rightarrow> bytes" where
  "write_dir_record buf off ino len name file_type =
     (let b1 = put_u32 buf off ino;
          b2 = put_u16 b1 (off + 4) len;
          b3 = b2[off + 6 := of_nat (length name)];
          b4 = b3[off + 7 := file_type]
      in copy_into b4 (off + 8) name)"

text \<open>
  The scan of \<open>insert_dir_entry\<close>: the first record with room for the new one behind its
  name is split.
\<close>

function insert_scan :: "bytes \<Rightarrow> usize \<Rightarrow> u32 \<Rightarrow> bytes \<Rightarrow> u8 \<Rightarrow> usize \<Rightarrow> bytes option" where
  "insert_scan data limit child_ino name file_type off =
     (if rec_ends data limit off then None
      else
        let actual = align4 (8 + rec_name_len data off) in
        if rec_len data off \<ge> actual + align4 (8 + length name)
        then Some (write_dir_record (put_u16 data (off + 4) (of_nat actual)) (off + actual) child_ino
                     (of_nat (rec_len data off - actual)) name file_type)
        else insert_scan data limit child_ino name file_type (off + rec_len data off))"
  by pat_completeness auto
termination
  by (relation "measure (\<lambda>(data, limit, _, _, _, off). limit - off)") (auto simp: rec_walk)

declare insert_scan.simps [simp del]

definition insert_dir_entry ::
    "'d DevOps \<Rightarrow> Ext2Fs \<Rightarrow> Inode \<Rightarrow> u32 \<Rightarrow> bytes \<Rightarrow> u8 \<Rightarrow> ('d, unit) xio" where
  "insert_dir_entry ops fs parent child_ino name file_type =
     (if name = [] \<or> length name > 255 then xfail X_Unsupported
      else
        let block = i_blocks parent ! 0 in
        if block = 0 then xfail X_Unsupported
        else xbind (fs_read_block ops fs (unat block) 1024) (\<lambda>data.
             case insert_scan data (fs_block_size fs) child_ino name file_type 0 of
               None \<Rightarrow> xfail X_DirectoryFull
             | Some data' \<Rightarrow> fs_write_block ops fs (unat block) data'))"

text \<open>The scan of \<open>remove_dir_entry\<close>: the record is merged into the previous one, or its inode is cleared.\<close>

function remove_scan :: "bytes \<Rightarrow> usize \<Rightarrow> bytes \<Rightarrow> usize option \<Rightarrow> usize \<Rightarrow> (u32 \<times> bytes) option" where
  "remove_scan data limit name previous off =
     (if rec_ends data limit off then None
      else if rec_used data off \<and> rec_name data off = name
      then Some (rec_ino data off,
                 case previous of
                   Some p \<Rightarrow> put_u16 data (p + 4) (of_nat (rec_len data p + rec_len data off))
                 | None \<Rightarrow> put_u32 data off 0)
      else remove_scan data limit name (Some off) (off + rec_len data off))"
  by pat_completeness auto
termination
  by (relation "measure (\<lambda>(data, limit, _, _, off). limit - off)") (auto simp: rec_walk)

declare remove_scan.simps [simp del]

definition remove_dir_entry :: "'d DevOps \<Rightarrow> Ext2Fs \<Rightarrow> Inode \<Rightarrow> bytes \<Rightarrow> ('d, u32) xio" where
  "remove_dir_entry ops fs parent name =
     (if name = [] \<or> name \<in> set DOT_NAMES then xfail X_Unsupported
      else
        let block = i_blocks parent ! 0 in
        if block = 0 then xfail X_Unsupported
        else xbind (fs_read_block ops fs (unat block) 1024) (\<lambda>data.
             case remove_scan data (fs_block_size fs) name None 0 of
               None \<Rightarrow> xfail X_NotFound
             | Some (ino, data') \<Rightarrow> xbind (fs_write_block ops fs (unat block) data') (\<lambda>_. xok ino)))"

definition write_dir_block :: "'d DevOps \<Rightarrow> Ext2Fs \<Rightarrow> u32 \<Rightarrow> u32 \<Rightarrow> u32 \<Rightarrow> ('d, unit) xio" where
  "write_dir_block ops fs block self_ino parent_ino =
     fs_write_block ops fs (unat block)
       (write_dir_record (write_dir_record (replicate 1024 0) 0 self_ino 12 [DOT] EXT2_FT_DIR)
          12 parent_ino (of_nat (fs_block_size fs - 12)) [DOT, DOT] EXT2_FT_DIR)"

end
