(* ===== verification/Ext2.thy ===== *)
theory Ext2
  imports Ext2_Dir
begin

text \<open>
  The public operations of \<open>kernel/src/fs/ext2.rs\<close>: mounting, path lookup with symbolic
  links, and every operation the VFS calls.  Path lookup follows at most eight symbolic
  links; its fuel is the number of links left.
\<close>

section \<open>Mounting\<close>

definition mount_at :: "'d DevOps \<Rightarrow> nat \<Rightarrow> ('d, Ext2Fs) xio" where
  "mount_at ops start =
     xbind (read_block_sized ops start 1 1024 1024) (\<lambda>sb.
       if le_u16 sb 56 \<noteq> EXT2_MAGIC then xfail X_InvalidSuperblock
       else
         let inodes_count = le_u32 sb 0; blocks_count = le_u32 sb 4; log_block_size = unat (le_u32 sb 24);
             blocks_per_group = le_u32 sb 32; inodes_per_group = le_u32 sb 40
         in if log_block_size > 2 then xfail X_Unsupported
            else if blocks_per_group = 0 \<or> inodes_per_group = 0 then xfail X_InvalidSuperblock
            else
              let block_size = 1024 * 2 ^ log_block_size;
                  inode_size = (if le_u32 sb 76 \<ge> 1 then max (unat (le_u16 sb 88)) 128 else 128);
                  group_count = (unat blocks_count + unat blocks_per_group - 1) div unat blocks_per_group;
                  desc_table_block = (if block_size = 1024 then 2 else 1);
                  desc_blocks = (group_count * 32 + block_size - 1) div block_size
              in xbind (xmap (\<lambda>b. read_block_sized ops start (desc_table_block + b) block_size block_size)
                          [0..<desc_blocks]) (\<lambda>desc.
                 let desc_data = concat desc in
                 xok \<lparr>fs_start_sector = start, fs_block_size = block_size, fs_blocks_count = blocks_count,
                      fs_inodes_count = inodes_count, fs_blocks_per_group = blocks_per_group,
                      fs_inodes_per_group = inodes_per_group, fs_inode_size = inode_size,
                      fs_groups = map (\<lambda>g. \<lparr>g_block_bitmap = le_u32 desc_data (g * 32),
                                          g_inode_bitmap = le_u32 desc_data (g * 32 + 4),
                                          g_inode_table = le_u32 desc_data (g * 32 + 8)\<rparr>) [0..<group_count],
                      fs_root_ino = EXT2_ROOT_INO\<rparr>))"

definition stats :: "'d DevOps \<Rightarrow> Ext2Fs \<Rightarrow> ('d, Ext2Stats) xio" where
  "stats ops fs =
     xbind (xtry (count_free_blocks ops fs)) (\<lambda>blocks.
     xbind (xtry (count_free_inodes ops fs)) (\<lambda>inodes.
     xok \<lparr>xs_block_size = fs_block_size fs, xs_blocks_count = fs_blocks_count fs,
          xs_inodes_count = fs_inodes_count fs,
          xs_free_blocks_count = of_nat (case blocks of Inr n \<Rightarrow> n | Inl _ \<Rightarrow> 0),
          xs_free_inodes_count = of_nat (case inodes of Inr n \<Rightarrow> n | Inl _ \<Rightarrow> 0),
          xs_groups = length (fs_groups fs)\<rparr>))"

section \<open>Lookup\<close>

definition read_symlink_string :: "'d DevOps \<Rightarrow> Ext2Fs \<Rightarrow> Inode \<Rightarrow> ('d, bytes) xio" where
  "read_symlink_string ops fs inode =
     xbind (read_inode_data ops fs inode) (\<lambda>bs.
     case from_utf8 bs of None \<Rightarrow> xfail X_Unsupported | Some target \<Rightarrow> xok target)"

text \<open>Where the walk continues behind a symbolic link: its target, then the components left.\<close>

definition link_path :: "bytes list \<Rightarrow> bytes \<Rightarrow> bytes list \<Rightarrow> (Ext2Error, bytes) result" where
  "link_path walked target left =
     (let next_path = (if starts_with_slash target then target else join_ext2_path (components_to_path walked) target);
          remaining = components_to_path left
      in normalize_ext2_path
           (if remaining \<noteq> [SLASH] then join_ext2_path next_path (trim_start remaining) else next_path))"

primrec lookup_walk ::
    "bytes list \<Rightarrow> (bytes \<Rightarrow> ('d, u32 \<times> Inode) xio) \<Rightarrow> 'd DevOps \<Rightarrow> Ext2Fs \<Rightarrow> bool \<Rightarrow> bytes list \<Rightarrow> u32 \<times> Inode \<Rightarrow>
     ('d, u32 \<times> Inode) xio" where
  "lookup_walk [] again ops fs follow walked at = xok at"
| "lookup_walk (component # left) again ops fs follow walked at =
     (if \<not> is_dir (snd at) then xfail X_NotDirectory
      else xbind (read_dir_entries ops fs (snd at)) (\<lambda>entries.
           case find (\<lambda>e. de_name e = component) entries of
             None \<Rightarrow> xfail X_NotFound
           | Some entry \<Rightarrow>
               xbind (read_inode ops fs (de_ino entry)) (\<lambda>inode.
               if is_symlink inode \<and> (follow \<or> left \<noteq> [])
               then xbind (read_symlink_string ops fs inode) (\<lambda>target.
                    xbind (xlift (link_path walked target left)) again)
               else lookup_walk left again ops fs follow (walked @ [component]) (de_ino entry, inode))))"

primrec lookup_path_inner :: "nat \<Rightarrow> 'd DevOps \<Rightarrow> Ext2Fs \<Rightarrow> bool \<Rightarrow> bytes \<Rightarrow> ('d, u32 \<times> Inode) xio" where
  "lookup_path_inner 0 ops fs follow path = xfail X_NotFound"
| "lookup_path_inner (Suc k) ops fs follow path =
     xbind (xlift (normalize_ext2_path path)) (\<lambda>normalized.
     xbind (read_inode ops fs (fs_root_ino fs)) (\<lambda>root.
     lookup_walk (filter (\<lambda>p. p \<noteq> []) (split_slash (trim_end_slashes (trim_start normalized))))
       (lookup_path_inner k ops fs follow) ops fs follow [] (fs_root_ino fs, root)))"

definition lookup_path :: "'d DevOps \<Rightarrow> Ext2Fs \<Rightarrow> bytes \<Rightarrow> ('d, u32 \<times> Inode) xio" where
  "lookup_path ops fs path = lookup_path_inner 8 ops fs True path"

definition lookup_path_no_follow :: "'d DevOps \<Rightarrow> Ext2Fs \<Rightarrow> bytes \<Rightarrow> ('d, u32 \<times> Inode) xio" where
  "lookup_path_no_follow ops fs path = lookup_path_inner 8 ops fs False path"

text \<open>\<open>self.lookup_path(path).is_ok()\<close>, followed by the rest when it is not.\<close>

definition must_not_exist :: "('d, 'a) xio \<Rightarrow> ('d, unit) xio" where
  "must_not_exist m =
     xbind (xtry m) (\<lambda>r. case r of Inr _ \<Rightarrow> xfail X_AlreadyExists | Inl _ \<Rightarrow> xok ())"

definition lookup_parent :: "'d DevOps \<Rightarrow> Ext2Fs \<Rightarrow> bytes \<Rightarrow> ('d, u32 \<times> Inode) xio" where
  "lookup_parent ops fs path =
     xbind (lookup_path ops fs path) (\<lambda>(ino, inode). if is_dir inode then xok (ino, inode) else xfail X_NotDirectory)"

section \<open>Reading\<close>

definition read_file :: "'d DevOps \<Rightarrow> Ext2Fs \<Rightarrow> bytes \<Rightarrow> ('d, bytes) xio" where
  "read_file ops fs path =
     xbind (lookup_path ops fs path) (\<lambda>(_, inode).
     if \<not> is_file inode then xfail X_NotFile else read_inode_data ops fs inode)"

definition read_file_range :: "'d DevOps \<Rightarrow> Ext2Fs \<Rightarrow> bytes \<Rightarrow> usize \<Rightarrow> bytes \<Rightarrow> ('d, usize \<times> bytes) xio" where
  "read_file_range ops fs path off output =
     xbind (lookup_path ops fs path) (\<lambda>(_, inode).
     if \<not> is_file inode then xfail X_NotFile else read_inode_range ops fs inode off output)"

definition list_dir :: "'d DevOps \<Rightarrow> Ext2Fs \<Rightarrow> bytes \<Rightarrow> ('d, bytes list) xio" where
  "list_dir ops fs path =
     xbind (lookup_path ops fs path) (\<lambda>(_, inode).
     if \<not> is_dir inode then xfail X_NotDirectory
     else xbind (read_dir_entries ops fs inode) (\<lambda>entries.
          xok (map de_name (filter (\<lambda>e. de_name e \<notin> set DOT_NAMES) entries))))"

definition inode_kind :: "Inode \<Rightarrow> Ext2NodeKind option" where
  "inode_kind inode =
     (if is_dir inode then Some X_Directory
      else if is_file inode then Some X_File
      else if is_symlink inode then Some X_Symlink else None)"

definition metadata_inner :: "'d DevOps \<Rightarrow> Ext2Fs \<Rightarrow> bytes \<Rightarrow> bool \<Rightarrow> ('d, Ext2Metadata) xio" where
  "metadata_inner ops fs path follow =
     xbind (if follow then lookup_path ops fs path else lookup_path_no_follow ops fs path) (\<lambda>(_, inode).
     case inode_kind inode of
       None \<Rightarrow> xfail X_Unsupported
     | Some kind \<Rightarrow>
         xok \<lparr>xm_kind = kind,
              xm_metadata = \<lparr>owner = i_uid inode, group = i_gid inode, mode = FileMode (i_mode inode AND 0xFFF)\<rparr>,
              xm_size = unat (i_size inode), xm_links = i_links inode, xm_mtime = ucast (i_mtime inode)\<rparr>)"

definition ext2_readlink :: "'d DevOps \<Rightarrow> Ext2Fs \<Rightarrow> bytes \<Rightarrow> ('d, bytes) xio" where
  "ext2_readlink ops fs path =
     xbind (lookup_path_no_follow ops fs path) (\<lambda>(_, inode).
     if \<not> is_symlink inode then xfail X_NotFile else read_inode_data ops fs inode)"

section \<open>Creating\<close>

definition ext2_symlink :: "'d DevOps \<Rightarrow> Ext2Fs \<Rightarrow> bytes \<Rightarrow> bytes \<Rightarrow> u32 \<Rightarrow> u32 \<Rightarrow> ('d, unit) xio" where
  "ext2_symlink ops fs target path user grp =
     xbind (must_not_exist (lookup_path_no_follow ops fs path)) (\<lambda>_.
     xbind (xlift (split_parent_name path)) (\<lambda>(parent_path, name).
     xbind (lookup_parent ops fs parent_path) (\<lambda>(_, parent).
     xbind (allocate_inode ops fs) (\<lambda>ino.
     xbind (empty_symlink ops user grp) (\<lambda>inode0.
     xbind (xcleanup (write_inode_data ops fs inode0 target) (free_inode ops fs ino)) (\<lambda>inode.
     let undo = xbind (xtry (free_inode_blocks ops fs inode)) (\<lambda>_. free_inode ops fs ino) in
     xbind (xcleanup (write_inode ops fs ino inode) undo) (\<lambda>_.
     xcleanup (insert_dir_entry ops fs parent ino name EXT2_FT_SYMLINK) undo)))))))"

definition create_file :: "'d DevOps \<Rightarrow> Ext2Fs \<Rightarrow> bytes \<Rightarrow> u32 \<Rightarrow> u32 \<Rightarrow> u16 \<Rightarrow> ('d, unit) xio" where
  "create_file ops fs path user grp md =
     xbind (must_not_exist (lookup_path ops fs path)) (\<lambda>_.
     xbind (xlift (split_parent_name path)) (\<lambda>(parent_path, name).
     xbind (lookup_parent ops fs parent_path) (\<lambda>(_, parent).
     xbind (allocate_inode ops fs) (\<lambda>ino.
     xbind (empty_file ops user grp md) (\<lambda>inode.
     xbind (write_inode ops fs ino inode) (\<lambda>_.
     xcleanup (insert_dir_entry ops fs parent ino name EXT2_FT_REG_FILE) (free_inode ops fs ino)))))))"

definition create_dir :: "'d DevOps \<Rightarrow> Ext2Fs \<Rightarrow> bytes \<Rightarrow> u32 \<Rightarrow> u32 \<Rightarrow> u16 \<Rightarrow> ('d, unit) xio" where
  "create_dir ops fs path user grp md =
     xbind (must_not_exist (lookup_path ops fs path)) (\<lambda>_.
     xbind (xlift (split_parent_name path)) (\<lambda>(parent_path, name).
     xbind (lookup_parent ops fs parent_path) (\<lambda>(parent_ino, parent0).
     xbind (increment_links ops parent0) (\<lambda>parent.
     xbind (allocate_inode ops fs) (\<lambda>ino.
     xbind (xcleanup (allocate_block ops fs) (free_inode ops fs ino)) (\<lambda>block.
     let undo = xbind (xtry (free_block ops fs block)) (\<lambda>_. free_inode ops fs ino) in
     xbind (xcleanup (write_dir_block ops fs block ino parent_ino) undo) (\<lambda>_.
     xbind (empty_dir ops user grp md block) (\<lambda>inode.
     xbind (xcleanup (write_inode ops fs ino inode) undo) (\<lambda>_.
     xbind (xcleanup (insert_dir_entry ops fs parent ino name EXT2_FT_DIR)
              (xbind (xtry (free_inode_blocks ops fs inode)) (\<lambda>_. free_inode ops fs ino))) (\<lambda>_.
     write_inode ops fs parent_ino parent))))))))))"

definition ext2_link :: "'d DevOps \<Rightarrow> Ext2Fs \<Rightarrow> bytes \<Rightarrow> bytes \<Rightarrow> ('d, unit) xio" where
  "ext2_link ops fs old_path new_path =
     xbind (must_not_exist (lookup_path_no_follow ops fs new_path)) (\<lambda>_.
     xbind (lookup_path ops fs old_path) (\<lambda>(source_ino, source0).
     if \<not> is_file source0 then xfail X_NotFile
     else
       xbind (increment_links ops source0) (\<lambda>source.
       xbind (xlift (split_parent_name new_path)) (\<lambda>(parent_path, name).
       xbind (lookup_parent ops fs parent_path) (\<lambda>(_, parent).
       xbind (insert_dir_entry ops fs parent source_ino name EXT2_FT_REG_FILE) (\<lambda>_.
       write_inode ops fs source_ino source))))))"

section \<open>Removing and renaming\<close>

definition ext2_unlink :: "'d DevOps \<Rightarrow> Ext2Fs \<Rightarrow> bytes \<Rightarrow> ('d, unit) xio" where
  "ext2_unlink ops fs path =
     xbind (xlift (split_parent_name path)) (\<lambda>(parent_path, name).
     xbind (lookup_path_no_follow ops fs path) (\<lambda>(_, inode).
     if \<not> is_file inode \<and> \<not> is_symlink inode then xfail X_NotFile
     else
       xbind (lookup_parent ops fs parent_path) (\<lambda>(_, parent).
       xbind (remove_dir_entry ops fs parent name) (\<lambda>removed_ino.
       if i_links inode > 1
       then xbind (current_ext2_time ops) (\<lambda>now.
            write_inode ops fs removed_ino (inode\<lparr>i_links := i_links inode - 1, i_ctime := now\<rparr>))
       else xbind (free_inode_blocks ops fs inode) (\<lambda>_. free_inode ops fs removed_ino)))))"

definition ext2_rmdir :: "'d DevOps \<Rightarrow> Ext2Fs \<Rightarrow> bytes \<Rightarrow> ('d, unit) xio" where
  "ext2_rmdir ops fs path =
     (if path = [SLASH] then xfail X_Unsupported
      else
        xbind (xlift (split_parent_name path)) (\<lambda>(parent_path, name).
        xbind (lookup_parent ops fs path) (\<lambda>(ino, inode).
        xbind (is_empty_dir ops fs inode) (\<lambda>empty.
        if \<not> empty then xfail X_Unsupported
        else
          xbind (lookup_parent ops fs parent_path) (\<lambda>(parent_ino, parent).
          xbind (remove_dir_entry ops fs parent name) (\<lambda>removed_ino.
          if removed_ino \<noteq> ino then xfail X_IoError
          else
            xbind (free_inode_blocks ops fs inode) (\<lambda>_.
            xbind (free_inode ops fs ino) (\<lambda>_.
            write_inode ops fs parent_ino
              (parent\<lparr>i_links := max (if i_links parent = 0 then 0 else i_links parent - 1) 2\<rparr>)))))))))"

text \<open>The part of \<open>rename\<close> after a target in the way has been removed.\<close>

definition rename_move :: "'d DevOps \<Rightarrow> Ext2Fs \<Rightarrow> bytes \<Rightarrow> bytes \<Rightarrow> ('d, unit) xio" where
  "rename_move ops fs old_path new_path =
     xbind (xlift (split_parent_name old_path)) (\<lambda>(old_parent_path, old_name).
     xbind (xlift (split_parent_name new_path)) (\<lambda>(new_parent_path, new_name).
     xbind (lookup_path_no_follow ops fs old_path) (\<lambda>(old_ino, old_inode).
     if is_dir old_inode \<and> old_parent_path \<noteq> new_parent_path then xfail X_Unsupported
     else
       xbind (lookup_path ops fs old_parent_path) (\<lambda>(_, old_parent).
       xbind (lookup_path ops fs new_parent_path) (\<lambda>(_, new_parent).
       if \<not> is_dir old_parent \<or> \<not> is_dir new_parent then xfail X_NotDirectory
       else
         case inode_kind old_inode of
           None \<Rightarrow> xfail X_Unsupported
         | Some kind \<Rightarrow>
             xbind (insert_dir_entry ops fs new_parent old_ino new_name
                      (case kind of X_Directory \<Rightarrow> EXT2_FT_DIR | X_File \<Rightarrow> EXT2_FT_REG_FILE | X_Symlink \<Rightarrow> EXT2_FT_SYMLINK))
               (\<lambda>_. xbind (remove_dir_entry ops fs old_parent old_name) (\<lambda>removed_ino.
                    if removed_ino = old_ino then xok () else xfail X_IoError)))))))"

definition ext2_rename :: "'d DevOps \<Rightarrow> Ext2Fs \<Rightarrow> bytes \<Rightarrow> bytes \<Rightarrow> ('d, unit) xio" where
  "ext2_rename ops fs old_path new_path =
     (if old_path = new_path then xok ()
      else if old_path = [SLASH] \<or> new_path = [SLASH] then xfail X_Unsupported
      else
        xbind (xtry (lookup_path_no_follow ops fs new_path)) (\<lambda>there.
        case there of
          Inl _ \<Rightarrow> rename_move ops fs old_path new_path
        | Inr _ \<Rightarrow>
            xbind (lookup_path_no_follow ops fs old_path) (\<lambda>(old_ino, _).
            xbind (lookup_path_no_follow ops fs new_path) (\<lambda>(new_ino, new_inode).
            if new_ino = old_ino
            then xbind (xlift (split_parent_name old_path)) (\<lambda>(old_parent_path, old_name).
                 xbind (lookup_path ops fs old_parent_path) (\<lambda>(_, old_parent).
                 xbind (remove_dir_entry ops fs old_parent old_name) (\<lambda>_. xok ())))
            else if \<not> is_file new_inode \<and> \<not> is_symlink new_inode then xfail X_NotFile
            else xbind (ext2_unlink ops fs new_path) (\<lambda>_. rename_move ops fs old_path new_path)))))"

section \<open>Changing inodes and writing files\<close>

definition ext2_chmod :: "'d DevOps \<Rightarrow> Ext2Fs \<Rightarrow> bytes \<Rightarrow> u16 \<Rightarrow> ('d, unit) xio" where
  "ext2_chmod ops fs path md =
     xbind (lookup_path ops fs path) (\<lambda>(ino, inode).
     xbind (current_ext2_time ops) (\<lambda>now.
     write_inode ops fs ino
       (inode\<lparr>i_mode := (i_mode inode AND EXT2_S_IFMT) OR (md AND 0xFFF), i_ctime := now\<rparr>)))"

definition ext2_chown :: "'d DevOps \<Rightarrow> Ext2Fs \<Rightarrow> bytes \<Rightarrow> u32 \<Rightarrow> u32 \<Rightarrow> ('d, unit) xio" where
  "ext2_chown ops fs path user grp =
     xbind (lookup_path ops fs path) (\<lambda>(ino, inode).
     xbind (current_ext2_time ops) (\<lambda>now.
     write_inode ops fs ino
       (inode\<lparr>i_uid := (if user \<noteq> - 1 then user else i_uid inode),
              i_gid := (if grp \<noteq> - 1 then grp else i_gid inode), i_ctime := now\<rparr>)))"

definition ext2_set_mtime :: "'d DevOps \<Rightarrow> Ext2Fs \<Rightarrow> bytes \<Rightarrow> u64 \<Rightarrow> ('d, unit) xio" where
  "ext2_set_mtime ops fs path mtime =
     xbind (lookup_path ops fs path) (\<lambda>(ino, inode).
     xbind (current_ext2_time ops) (\<lambda>now.
     write_inode ops fs ino (inode\<lparr>i_mtime := ucast (min mtime 0xFFFFFFFF), i_ctime := now\<rparr>)))"

definition write_file :: "'d DevOps \<Rightarrow> Ext2Fs \<Rightarrow> bytes \<Rightarrow> bytes \<Rightarrow> ('d, unit) xio" where
  "write_file ops fs path data =
     xbind (lookup_path ops fs path) (\<lambda>(ino, inode0).
     if \<not> is_file inode0 then xfail X_NotFile
     else xbind (write_inode_data ops fs inode0 data) (\<lambda>inode. write_inode ops fs ino inode))"

definition truncate_file :: "'d DevOps \<Rightarrow> Ext2Fs \<Rightarrow> bytes \<Rightarrow> ('d, unit) xio" where
  "truncate_file ops fs path = write_file ops fs path []"

end
