(* ===== verification/Ext2_Lookup.thy ===== *)
theory Ext2_Lookup
  imports Ext2_Table Ext2
begin

text \<open>
  Path lookup of \<open>kernel/src/fs/ext2.rs\<close> as a function of the contents of the disk, what a
  consistent disk is, and that writing one file keeps every path and every other file.
\<close>

section \<open>Methods that only read\<close>

definition exact :: "('d \<Rightarrow> bool) \<Rightarrow> ('d \<Rightarrow> store) \<Rightarrow> ('d, 'a) xio \<Rightarrow> store \<Rightarrow> (Ext2Error, 'a) result \<Rightarrow> bool" where
  "exact good sect m st r \<longleftrightarrow> wpx good sect m st (\<lambda>r' st'. st' = st \<and> r' = r)"

primrec rbind :: "('e, 'a) result \<Rightarrow> ('a \<Rightarrow> ('e, 'b) result) \<Rightarrow> ('e, 'b) result" where
  "rbind (Inl e) f = Inl e"
| "rbind (Inr x) f = f x"

lemma exact_ok [intro]: "exact good sect (xok x) st (Ok x)"
  by (auto simp: exact_def wpx_def xok_def)

lemma exact_fail [intro]: "exact good sect (xfail e) st (Err e)"
  by (auto simp: exact_def wpx_def xfail_def)

lemma exact_lift [intro]: "exact good sect (xlift r) st r"
  by (auto simp: exact_def wpx_def xlift_def)

lemma exactD: "exact good sect m (sect d) r \<Longrightarrow> good d \<Longrightarrow> \<exists>d'. m d = Some (r, d') \<and> good d' \<and> sect d' = sect d"
  unfolding exact_def by (drule (1) wpxD) auto

lemma exact_bind:
  assumes "exact good sect m st r" and "\<And>x. r = Inr x \<Longrightarrow> exact good sect (f x) st (g x)"
  shows "exact good sect (xbind m f) st (rbind r g)"
  unfolding exact_def wpx_def
proof (intro allI impI)
  fix d
  assume d: "good d \<and> sect d = st"
  then obtain d1 where d1: "m d = Some (r, d1)" "good d1" "sect d1 = st"
    using exactD [of good sect m d r] assms(1) by auto
  show "\<exists>r' d'. xbind m f d = Some (r', d') \<and> good d' \<and> sect d' = st \<and> r' = rbind r g"
  proof (cases r)
    case (Inl e)
    with d1 show ?thesis by (simp add: xbind_def)
  next
    case (Inr x)
    with assms(2) d1 have "\<exists>d'. f x d1 = Some (g x, d') \<and> good d' \<and> sect d' = sect d1"
      by (intro exactD) simp_all
    with Inr d1 show ?thesis by (auto simp: xbind_def)
  qed
qed

lemma exact_upon: "exact good sect m st r \<Longrightarrow> (case r of Inl e \<Rightarrow> E e st | Inr x \<Rightarrow> P x st) \<Longrightarrow> wpx good sect m st (upon E P)"
  unfolding exact_def by (elim wpx_conseq) (auto simp: upon_def)

section \<open>Lookup on the disk\<close>

definition file_data :: "Ext2Fs \<Rightarrow> store \<Rightarrow> Inode \<Rightarrow> (Ext2Error, bytes) result" where
  "file_data fs st inode =
     (let whole = contents fs st (file_leaves fs st inode); len = unat (i_size inode) in
      if len \<le> length whole then Ok (take len whole) else Err X_Unsupported)"

definition find_inode :: "Ext2Fs \<Rightarrow> store \<Rightarrow> u32 \<Rightarrow> (Ext2Error, Inode) result" where
  "find_inode fs st ino = (if valid_ino fs ino then Ok (inode_at fs st ino) else Err X_NotFound)"

definition entries :: "Ext2Fs \<Rightarrow> store \<Rightarrow> Inode \<Rightarrow> (Ext2Error, DirEntry list) result" where
  "entries fs st inode =
     rbind (file_data fs st inode) (\<lambda>data. Ok (dir_loop data (min (length data) (unat (i_size inode))) 0))"

primrec walk ::
    "bytes list \<Rightarrow> (bytes \<Rightarrow> (Ext2Error, u32 \<times> Inode) result) \<Rightarrow> Ext2Fs \<Rightarrow> store \<Rightarrow> bool \<Rightarrow> bytes list \<Rightarrow> u32 \<times> Inode \<Rightarrow>
     (Ext2Error, u32 \<times> Inode) result" where
  "walk [] again fs st follow walked at = Ok at"
| "walk (component # left) again fs st follow walked at =
     (if \<not> is_dir (snd at) then Err X_NotDirectory
      else rbind (entries fs st (snd at)) (\<lambda>es.
           case find (\<lambda>e. de_name e = component) es of
             None \<Rightarrow> Err X_NotFound
           | Some entry \<Rightarrow>
               rbind (find_inode fs st (de_ino entry)) (\<lambda>inode.
               if is_symlink inode \<and> (follow \<or> left \<noteq> [])
               then rbind (rbind (file_data fs st inode) (\<lambda>bs. case from_utf8 bs of None \<Rightarrow> Err X_Unsupported | Some t \<Rightarrow> Ok t)) (\<lambda>target.
                    rbind (link_path walked target left) again)
               else walk left again fs st follow (walked @ [component]) (de_ino entry, inode))))"

primrec look :: "nat \<Rightarrow> Ext2Fs \<Rightarrow> store \<Rightarrow> bool \<Rightarrow> bytes \<Rightarrow> (Ext2Error, u32 \<times> Inode) result" where
  "look 0 fs st follow path = Err X_NotFound"
| "look (Suc k) fs st follow path =
     rbind (normalize_ext2_path path) (\<lambda>normalized.
     rbind (find_inode fs st (fs_root_ino fs)) (\<lambda>root.
     walk (filter (\<lambda>p. p \<noteq> []) (split_slash (trim_end_slashes (trim_start normalized))))
       (look k fs st follow) fs st follow [] (fs_root_ino fs, root)))"

text \<open>
  A set \<open>L\<close> of inodes closed under the entries of its directories, whose files are trees
  of blocks in use, apart from each other and from the inode table.
\<close>

definition table_block :: "Ext2Fs \<Rightarrow> u32 \<Rightarrow> nat" where
  "table_block fs ino = slot fs ino div 1024"

definition nodes_at :: "Ext2Fs \<Rightarrow> store \<Rightarrow> u32 \<Rightarrow> u32 set" where
  "nodes_at fs st ino = set (file_nodes fs st (inode_at fs st ino))"

definition dir_closed :: "Ext2Fs \<Rightarrow> store \<Rightarrow> u32 set \<Rightarrow> bool" where
  "dir_closed fs st L \<longleftrightarrow>
     fs_root_ino fs \<in> L \<and>
     (\<forall>ino \<in> L. valid_ino fs ino \<and>
        (\<forall>es. is_dir (inode_at fs st ino) \<and> entries fs st (inode_at fs st ino) = Ok es \<longrightarrow> (\<forall>e \<in> set es. de_ino e \<in> L)))"

definition consistent :: "Ext2Fs \<Rightarrow> store \<Rightarrow> u32 set \<Rightarrow> bool" where
  "consistent fs st L \<longleftrightarrow>
     meta_busy fs st \<and> dir_closed fs st L \<and>
     (\<forall>ino \<in> L.
        table_block fs ino \<notin> bitmap_blocks fs \<and> busy fs st (table_block fs ino) \<and>
        (\<forall>n \<in> nodes_at fs st ino. held fs st n) \<and>
        (\<forall>other \<in> L. table_block fs other \<notin> unat ` nodes_at fs st ino \<and>
           (other \<noteq> ino \<longrightarrow> nodes_at fs st other \<inter> nodes_at fs st ino = {})))"

context ext2_device
begin

abbreviation ex where "ex \<equiv> exact good sect"

lemma exact_read_inode:
  assumes "geom fs cap" and "tables_ok fs"
  shows "ex (read_inode ops fs ino) st (find_inode fs st ino)"
proof (cases "valid_ino fs ino")
  case True
  have "wp (read_inode ops fs ino) st (upon (\<lambda>_ _. False) (\<lambda>i st'. st' = st \<and> i = inode_at fs st ino))"
    by (rule wp_read_inode [OF assms True]) simp
  then show ?thesis unfolding exact_def by (elim wpx_conseq) (auto simp: upon_def find_inode_def True split: sum.splits)
next
  case False
  then have "inode_location fs ino = Err X_NotFound" by (auto simp: valid_ino_def inode_location_def)
  then have "read_inode ops fs ino = xfail X_NotFound" by (simp add: read_inode_def fun_eq_iff xbind_def xlift_def xfail_def)
  then show ?thesis using False by (simp add: find_inode_def exact_fail)
qed

lemma exact_read_data:
  assumes "geom fs cap" and "list_all (\<lambda>n. unat n < nblocks fs) (file_nodes fs st inode)"
  shows "ex (read_inode_data ops fs inode) st (file_data fs st inode)"
  unfolding exact_def
  by (rule wpx_conseq [OF wp_read_inode_data [OF assms refl refl]])
     (auto simp: upon_def file_data_def Let_def split: sum.splits)

lemma exact_entries:
  assumes "geom fs cap" and "list_all (\<lambda>n. unat n < nblocks fs) (file_nodes fs st inode)"
  shows "ex (read_dir_entries ops fs inode) st (entries fs st inode)"
  unfolding read_dir_entries_def entries_def by (rule exact_bind [OF exact_read_data [OF assms]]) auto

lemma exact_symlink:
  assumes "geom fs cap" and "list_all (\<lambda>n. unat n < nblocks fs) (file_nodes fs st inode)"
  shows "ex (read_symlink_string ops fs inode) st
     (rbind (file_data fs st inode) (\<lambda>bs. case from_utf8 bs of None \<Rightarrow> Err X_Unsupported | Some t \<Rightarrow> Ok t))"
  unfolding read_symlink_string_def by (rule exact_bind [OF exact_read_data [OF assms]]) (auto split: option.splits)

lemma exact_walk:
  assumes fs: "geom fs cap" "tables_ok fs" and wf: "\<And>ino. ino \<in> L \<Longrightarrow> list_all (\<lambda>n. unat n < nblocks fs) (file_nodes fs st (inode_at fs st ino))"
    and cl: "dir_closed fs st L" and again: "\<And>path. ex (again path) st (again' path)"
  shows "ino \<in> L \<Longrightarrow> ex (lookup_walk comps again ops fs follow walked (ino, inode_at fs st ino)) st
     (walk comps again' fs st follow walked (ino, inode_at fs st ino))"
proof (induction comps arbitrary: walked ino)
  case (Cons c left)
  have step: "ex (xbind (read_inode ops fs (de_ino e)) (\<lambda>inode.
        if is_symlink inode \<and> (follow \<or> left \<noteq> [])
        then xbind (read_symlink_string ops fs inode) (\<lambda>target. xbind (xlift (link_path walked target left)) again)
        else lookup_walk left again ops fs follow (walked @ [c]) (de_ino e, inode))) st
      (rbind (find_inode fs st (de_ino e)) (\<lambda>inode.
        if is_symlink inode \<and> (follow \<or> left \<noteq> [])
        then rbind (rbind (file_data fs st inode) (\<lambda>bs. case from_utf8 bs of None \<Rightarrow> Err X_Unsupported | Some t \<Rightarrow> Ok t)) (\<lambda>target.
             rbind (link_path walked target left) again')
        else walk left again' fs st follow (walked @ [c]) (de_ino e, inode)))" if "de_ino e \<in> L" for e
  proof (rule exact_bind [OF exact_read_inode [OF fs]])
    fix inode
    assume "find_inode fs st (de_ino e) = Inr inode"
    then have i: "inode = inode_at fs st (de_ino e)" by (simp add: find_inode_def split: if_splits)
    show "ex (if is_symlink inode \<and> (follow \<or> left \<noteq> [])
        then xbind (read_symlink_string ops fs inode) (\<lambda>target. xbind (xlift (link_path walked target left)) again)
        else lookup_walk left again ops fs follow (walked @ [c]) (de_ino e, inode)) st
      (if is_symlink inode \<and> (follow \<or> left \<noteq> [])
        then rbind (rbind (file_data fs st inode) (\<lambda>bs. case from_utf8 bs of None \<Rightarrow> Err X_Unsupported | Some t \<Rightarrow> Ok t)) (\<lambda>target.
             rbind (link_path walked target left) again')
        else walk left again' fs st follow (walked @ [c]) (de_ino e, inode))"
      using Cons.IH [OF that] unfolding i
      by (auto intro!: exact_bind [OF exact_symlink [OF fs(1) wf [OF that]]] exact_bind [OF exact_lift] again)
  qed
  show ?case
  proof (cases "is_dir (inode_at fs st ino)")
    case True
    have "de_ino e \<in> L" if "entries fs st (inode_at fs st ino) = Ok es" "find (\<lambda>e. de_name e = c) es = Some e" for es e
      using cl Cons.prems that True find_Some_iff [of _ es e] unfolding dir_closed_def by (metis nth_mem)
    note dirs = this
    have nd: "\<not> \<not> is_dir (inode_at fs st ino)" using True by simp
    show ?thesis
      unfolding lookup_walk.simps walk.simps snd_conv if_not_P [OF nd]
    proof (rule exact_bind [OF exact_entries [OF fs(1) wf [OF Cons.prems]]])
      fix es
      assume es: "entries fs st (inode_at fs st ino) = Inr es"
      show "ex (case find (\<lambda>e. de_name e = c) es of None \<Rightarrow> xfail X_NotFound
          | Some entry \<Rightarrow> xbind (read_inode ops fs (de_ino entry)) (\<lambda>inode.
              if is_symlink inode \<and> (follow \<or> left \<noteq> [])
              then xbind (read_symlink_string ops fs inode) (\<lambda>target. xbind (xlift (link_path walked target left)) again)
              else lookup_walk left again ops fs follow (walked @ [c]) (de_ino entry, inode))) st
        (case find (\<lambda>e. de_name e = c) es of None \<Rightarrow> Err X_NotFound
          | Some entry \<Rightarrow> rbind (find_inode fs st (de_ino entry)) (\<lambda>inode.
              if is_symlink inode \<and> (follow \<or> left \<noteq> [])
              then rbind (rbind (file_data fs st inode) (\<lambda>bs. case from_utf8 bs of None \<Rightarrow> Err X_Unsupported | Some t \<Rightarrow> Ok t)) (\<lambda>target.
                   rbind (link_path walked target left) again')
              else walk left again' fs st follow (walked @ [c]) (de_ino entry, inode)))"
        by (cases "find (\<lambda>e. de_name e = c) es") (simp_all only: option.case exact_fail step [OF dirs [OF es]])
    qed
  qed auto
qed auto

lemma exact_look:
  assumes fs: "geom fs cap" "tables_ok fs" and wf: "\<And>ino. ino \<in> L \<Longrightarrow> list_all (\<lambda>n. unat n < nblocks fs) (file_nodes fs st (inode_at fs st ino))"
    and cl: "dir_closed fs st L"
  shows "ex (lookup_path_inner k ops fs follow path) st (look k fs st follow path)"
proof (induction k arbitrary: path)
  case (Suc k)
  have root: "fs_root_ino fs \<in> L" "find_inode fs st (fs_root_ino fs) = Ok (inode_at fs st (fs_root_ino fs))"
    using cl by (auto simp: dir_closed_def find_inode_def)
  show ?case
    unfolding lookup_path_inner.simps look.simps
    by (rule exact_bind [OF exact_lift], rule exact_bind [OF exact_read_inode [OF fs]])
       (use root exact_walk [OF fs wf cl Suc.IH root(1)] in simp)
qed auto

end

section \<open>Two disks that differ in one file\<close>

text \<open>On \<open>st'\<close> the inode \<open>f\<close> has changed, nothing else of the inodes in \<open>L\<close> has.\<close>

definition only_changed :: "Ext2Fs \<Rightarrow> u32 set \<Rightarrow> u32 \<Rightarrow> store \<Rightarrow> store \<Rightarrow> bool" where
  "only_changed fs L f st st' \<longleftrightarrow>
     (\<forall>ino \<in> L. ino \<noteq> f \<longrightarrow> inode_at fs st' ino = inode_at fs st ino \<and>
        file_data fs st' (inode_at fs st ino) = file_data fs st (inode_at fs st ino))"

text \<open>A lookup that ends at the file finds its new inode; any other lookup is unchanged.\<close>

definition new_inode :: "Ext2Fs \<Rightarrow> store \<Rightarrow> u32 \<Rightarrow> u32 \<times> Inode \<Rightarrow> u32 \<times> Inode" where
  "new_inode fs st' f at = (if fst at = f then (f, inode_at fs st' f) else at)"

primrec rmap :: "('a \<Rightarrow> 'b) \<Rightarrow> ('e, 'a) result \<Rightarrow> ('e, 'b) result" where
  "rmap g (Inl e) = Inl e"
| "rmap g (Inr x) = Inr (g x)"

lemma map_rbind: "rmap g (rbind r h) = rbind r (\<lambda>x. rmap g (h x))"
  by (cases r) simp_all

lemma file_kinds: "is_file inode \<Longrightarrow> \<not> is_dir inode \<and> \<not> is_symlink inode"
  by (simp add: is_file_def is_dir_def is_symlink_def ext2_consts)

lemma walk_only_changed:
  assumes cl: "dir_closed fs st L" and ch: "only_changed fs L f st st'" and f: "is_file (inode_at fs st f)" "is_file (inode_at fs st' f)"
    and again: "\<And>path. again' path = rmap (new_inode fs st' f) (again path)"
  shows "ino \<in> L \<Longrightarrow> walk comps again' fs st' follow walked (ino, inode_at fs st' ino) =
     rmap (new_inode fs st' f) (walk comps again fs st follow walked (ino, inode_at fs st ino))"
proof (induction comps arbitrary: walked ino)
  case Nil
  then show ?case using ch by (auto simp: new_inode_def only_changed_def)
next
  case (Cons c left)
  show ?case
  proof (cases "ino = f")
    case True
    then show ?thesis using file_kinds f by simp
  next
    case False
    have same: "inode_at fs st' ino = inode_at fs st ino" "entries fs st' (inode_at fs st ino) = entries fs st (inode_at fs st ino)"
      using ch Cons.prems False by (simp_all add: only_changed_def entries_def)
    have link: "rbind r again' = rbind r (\<lambda>x. rmap (new_inode fs st' f) (again x))" for r :: "(Ext2Error, bytes) result"
      by (cases r) (simp_all add: again)
    have step: "rbind (find_inode fs st' (de_ino e)) (\<lambda>inode.
          if is_symlink inode \<and> (follow \<or> left \<noteq> [])
          then rbind (rbind (file_data fs st' inode) (\<lambda>bs. case from_utf8 bs of None \<Rightarrow> Err X_Unsupported | Some t \<Rightarrow> Ok t)) (\<lambda>target.
               rbind (link_path walked target left) again')
          else walk left again' fs st' follow (walked @ [c]) (de_ino e, inode)) =
        rmap (new_inode fs st' f) (rbind (find_inode fs st (de_ino e)) (\<lambda>inode.
          if is_symlink inode \<and> (follow \<or> left \<noteq> [])
          then rbind (rbind (file_data fs st inode) (\<lambda>bs. case from_utf8 bs of None \<Rightarrow> Err X_Unsupported | Some t \<Rightarrow> Ok t)) (\<lambda>target.
               rbind (link_path walked target left) again)
          else walk left again fs st follow (walked @ [c]) (de_ino e, inode)))" if e: "de_ino e \<in> L" for e
    proof -
      have "valid_ino fs (de_ino e)" using cl e by (simp add: dir_closed_def)
      moreover have "is_symlink (inode_at fs st' (de_ino e)) = is_symlink (inode_at fs st (de_ino e))"
          "is_symlink (inode_at fs st (de_ino e)) \<Longrightarrow> inode_at fs st' (de_ino e) = inode_at fs st (de_ino e) \<and>
             file_data fs st' (inode_at fs st (de_ino e)) = file_data fs st (inode_at fs st (de_ino e))"
        using ch e f file_kinds unfolding only_changed_def by (cases "de_ino e = f", auto)+
      ultimately show ?thesis
        by (cases "is_symlink (inode_at fs st (de_ino e)) \<and> (follow \<or> left \<noteq> [])")
           (simp_all add: find_inode_def map_rbind link Cons.IH [OF e] del: de_Morgan_conj cong: if_cong)
    qed
    show ?thesis
    proof (cases "is_dir (inode_at fs st ino)")
      case True
      have nd: "\<not> \<not> is_dir (inode_at fs st ino)" using True by simp
      show ?thesis
      proof (cases "entries fs st (inode_at fs st ino)")
        case (Inr es)
        have dirs: "de_ino e \<in> L" if "find (\<lambda>e. de_name e = c) es = Some e" for e
          using cl Cons.prems that True Inr find_Some_iff [of _ es e] unfolding dir_closed_def by (metis nth_mem)
        show ?thesis
          unfolding walk.simps snd_conv same if_not_P [OF nd] Inr rbind.simps
          by (cases "find (\<lambda>e. de_name e = c) es") (simp_all only: option.case step [OF dirs] rmap.simps)
      qed (simp add: True same)
    qed (simp add: same)
  qed
qed

lemma look_only_changed:
  assumes cl: "dir_closed fs st L" and ch: "only_changed fs L f st st'" and f: "is_file (inode_at fs st f)" "is_file (inode_at fs st' f)"
  shows "look k fs st' follow path = rmap (new_inode fs st' f) (look k fs st follow path)"
proof (induction k arbitrary: path)
  case (Suc k)
  have root: "fs_root_ino fs \<in> L" "valid_ino fs (fs_root_ino fs)" using cl by (auto simp: dir_closed_def)
  show ?case
    using walk_only_changed [OF cl ch f Suc.IH root(1)] root(2) by (simp add: map_rbind find_inode_def)
qed simp

end
