(* ===== verification/Ext2_Files.thy ===== *)
theory Ext2_Files
  imports Ext2_Lookup
begin

text \<open>
  Files by path in \<open>kernel/src/fs/ext2.rs\<close>: on a consistent disk \<open>write_file\<close> and
  \<open>read_file\<close> behave as a map from files to contents.
\<close>

section \<open>Reading by path\<close>

definition read_path :: "Ext2Fs \<Rightarrow> store \<Rightarrow> bytes \<Rightarrow> (Ext2Error, bytes) result" where
  "read_path fs st path =
     rbind (look 8 fs st True path) (\<lambda>(_, inode). if \<not> is_file inode then Err X_NotFile else file_data fs st inode)"

definition names_file :: "Ext2Fs \<Rightarrow> store \<Rightarrow> bytes \<Rightarrow> u32 \<Rightarrow> bool" where
  "names_file fs st path ino \<longleftrightarrow> (\<exists>inode. look 8 fs st True path = Ok (ino, inode) \<and> is_file inode)"

lemma rbind_Ok: "rbind r f = Inr y \<longleftrightarrow> (\<exists>x. r = Inr x \<and> f x = Inr y)"
  by (cases r) simp_all

lemma walk_result:
  assumes "dir_closed fs st L" and "\<And>path at. again path = Ok at \<Longrightarrow> fst at \<in> L \<and> snd at = inode_at fs st (fst at)"
  shows "fst at \<in> L \<Longrightarrow> snd at = inode_at fs st (fst at) \<Longrightarrow> walk comps again fs st follow walked at = Ok res \<Longrightarrow>
     fst res \<in> L \<and> snd res = inode_at fs st (fst res)"
proof (induction comps arbitrary: walked at)
  case (Cons c left)
  have dir: "is_dir (snd at)" using Cons.prems(3) by (auto split: if_splits)
  then obtain es where es: "entries fs st (snd at) = Ok es" using Cons.prems(3) by (cases "entries fs st (snd at)") auto
  then obtain e where e: "find (\<lambda>e. de_name e = c) es = Some e" using Cons.prems(3) dir by (cases "find (\<lambda>e. de_name e = c) es") auto
  have L: "de_ino e \<in> L"
    using assms(1) Cons.prems(1,2) dir es e find_Some_iff [of _ es e] unfolding dir_closed_def by (metis nth_mem)
  then have i: "find_inode fs st (de_ino e) = Ok (inode_at fs st (de_ino e))"
    using assms(1) by (simp add: dir_closed_def find_inode_def)
  show ?case
  proof (cases "is_symlink (inode_at fs st (de_ino e)) \<and> (follow \<or> left \<noteq> [])")
    case True
    then obtain target p where "link_path walked target left = Ok p" "again p = Ok res"
      using Cons.prems(3) dir es e i by (auto simp: rbind_Ok)
    then show ?thesis using assms(2) by blast
  next
    case False
    then have "walk left again fs st follow (walked @ [c]) (de_ino e, inode_at fs st (de_ino e)) = Ok res"
      using Cons.prems(3) dir es e i by (simp split: if_splits)
    then show ?thesis using Cons.IH [of "(de_ino e, inode_at fs st (de_ino e))"] L by simp
  qed
qed simp

lemma look_result:
  assumes "dir_closed fs st L"
  shows "look k fs st follow path = Ok at \<Longrightarrow> fst at \<in> L \<and> snd at = inode_at fs st (fst at)"
proof (induction k arbitrary: path at)
  case (Suc k)
  have root: "fs_root_ino fs \<in> L" "valid_ino fs (fs_root_ino fs)" using assms by (auto simp: dir_closed_def)
  from Suc.prems obtain n where "normalize_ext2_path path = Ok n" by (cases "normalize_ext2_path path") auto
  with Suc.prems root have "walk (filter (\<lambda>p. p \<noteq> []) (split_slash (trim_end_slashes (trim_start n)))) (look k fs st follow)
      fs st follow [] (fs_root_ino fs, inode_at fs st (fs_root_ino fs)) = Ok at"
    by (simp add: find_inode_def)
  from walk_result [OF assms Suc.IH _ _ this] root(1) show ?case by simp
qed simp

section \<open>What depends on the blocks of a file\<close>

lemma leaves_nodes: "set (leaves k fs st b) \<subseteq> set (tree_nodes k fs st b)"
  by (induction k arbitrary: b) auto

lemma level_cong:
  assumes "\<And>n. n \<in> set (level (\<lambda>k. tree_nodes k fs st) k b) \<Longrightarrow> blkv fs st' (unat n) = blkv fs st (unat n)"
  shows "level (\<lambda>k. tree_nodes k fs st') k b = level (\<lambda>k. tree_nodes k fs st) k b \<and>
    level (\<lambda>k. leaves k fs st') k b = level (\<lambda>k. leaves k fs st) k b"
  using assms tree_cong [of k fs st b st'] by (cases "b = 0") simp_all

lemma file_cong:
  assumes "\<And>n. n \<in> set (file_nodes fs st inode) \<Longrightarrow> blkv fs st' (unat n) = blkv fs st (unat n)"
  shows "file_nodes fs st' inode = file_nodes fs st inode" "file_data fs st' inode = file_data fs st inode"
proof -
  have lv: "level (\<lambda>k. tree_nodes k fs st') k (i_blocks inode ! (11 + k)) = level (\<lambda>k. tree_nodes k fs st) k (i_blocks inode ! (11 + k)) \<and>
      level (\<lambda>k. leaves k fs st') k (i_blocks inode ! (11 + k)) = level (\<lambda>k. leaves k fs st) k (i_blocks inode ! (11 + k))"
    if "k \<in> {1, 2, 3}" for k
    by (rule level_cong) (use that assms in \<open>auto simp: file_nodes_def\<close>)
  show "file_nodes fs st' inode = file_nodes fs st inode"
    using lv [of 1] lv [of 2] lv [of 3] by (simp add: file_nodes_def)
  have leaves: "file_leaves fs st' inode = file_leaves fs st inode"
    using lv [of 1] lv [of 2] lv [of 3] by (simp add: file_leaves_def)
  have "set (level (\<lambda>k. leaves k fs st) k b) \<subseteq> set (level (\<lambda>k. tree_nodes k fs st) k b)" for k b
    using leaves_nodes by (cases "b = 0") simp_all
  then have "set (file_leaves fs st inode) \<subseteq> set (file_nodes fs st inode)"
    unfolding file_leaves_def file_nodes_def by fastforce
  then have "contents fs st' (file_leaves fs st inode) = contents fs st (file_leaves fs st inode)"
    unfolding contents_def by (intro arg_cong [of _ _ concat] map_cong) (auto intro: assms)
  then show "file_data fs st' inode = file_data fs st inode" by (simp add: file_data_def leaves)
qed

lemma file_holds_data: "file_holds fs st inode data \<Longrightarrow> file_data fs st inode = Ok data"
  by (simp add: file_holds_def file_data_def Let_def)

section \<open>The disk after a write\<close>

text \<open>The blocks of the other files and the inode table are spared by a write to \<open>f\<close>.\<close>

lemma write_spares:
  assumes con: "consistent fs st L" and f: "f \<in> L" and sp: "spares fs st (nodes_at fs st f) st'" and ino: "ino \<in> L" and ok: "tables_ok fs"
  shows "blkv fs st' (table_block fs ino) = blkv fs st (table_block fs ino)" "busy fs st' (table_block fs ino)"
    and "ino \<noteq> f \<Longrightarrow> n \<in> nodes_at fs st ino \<Longrightarrow> blkv fs st' (unat n) = blkv fs st (unat n) \<and> held fs st' n"
proof -
  have "valid_ino fs ino" using con ino by (simp add: consistent_def dir_closed_def)
  then have "table_block fs ino < nblocks fs" using slot_bounds(3) [OF ok] by (simp add: table_block_def)
  then show "blkv fs st' (table_block fs ino) = blkv fs st (table_block fs ino)" "busy fs st' (table_block fs ino)"
    using con f ino sp unfolding consistent_def spares_def by blast+
  assume n: "ino \<noteq> f" "n \<in> nodes_at fs st ino"
  then have "held fs st n" "n \<notin> nodes_at fs st f" using con f ino unfolding consistent_def by blast+
  then have "unat n \<notin> unat ` nodes_at fs st f" by (auto simp: word_unat_eq_iff [symmetric])
  then show "blkv fs st' (unat n) = blkv fs st (unat n) \<and> held fs st' n"
    using sp \<open>held fs st n\<close> unfolding spares_def held_def plain_def by blast
qed

lemma consistent_table:
  assumes "consistent fs st L" and "tables_ok fs" and "ino \<in> L"
  shows "valid_ino fs ino" "table_block fs ino \<notin> bitmap_blocks fs" "busy fs st (table_block fs ino)" "table_block fs ino < nblocks fs"
    and "\<And>other. other \<in> L \<Longrightarrow> table_block fs ino \<notin> unat ` nodes_at fs st other"
proof -
  show v: "valid_ino fs ino" using assms(1,3) by (simp add: consistent_def dir_closed_def)
  show "table_block fs ino \<notin> bitmap_blocks fs" "busy fs st (table_block fs ino)"
      "\<And>other. other \<in> L \<Longrightarrow> table_block fs ino \<notin> unat ` nodes_at fs st other"
    using assms(1,3) unfolding consistent_def by blast+
  show "table_block fs ino < nblocks fs" using slot_bounds(3) [OF assms(2) v] by (simp add: table_block_def)
qed

text \<open>Writing an inode changes its block of the table only, and no mark.\<close>

lemma put_inode_frame:
  assumes "blocks_ok fs cap" and "table_block fs f \<notin> bitmap_blocks fs"
  shows "m \<noteq> table_block fs f \<Longrightarrow> blkv fs (put_inode fs st f sectors inode) m = blkv fs st m"
    and "m < nblocks fs \<Longrightarrow> busy fs (put_inode fs st f sectors inode) m = busy fs st m"
  using assms busy_bput [of "table_block fs f" fs cap m] by (simp_all add: put_inode_def blkv_bput table_block_def)

text \<open>
  The inodes of a consistent disk after the data of \<open>f\<close> has been written, which leads to
  \<open>st1\<close>, and its inode, which leads to \<open>st2\<close>.
\<close>

definition written :: "Ext2Fs \<Rightarrow> u32 set \<Rightarrow> u32 \<Rightarrow> store \<Rightarrow> bytes \<Rightarrow> Inode \<Rightarrow> store \<Rightarrow> store \<Rightarrow> bool" where
  "written fs L f st data inode st1 st2 \<longleftrightarrow>
     consistent fs st L \<and> tables_ok fs \<and> f \<in> L \<and> is_file (inode_at fs st f) \<and>
     write_done fs st (inode_at fs st f) data inode st1 \<and> (\<forall>n. length (st1 n) = 512) \<and>
     (\<exists>sectors. st2 = put_inode fs st1 f sectors inode)"

lemma written_file:
  assumes "written fs L f st data inode st1 st2"
  shows "is_file inode" "inode_at fs st2 f = inode"
    and "ino \<in> L \<Longrightarrow> ino \<noteq> f \<Longrightarrow> inode_at fs st2 ino = inode_at fs st ino"
proof -
  from assms obtain sectors where con: "consistent fs st L" and ok: "tables_ok fs" and f: "f \<in> L" "is_file (inode_at fs st f)"
      and w: "write_done fs st (inode_at fs st f) data inode st1" and len: "\<And>n. length (st1 n) = 512"
      and st2: "st2 = put_inode fs st1 f sectors inode"
    unfolding written_def by blast
  show isf: "is_file inode" using w f(2) by (simp add: write_done_def is_file_def)
  have "length (i_blocks inode) = 15" using w by (simp add: write_done_def file_holds_def)
  note put = inode_at_put [OF ok consistent_table(1) [OF con ok f(1)] len this disjI1 [OF isf], where sectors = sectors]
  show "inode_at fs st2 f = inode" unfolding st2 by (rule put(1))
  have sp: "spares fs st (nodes_at fs st f) st1" using w by (simp add: write_done_def nodes_at_def)
  assume ino: "ino \<in> L" "ino \<noteq> f"
  then have "inode_at fs st1 ino = inode_at fs st ino"
    using write_spares(1) [OF con f(1) sp _ ok] by (simp add: inode_at_def table_block_def)
  then show "inode_at fs st2 ino = inode_at fs st ino"
    using put(2) [OF consistent_table(1) [OF con ok ino(1)] ino(2)] by (simp add: st2)
qed

lemma written_nodes:
  assumes wr: "written fs L f st data inode st1 st2" and ok: "blocks_ok fs cap"
  shows "m < nblocks fs \<Longrightarrow> busy fs st2 m = busy fs st1 m"
    and "ino \<in> L \<Longrightarrow> ino \<noteq> f \<Longrightarrow> nodes_at fs st2 ino = nodes_at fs st ino"
    and "ino \<in> L \<Longrightarrow> ino \<noteq> f \<Longrightarrow> file_data fs st2 (inode_at fs st ino) = file_data fs st (inode_at fs st ino)"
    and "nodes_at fs st2 f = set (file_nodes fs st1 inode)" and "file_data fs st2 inode = Ok data"
    and "ino \<in> L \<Longrightarrow> n \<in> nodes_at fs st2 ino \<Longrightarrow> held fs st2 n"
    and "n \<in> nodes_at fs st2 f \<Longrightarrow> n \<in> nodes_at fs st f \<or> \<not> busy fs st (unat n)"
proof -
  from wr obtain sectors where con: "consistent fs st L" and tok: "tables_ok fs" and f: "f \<in> L"
      and w: "write_done fs st (inode_at fs st f) data inode st1" and st2: "st2 = put_inode fs st1 f sectors inode"
    unfolding written_def by blast
  have sp: "spares fs st (nodes_at fs st f) st1" and holds: "file_holds fs st1 inode data"
      and fresh: "\<And>n. n \<in> set (file_nodes fs st1 inode) \<Longrightarrow> n \<in> nodes_at fs st f \<or> \<not> busy fs st (unat n)"
    using w by (auto simp: write_done_def nodes_at_def)
  note tf = consistent_table [OF con tok f]
  note frame = put_inode_frame [OF ok tf(2), of _ st1 sectors inode, folded st2]
  show busy2: "busy fs st2 m = busy fs st1 m" if "m < nblocks fs" for m using frame(2) that .
  have other: "blkv fs st2 (unat n) = blkv fs st (unat n) \<and> held fs st2 n" if "ino \<in> L" "ino \<noteq> f" "n \<in> nodes_at fs st ino" for ino n
  proof -
    have "blkv fs st1 (unat n) = blkv fs st (unat n) \<and> held fs st1 n" by (rule write_spares(3) [OF con f sp that(1) tok that(2,3)])
    moreover have "unat n \<noteq> table_block fs f" using tf(5) [OF that(1)] that(3) by (metis imageI)
    ultimately show ?thesis using frame(1) [of "unat n"] busy2 [of "unat n"] by (auto simp: held_def plain_def)
  qed
  show nodes_o: "nodes_at fs st2 ino = nodes_at fs st ino"
      and "file_data fs st2 (inode_at fs st ino) = file_data fs st (inode_at fs st ino)" if "ino \<in> L" "ino \<noteq> f" for ino
    using file_cong [of fs st "inode_at fs st ino" st2] other [OF that] written_file(3) [OF wr that] by (auto simp: nodes_at_def)
  have nf: "unat n \<noteq> table_block fs f" if "n \<in> set (file_nodes fs st1 inode)" for n
    using fresh [OF that] tf(3) tf(5) [OF f] by (metis imageI)
  have same: "file_nodes fs st2 inode = file_nodes fs st1 inode" "file_data fs st2 inode = file_data fs st1 inode"
    using file_cong [of fs st1 inode st2] frame(1) nf by simp_all
  show nodes_f: "nodes_at fs st2 f = set (file_nodes fs st1 inode)" using same(1) written_file(2) [OF wr] by (simp add: nodes_at_def)
  show "file_data fs st2 inode = Ok data" using same(2) file_holds_data [OF holds] by simp
  show "n \<in> nodes_at fs st f \<or> \<not> busy fs st (unat n)" if "n \<in> nodes_at fs st2 f" using that fresh nodes_f by simp
  show "held fs st2 n" if "ino \<in> L" "n \<in> nodes_at fs st2 ino" for ino n
  proof (cases "ino = f")
    case True
    then have "held fs st1 n" using that(2) holds nodes_f by (auto simp: file_holds_def list_all_iff)
    then show ?thesis using busy2 [of "unat n"] by (auto simp: held_def plain_def)
  next
    case False
    then show ?thesis using other [OF that(1) False] that nodes_o [OF that(1) False] by blast
  qed
qed

lemma written_consistent:
  assumes wr: "written fs L f st data inode st1 st2" and ok: "blocks_ok fs cap"
  shows "only_changed fs L f st st2" "consistent fs st2 L"
proof -
  from wr have con: "consistent fs st L" and tok: "tables_ok fs" and f: "f \<in> L"
      and w: "write_done fs st (inode_at fs st f) data inode st1"
    unfolding written_def by blast+
  note n = written_nodes [OF wr ok] and i = written_file [OF wr]
  have sp: "spares fs st (nodes_at fs st f) st1" using w by (simp add: write_done_def nodes_at_def)
  show "only_changed fs L f st st2" using i(3) n(3) by (simp add: only_changed_def)
  have tb: "table_block fs o' \<notin> unat ` nodes_at fs st2 ino" if "ino \<in> L" "o' \<in> L" for ino o'
  proof (cases "ino = f")
    case True
    have "x \<in> nodes_at fs st2 f \<Longrightarrow> unat x \<noteq> table_block fs o'" for x
      using consistent_table(3) [OF con tok that(2)] consistent_table(5) [OF con tok that(2) f] n(7) [of x] by (metis imageI)
    then show ?thesis unfolding True by (metis imageE)
  next
    case False
    then show ?thesis using consistent_table(5) [OF con tok that(2,1)] n(2) [OF that(1) False] by simp
  qed
  have old: "nodes_at fs st o' \<inter> nodes_at fs st ino = {}" "\<forall>m \<in> nodes_at fs st ino. busy fs st (unat m)"
    if "ino \<in> L" "o' \<in> L" "o' \<noteq> ino" for ino o'
    using con that unfolding consistent_def held_def by blast+
  have apart_f: "nodes_at fs st2 f \<inter> nodes_at fs st2 ino = {}" if "ino \<in> L" "f \<noteq> ino" for ino
    using old [OF that(1) f that(2)] n(2) [OF that(1)] n(7) that(2) by blast
  have apart: "nodes_at fs st2 o' \<inter> nodes_at fs st2 ino = {}" if "ino \<in> L" "o' \<in> L" "o' \<noteq> ino" for ino o'
    using apart_f [OF that(1)] apart_f [OF that(2)] old(1) [OF that] n(2) [OF that(1)] n(2) [OF that(2)] that(3)
    by (cases "ino = f"; cases "o' = f") auto
  have "meta_busy fs st2" using w n(1) by (simp add: write_done_def meta_busy_def)
  moreover have "dir_closed fs st2 L"
    unfolding dir_closed_def
  proof (intro conjI ballI allI impI)
    show "fs_root_ino fs \<in> L" using con by (simp add: consistent_def dir_closed_def)
    show "valid_ino fs ino" if "ino \<in> L" for ino using consistent_table(1) [OF con tok that] .
    fix ino es e
    assume ino: "ino \<in> L" and dir: "is_dir (inode_at fs st2 ino) \<and> entries fs st2 (inode_at fs st2 ino) = Ok es" and e: "e \<in> set es"
    have nf: "ino \<noteq> f" using dir file_kinds i(1,2) by auto
    then have "is_dir (inode_at fs st ino) \<and> entries fs st (inode_at fs st ino) = Ok es"
      using dir i(3) [OF ino nf] n(3) [OF ino nf] by (simp add: entries_def)
    then show "de_ino e \<in> L" using con ino e unfolding consistent_def dir_closed_def by blast
  qed
  moreover have "busy fs st2 (table_block fs ino)" if "ino \<in> L" for ino
    using write_spares(2) [OF con f sp that tok] n(1) [OF consistent_table(4) [OF con tok that]] by simp
  ultimately show "consistent fs st2 L"
    unfolding consistent_def
    by (intro conjI ballI impI) (simp_all add: tb apart n(6) consistent_table(2) [OF con tok])
qed

lemma written_read_path:
  assumes wr: "written fs L f st data inode st1 st2" and ok: "blocks_ok fs cap"
  shows "read_path fs st2 path = (if names_file fs st path f then Ok data else read_path fs st path)"
proof -
  from wr have cl: "dir_closed fs st L" and f: "is_file (inode_at fs st f)" by (simp_all add: written_def consistent_def)
  note i = written_file [OF wr] and n = written_nodes [OF wr ok]
  have look2: "look 8 fs st2 True path = rmap (new_inode fs st2 f) (look 8 fs st True path)"
    by (rule look_only_changed [OF cl written_consistent(1) [OF wr ok] f]) (simp add: i)
  show ?thesis
  proof (cases "look 8 fs st True path")
    case (Inl e)
    then show ?thesis by (simp add: read_path_def look2 names_file_def)
  next
    case (Inr at)
    have at: "fst at \<in> L" "snd at = inode_at fs st (fst at)" using look_result [OF cl Inr] by simp_all
    show ?thesis
    proof (cases "fst at = f")
      case True
      then show ?thesis
        using at f i n(5) by (cases at) (simp add: read_path_def look2 Inr new_inode_def names_file_def)
    next
      case False
      then show ?thesis
        using at n(3) [OF at(1) False] by (cases at) (simp add: read_path_def look2 Inr new_inode_def names_file_def)
    qed
  qed
qed

context ext2_device
begin

lemma consistent_range:
  assumes "consistent fs st L" and "ino \<in> L"
  shows "list_all (plain fs) (file_nodes fs st (inode_at fs st ino))"
    "list_all (\<lambda>n. unat n < nblocks fs) (file_nodes fs st (inode_at fs st ino))"
  using assms by (auto simp: consistent_def nodes_at_def list_all_iff held_def plain_def)

lemma exact_lookup_path:
  assumes "blocks_ok fs cap" and "tables_ok fs" and "consistent fs st L"
  shows "ex (lookup_path ops fs path) st (look 8 fs st True path)"
proof -
  have "geom fs cap" "dir_closed fs st L" using assms(1,3) unfolding blocks_ok_def consistent_def by blast+
  then show ?thesis
    unfolding lookup_path_def by (intro exact_look [where L = L] assms(2) consistent_range(2) [OF assms(3)])
qed

lemma exact_read_file:
  assumes "blocks_ok fs cap" and "tables_ok fs" and "consistent fs st L"
  shows "ex (read_file ops fs path) st (read_path fs st path)"
  unfolding read_file_def read_path_def
proof (rule exact_bind [OF exact_lookup_path [OF assms]])
  fix at
  assume "look 8 fs st True path = Inr at"
  moreover have "dir_closed fs st L" using assms(3) unfolding consistent_def by blast
  ultimately have "fst at \<in> L" "snd at = inode_at fs st (fst at)" using look_result by blast+
  then show "ex (case at of (_, inode) \<Rightarrow> if \<not> is_file inode then xfail X_NotFile else read_inode_data ops fs inode) st
      (case at of (_, inode) \<Rightarrow> if \<not> is_file inode then Err X_NotFile else file_data fs st inode)"
    using exact_read_data [OF _ consistent_range(2) [OF assms(3)], of "fst at"] assms(1) by (cases at) (auto simp: blocks_ok_def)
qed

lemma wp_write_file:
  assumes ok: "blocks_ok fs cap" "tables_ok fs" and con: "consistent fs st L"
  shows "wp (write_file ops fs path data) st (upon
     (\<lambda>e st'. st' = st \<and> (\<forall>f. \<not> names_file fs st path f) \<or> e = X_NoSpace \<and> disk_full fs st' \<or>
              e = X_Unsupported \<and> max_file_blocks < blocks_for data)
     (\<lambda>_ st'. \<exists>f inode st1. names_file fs st path f \<and> written fs L f st data inode st1 st'))"
    (is "wp _ _ (upon ?E ?P)")
  unfolding write_file_def
proof (rule wpx_bind, rule exact_upon [OF exact_lookup_path [OF ok con]])
  have g: "geom fs cap" using ok(1) by (simp add: blocks_ok_def)
  have meta: "meta_busy fs st" and cl: "dir_closed fs st L" using con unfolding consistent_def by blast+
  show "case look 8 fs st True path of Inl e \<Rightarrow> ?E e st | Inr x \<Rightarrow> wp (case x of (ino, inode0) \<Rightarrow>
      if \<not> is_file inode0 then xfail X_NotFile
      else xbind (write_inode_data ops fs inode0 data) (\<lambda>inode. write_inode ops fs ino inode)) st (upon ?E ?P)"
  proof (cases "look 8 fs st True path")
    case (Inl e)
    then show ?thesis by (simp add: names_file_def)
  next
    case (Inr at)
    obtain f where at: "at = (f, inode_at fs st f)" "f \<in> L" using look_result [OF cl Inr] by (cases at) auto
    show ?thesis
    proof (cases "is_file (inode_at fs st f)")
      case False
      then have "?E X_NotFile st" by (simp add: names_file_def Inr at)
      then show ?thesis using False by (simp add: Inr at wpx_fail)
    next
      case True
      have names: "names_file fs st path f" using True by (simp add: names_file_def Inr at)
      have valid: "valid_ino fs f" using con at(2) by (simp add: consistent_def dir_closed_def)
      have "wp (xbind (write_inode_data ops fs (inode_at fs st f) data) (\<lambda>inode. write_inode ops fs f inode)) st (upon ?E ?P)"
      proof (rule wpx_bindI [OF wpx_upon_conseq [OF wp_write_inode_data [OF ok(1) meta consistent_range(1) [OF con at(2)]]]])
        show "?E e st'" if "write_failed fs st (inode_at fs st f) data e st'" for e st' using that by (auto simp: write_failed_def)
        fix inode st1
        assume w: "write_done fs st (inode_at fs st f) data inode st1"
        show "wp (write_inode ops fs f inode) st1 (upon ?E ?P)"
        proof (rule wp_len, rule wp_write_inode [OF g ok(2) valid])
          show "list_all (\<lambda>n. unat n < nblocks fs) (file_nodes fs st1 inode)" "length (i_blocks inode) = 15"
              "is_file inode \<or> drop_bit 32 (i_size inode) = 0"
            using w True by (auto simp: write_done_def file_holds_def list_all_iff held_def plain_def is_file_def)
          show "?P () (put_inode fs st1 f sectors inode)" if "\<And>n. length (st1 n) = 512" for sectors
            using names con ok(2) at(2) True w that unfolding written_def by blast
        qed
      qed auto
      then show ?thesis using True by (simp add: Inr at)
    qed
  qed
qed

end

end
