(* ===== verification/Ext2_Demo.thy ===== *)
theory Ext2_Demo
  imports Ext2_Files
begin

text \<open>
  A small disk for examples: one group of sixteen blocks and sixteen inodes, a root
  directory in block seven with one file \<open>a\<close> of three bytes in block eight, on the block
  driver over a device in memory.
\<close>

definition demo_fs :: Ext2Fs where
  "demo_fs =
     \<lparr>fs_start_sector = 0, fs_block_size = 1024, fs_blocks_count = 16, fs_inodes_count = 16, fs_blocks_per_group = 16,
      fs_inodes_per_group = 16, fs_inode_size = 128,
      fs_groups = [\<lparr>g_block_bitmap = 3, g_inode_bitmap = 4, g_inode_table = 5\<rparr>], fs_root_ino = 2\<rparr>"

definition demo_root :: Inode where
  "demo_root = empty_inode 0x41ED 0 0 1024 2 (7 # replicate 14 0) 0"

definition demo_file :: Inode where
  "demo_file = empty_inode 0x81A4 0 0 3 1 (8 # replicate 14 0) 0"

definition demo_dir :: bytes where
  "demo_dir =
     [2, 0, 0, 0, 12, 0, 1, 2, 46, 0, 0, 0] @ [2, 0, 0, 0, 12, 0, 2, 2, 46, 46, 0, 0] @
     [11, 0, 0, 0, 0xE8, 3, 1, 1, 97] @ replicate 991 0"

definition demo_sectors :: "bytes list" where
  "demo_sectors =
     (replicate 32 (replicate 512 0))
       [6 := [0xFF, 1] @ replicate 510 0, 8 := [0xFF, 7] @ replicate 510 0,
        10 := replicate 128 0 @ encode_inode 2 demo_root @ replicate 256 0,
        12 := replicate 256 0 @ encode_inode 0 demo_file @ replicate 128 0,
        14 := take 512 demo_dir, 15 := drop 512 demo_dir, 16 := [97, 98, 99] @ replicate 509 0]"

definition demo_kernel :: "bytes list VirtioBlockDriver option \<times> u64" where
  "demo_kernel = (Some \<lparr>drv_sector_count = 32, hardware = True, transport = LegacyIo, device = demo_sectors\<rparr>, 0)"

abbreviation demo_ops :: "(bytes list VirtioBlockDriver option \<times> u64) DevOps" where
  "demo_ops \<equiv> kernel_dev ram_ops"

abbreviation demo_sect :: "bytes list VirtioBlockDriver option \<times> u64 \<Rightarrow> store" where
  "demo_sect s \<equiv> drv_sect ram_sect (fst s)"

abbreviation demo_good :: "bytes list VirtioBlockDriver option \<times> u64 \<Rightarrow> bool" where
  "demo_good s \<equiv> drv_good (ram_ok 32) 32 (fst s)"

definition demo_store :: store where
  "demo_store = demo_sect demo_kernel"

lemma demo_device: "ext2_device demo_ops demo_sect demo_good 32"
  by (rule ram.kernel.ext2_device_axioms)

lemma demo_inodes:
  "length (encode_inode 2 demo_root) = 128" "parse_inode (encode_inode 2 demo_root) = demo_root"
  "length (encode_inode 0 demo_file) = 128" "parse_inode (encode_inode 0 demo_file) = demo_file"
proof -
  have "length (i_blocks demo_root) = 15" "is_file demo_root \<or> drop_bit 32 (i_size demo_root) = 0"
    by (simp_all add: demo_root_def empty_inode_def)
  then show "length (encode_inode 2 demo_root) = 128" "parse_inode (encode_inode 2 demo_root) = demo_root"
    by (rule parse_encode)+
  have "length (i_blocks demo_file) = 15" "is_file demo_file \<or> drop_bit 32 (i_size demo_file) = 0"
    by (simp_all add: demo_file_def empty_inode_def is_file_def ext2_consts)
  then show "length (encode_inode 0 demo_file) = 128" "parse_inode (encode_inode 0 demo_file) = demo_file"
    by (rule parse_encode)+
qed

lemma length_demo_dir: "length demo_dir = 1024"
  by (simp add: demo_dir_def)

lemma demo_good: "demo_good demo_kernel"
  by (auto simp: drv_good_def demo_kernel_def ram_ok_def demo_sectors_def demo_inodes length_demo_dir
      dest!: set_update_subset_insert [THEN subsetD])

lemma demo_blkv:
  "blkv demo_fs demo_store 3 = [0xFF, 1] @ replicate 1022 0"
  "blkv demo_fs demo_store 5 = replicate 128 0 @ encode_inode 2 demo_root @ replicate 768 0"
  "blkv demo_fs demo_store 6 = replicate 256 0 @ encode_inode 0 demo_file @ replicate 640 0"
  "blkv demo_fs demo_store 7 = demo_dir"
  by (simp_all add: blkv_def demo_store_def demo_fs_def drv_sect_def demo_kernel_def ram_sect_def demo_sectors_def
      replicate_add [symmetric])

lemma demo_blocks_ok: "blocks_ok demo_fs 32"
  by (simp add: blocks_ok_def geom_def bitmaps_ok_def demo_fs_def)

lemma demo_tables_ok: "tables_ok demo_fs"
  by (simp add: tables_ok_def demo_fs_def table_start_def)

lemma demo_bitmaps: "bitmap_blocks demo_fs = {3}"
  by (simp add: bitmap_blocks_def demo_fs_def)

lemma demo_busy:
  assumes "n < 9"
  shows "busy demo_fs demo_store n"
proof -
  have "mark_block g_block_bitmap (bpg demo_fs) demo_fs n = 3" "n mod bpg demo_fs = n"
    using assms by (simp_all add: mark_block_def demo_fs_def)
  moreover have "n \<in> {0, 1, 2, 3, 4, 5, 6, 7, 8}" using assms by auto
  ultimately show ?thesis by (auto simp: busy_def marked_def demo_blkv isset_def)
qed

lemma demo_slots: "slot demo_fs 2 = 5248" "slot demo_fs 11 = 6400"
  by (simp_all add: slot_def table_start_def demo_fs_def Let_def)

lemma demo_inode_at: "inode_at demo_fs demo_store 2 = demo_root" "inode_at demo_fs demo_store 11 = demo_file"
  by (simp_all add: inode_at_def demo_slots demo_blkv demo_inodes)

lemma demo_blocks:
  "direct_blocks demo_root = [7]" "i_blocks demo_root ! 12 = 0" "i_blocks demo_root ! 13 = 0" "i_blocks demo_root ! 14 = 0"
  "direct_blocks demo_file = [8]" "i_blocks demo_file ! 12 = 0" "i_blocks demo_file ! 13 = 0" "i_blocks demo_file ! 14 = 0"
  by (simp_all add: direct_blocks_def demo_root_def demo_file_def empty_inode_def)

lemma demo_nodes: "nodes_at demo_fs demo_store 2 = {7}" "nodes_at demo_fs demo_store 11 = {8}"
  by (simp_all add: nodes_at_def demo_inode_at file_nodes_def demo_blocks)

lemma demo_data: "file_data demo_fs demo_store demo_root = Ok demo_dir" "unat (i_size demo_root) = 1024"
  by (simp_all add: file_data_def file_leaves_def demo_blocks demo_blkv length_demo_dir)
     (simp_all add: demo_root_def empty_inode_def length_demo_dir)

lemma demo_recs:
  "rec_len demo_dir 0 = 12" "rec_name_len demo_dir 0 = 1" "rec_ino demo_dir 0 = 2" "rec_name demo_dir 0 = [46]"
  "rec_len demo_dir 12 = 12" "rec_name_len demo_dir 12 = 2" "rec_ino demo_dir 12 = 2" "rec_name demo_dir 12 = [46, 46]"
  "rec_len demo_dir 24 = 1000" "rec_name_len demo_dir 24 = 1" "rec_ino demo_dir 24 = 11" "rec_name demo_dir 24 = [97]"
  by (simp_all add: rec_len_def rec_name_len_def rec_ino_def rec_name_def demo_dir_def le_u16_def le_u32_def
      u16_from_le_def u32_from_le_def u16_from_be_def u32_from_be_def)

lemma demo_entries:
  "entries demo_fs demo_store demo_root =
     Ok [\<lparr>de_ino = 2, de_name = [46]\<rparr>, \<lparr>de_ino = 2, de_name = [46, 46]\<rparr>, \<lparr>de_ino = 11, de_name = [97]\<rparr>]"
proof -
  have "dir_loop demo_dir 1024 1024 = []" by (simp add: dir_loop.simps rec_ends_def)
  then have "dir_loop demo_dir 1024 24 = [\<lparr>de_ino = 11, de_name = [97]\<rparr>]"
    by (subst dir_loop.simps) (simp add: rec_ends_def rec_used_def demo_recs saturating_sub_def from_utf8_def in_range_def)
  then have "dir_loop demo_dir 1024 12 = [\<lparr>de_ino = 2, de_name = [46, 46]\<rparr>, \<lparr>de_ino = 11, de_name = [97]\<rparr>]"
    by (subst dir_loop.simps) (simp add: rec_ends_def rec_used_def demo_recs saturating_sub_def from_utf8_def in_range_def)
  then have "dir_loop demo_dir 1024 0 = [\<lparr>de_ino = 2, de_name = [46]\<rparr>, \<lparr>de_ino = 2, de_name = [46, 46]\<rparr>, \<lparr>de_ino = 11, de_name = [97]\<rparr>]"
    by (subst dir_loop.simps) (simp add: rec_ends_def rec_used_def demo_recs saturating_sub_def from_utf8_def in_range_def)
  then show ?thesis by (simp add: entries_def demo_data length_demo_dir)
qed

lemma demo_kinds: "is_dir demo_root" "is_file demo_file"
  by (simp_all add: is_dir_def is_file_def demo_root_def demo_file_def empty_inode_def ext2_consts)

lemma demo_valid: "valid_ino demo_fs 2" "valid_ino demo_fs 11" "fs_root_ino demo_fs = 2"
  by (simp_all add: valid_ino_def demo_fs_def)

lemma demo_consistent: "consistent demo_fs demo_store {2, 11}"
proof -
  have tb: "table_block demo_fs 2 = 5" "table_block demo_fs 11 = 6" by (simp_all add: table_block_def demo_slots)
  have "meta_busy demo_fs demo_store" using demo_busy by (auto simp: meta_busy_def demo_bitmaps)
  moreover have "dir_closed demo_fs demo_store {2, 11}"
    using file_kinds [OF demo_kinds(2)] by (auto simp: dir_closed_def demo_valid demo_inode_at demo_entries)
  moreover have "held demo_fs demo_store 7" "held demo_fs demo_store 8"
    using demo_busy [of 7] demo_busy [of 8] by (simp_all add: held_def plain_def demo_bitmaps) (simp_all add: demo_fs_def)
  ultimately show ?thesis
    using demo_busy by (auto simp: consistent_def tb demo_bitmaps demo_nodes)
qed

lemma demo_components:
  "normalize_ext2_path [47, 97] = Ok [47, 97]" "filter (\<lambda>p. p \<noteq> []) (split_slash (trim_end_slashes (trim_start [47, 97]))) = [[97]]"
  by (simp_all add: normalize_ext2_path_def starts_with_slash_def path_parts_def push_part_def components_to_path_def
      trim_start_def trim_end_slashes_def)

lemma demo_path: "names_file demo_fs demo_store [47, 97] 11"
proof -
  have "walk [[97]] again demo_fs demo_store True [] (2, demo_root) = Ok (11, demo_file)" for again
    using file_kinds [OF demo_kinds(2)]
    by (simp add: demo_kinds demo_entries find_inode_def demo_valid demo_inode_at)
  then have "look (Suc 7) demo_fs demo_store True [47, 97] = Ok (11, demo_file)"
    unfolding look.simps demo_components by (simp add: demo_components find_inode_def demo_valid demo_inode_at)
  then show ?thesis using demo_kinds by (simp add: names_file_def)
qed

end
