(* ===== verification/Ext2_Records.thy ===== *)
theory Ext2_Records
  imports Ext2_Logic Ext2_Dir
begin

text \<open>
  The records of a directory block of \<open>kernel/src/fs/ext2.rs\<close>: splitting a record adds one
  entry, merging a record into the previous one removes one.
\<close>

section \<open>Records and the bytes they depend on\<close>

text \<open>The entry a record stands for, if it is in use and its name is valid.\<close>

definition rec_entry :: "bytes \<Rightarrow> usize \<Rightarrow> DirEntry list" where
  "rec_entry data off =
     (if rec_used data off
      then case from_utf8 (rec_name data off) of
             None \<Rightarrow> [] | Some name \<Rightarrow> [\<lparr>de_ino = rec_ino data off, de_name = name\<rparr>]
      else [])"

lemma dir_loop_step:
  "\<not> rec_ends data limit off \<Longrightarrow> dir_loop data limit off = rec_entry data off @ dir_loop data limit (off + rec_len data off)"
  by (subst dir_loop.simps) (simp add: rec_entry_def)

lemma dir_loop_end: "rec_ends data limit off \<Longrightarrow> dir_loop data limit off = []"
  by (subst dir_loop.simps) simp

text \<open>Two buffers that agree from \<open>a\<close> up to \<open>b\<close>.\<close>

definition agree :: "bytes \<Rightarrow> bytes \<Rightarrow> usize \<Rightarrow> usize \<Rightarrow> bool" where
  "agree data data' a b \<longleftrightarrow> length data' = length data \<and> (\<forall>i. a \<le> i \<and> i < b \<longrightarrow> data' ! i = data ! i)"

lemma agree_sub: "agree data data' a b \<Longrightarrow> a \<le> a' \<Longrightarrow> b' \<le> b \<Longrightarrow> agree data data' a' b'"
  by (auto simp: agree_def)

lemma rec_agree:
  assumes "agree data data' off (off + 8)"
  shows "rec_ino data' off = rec_ino data off" "rec_len data' off = rec_len data off" "rec_name_len data' off = rec_name_len data off"
    "rec_used data' off = rec_used data off"
  using assms by (auto simp: agree_def rec_ino_def rec_len_def rec_name_len_def rec_used_def le_u32_def le_u16_def)

lemma rec_name_agree:
  assumes "agree data data' off (off + 8 + rec_name_len data off)" and "off + 8 + rec_name_len data off \<le> length data"
  shows "rec_name data' off = rec_name data off"
proof -
  have "rec_name_len data' off = rec_name_len data off"
    by (rule rec_agree(3)) (rule agree_sub [OF assms(1)], simp_all)
  then show ?thesis
    unfolding rec_name_def using assms by (intro nth_equalityI) (auto simp: agree_def)
qed

lemma rec_entry_agree:
  assumes "agree data data' off (off + rec_len data off)" and "8 \<le> rec_len data off" and "off + rec_len data off \<le> length data"
  shows "rec_entry data' off = rec_entry data off"
proof (cases "rec_used data off")
  case True
  then have "rec_name_len data off \<le> rec_len data off - 8" by (simp add: rec_used_def saturating_sub_def)
  then have "rec_name data' off = rec_name data off"
    by (intro rec_name_agree agree_sub [OF assms(1)]) (use assms in simp_all)
  then show ?thesis
    using rec_agree [OF agree_sub [OF assms(1)], of off] assms(2) by (simp add: rec_entry_def cong: option.case_cong)
next
  case False
  then show ?thesis using rec_agree(4) [OF agree_sub [OF assms(1)], of off] assms(2) by (simp add: rec_entry_def)
qed

lemma dir_loop_agree: "agree data data' off limit \<Longrightarrow> limit \<le> length data \<Longrightarrow> dir_loop data' limit off = dir_loop data limit off"
proof (induction data limit off rule: dir_loop.induct)
  case (1 data limit off)
  have ends: "rec_ends data' limit off = rec_ends data limit off"
    using rec_agree(2) [OF agree_sub [OF 1(2)], of off] by (auto simp: rec_ends_def)
  show ?case
  proof (cases "rec_ends data limit off")
    case True
    then show ?thesis by (simp add: dir_loop_end ends)
  next
    case False
    then have r: "8 \<le> rec_len data off" "off + rec_len data off \<le> limit" by (simp_all add: rec_ends_def)
    have "rec_len data' off = rec_len data off" using rec_agree(2) [OF agree_sub [OF 1(2)], of off] False by (simp add: rec_ends_def)
    moreover have "rec_entry data' off = rec_entry data off"
      using 1(2,3) r by (intro rec_entry_agree agree_sub [OF 1(2)]) simp_all
    moreover have "dir_loop data' limit (off + rec_len data off) = dir_loop data limit (off + rec_len data off)"
      by (rule 1(1) [OF False agree_sub [OF 1(2)] 1(3)]) simp_all
    ultimately show ?thesis using False ends by (simp add: dir_loop_step)
  qed
qed

section \<open>Splitting a record\<close>

lemma align4_bounds:
  assumes "v + 3 \<le> USIZE_MAX"
  shows "v \<le> align4 v" "align4 v \<le> v + 3"
proof -
  have "align4 v = (v + 3) div 4 * 4"
    using assms word_and_not_mask [of "word_of_nat (v + 3) :: u64" 2] unat_push_drop [of 2 "word_of_nat (v + 3)"]
      unat_word_of_nat_u64 [OF assms]
    by (simp add: align4_def mask_eq_exp_minus_1)
  then show "v \<le> align4 v" "align4 v \<le> v + 3" by presburger+
qed

lemma unat_of_nat_u16: "x \<le> 65535 \<Longrightarrow> unat (of_nat x :: u16) = x"
  by (simp add: unat_of_nat)

lemma write_record_fields:
  assumes "off + 8 + length name \<le> length buf" and "length name \<le> 255"
  shows "length (write_dir_record buf off ino len name ft) = length buf"
    "rec_ino (write_dir_record buf off ino len name ft) off = ino"
    "rec_len (write_dir_record buf off ino len name ft) off = unat len"
    "rec_name_len (write_dir_record buf off ino len name ft) off = length name"
    "rec_name (write_dir_record buf off ino len name ft) off = name"
    "i < length buf \<Longrightarrow> i < off \<or> off + 8 + length name \<le> i \<Longrightarrow> write_dir_record buf off ino len name ft ! i = buf ! i"
proof -
  define w where "w = write_dir_record buf off ino len name ft"
  show L: "length (write_dir_record buf off ino len name ft) = length buf"
    using assms(1) by (simp add: write_dir_record_def Let_def)
  have nth: "w ! i = (if off + 8 \<le> i \<and> i < off + 8 + length name then name ! (i - (off + 8)) else if i = off + 7 then ft
      else if i = off + 6 then of_nat (length name) else if off + 4 \<le> i \<and> i < off + 6 then u16_to_le len ! (i - (off + 4))
      else if off \<le> i \<and> i < off + 4 then u32_to_le ino ! (i - off) else buf ! i)" if "i < length buf" for i
    unfolding w_def write_dir_record_def Let_def put_u32_def put_u16_def
    using assms(1) that by (simp add: nth_copy_into nth_list_update)
  show "write_dir_record buf off ino len name ft ! i = buf ! i" if "i < length buf" "i < off \<or> off + 8 + length name \<le> i"
    using nth [OF that(1)] that(2) by (auto simp: w_def)
  show "rec_ino (write_dir_record buf off ino len name ft) off = ino" "rec_len (write_dir_record buf off ino len name ft) off = unat len"
    unfolding w_def [symmetric] rec_ino_def rec_len_def le_u32_def le_u16_def using assms(1)
    by (simp_all add: nth u32_to_le_def u16_to_le_def)
  show nl: "rec_name_len (write_dir_record buf off ino len name ft) off = length name"
    unfolding w_def [symmetric] rec_name_len_def using assms by (simp add: nth unat_of_nat)
  show "rec_name (write_dir_record buf off ino len name ft) off = name"
    unfolding rec_name_def nl using assms(1) L nth unfolding w_def [symmetric] by (intro nth_equalityI) simp_all
qed

text \<open>A block with a record from \<open>off\<close> on: what it leads to when it is split after its name.\<close>

lemma insert_here:
  assumes "\<not> rec_ends data limit off" and lim: "limit \<le> length data" "length data \<le> 65535"
    and actual: "actual = align4 (8 + rec_name_len data off)" and room: "actual + align4 (8 + length name) \<le> rec_len data off"
    and name: "name \<noteq> []" "length name \<le> 255" "from_utf8 name = Some name" and ino: "ino \<noteq> 0"
    and data': "data' = write_dir_record (put_u16 data (off + 4) (of_nat actual)) (off + actual) ino (of_nat (rec_len data off - actual)) name ft"
  shows "dir_loop data' limit off = rec_entry data off @ \<lparr>de_ino = ino, de_name = name\<rparr> # dir_loop data limit (off + rec_len data off)"
    "agree data data' 0 off"
proof -
  let ?n = "rec_name_len data off" and ?r = "rec_len data off" and ?b = "put_u16 data (off + 4) (of_nat actual)"
  have r: "8 \<le> ?r" "off + ?r \<le> limit" using assms(1) by (simp_all add: rec_ends_def)
  have nl: "?n \<le> 255" using unsigned_less [of "data ! (off + 6)", where 'a = nat] by (simp add: rec_name_len_def)
  have a: "8 + ?n \<le> actual" "8 + length name \<le> align4 (8 + length name)"
    using align4_bounds(1) nl name(2) by (simp_all add: actual USIZE_MAX_def)
  have fit: "off + actual + 8 + length name \<le> off + ?r" using a(2) room by linarith
  have len_b: "length ?b = length data" using r lim by simp
  have w: "off + actual + 8 + length name \<le> length ?b" using fit r lim(1) len_b by linarith
  note f = write_record_fields [OF w name(2), where ino = ino and len = "of_nat (?r - actual)" and ft = ft, folded data']
  have len: "length data' = length data" using f(1) len_b by simp
  have low: "data' ! i = (if off + 4 \<le> i \<and> i < off + 6 then u16_to_le (of_nat actual) ! (i - (off + 4)) else data ! i)"
    if "i < off + actual" for i
    using f(6) [of i] that w len_b r lim by (simp add: put_u16_def nth_copy_into)
  show "agree data data' 0 off" using low len by (auto simp: agree_def)
  have high: "agree data data' (off + ?r) limit"
    using f(6) fit a(1) len lim(1) len_b by (auto simp: agree_def put_u16_def nth_copy_into)
  have u16: "unat (of_nat x :: u16) = x" if "x \<le> ?r" for x by (rule unat_of_nat_u16) (use that r lim in linarith)
  have here: "rec_ino data' off = rec_ino data off" "rec_len data' off = actual" "rec_name_len data' off = ?n"
    using low a(1) room u16 [of actual] by (simp_all add: rec_ino_def rec_len_def rec_name_len_def le_u32_def le_u16_def u16_to_le_def)
  have nm: "rec_name data' off = rec_name data off"
    unfolding rec_name_def here(3) using low a(1) len r lim(1) by (intro nth_equalityI) simp_all
  have "rec_used data' off = rec_used data off" using a(1) room by (auto simp: rec_used_def here saturating_sub_def)
  then have ent: "rec_entry data' off = rec_entry data off" by (simp add: rec_entry_def here nm cong: option.case_cong)
  have new: "rec_len data' (off + actual) = ?r - actual" using f(3) u16 [of "?r - actual"] by simp
  have ends: "\<not> rec_ends data' limit off" "\<not> rec_ends data' limit (off + actual)"
    using a fit r room by (auto simp: rec_ends_def here new)
  have "rec_entry data' (off + actual) = [\<lparr>de_ino = ino, de_name = name\<rparr>]"
    using a(2) room name ino by (simp add: rec_entry_def rec_used_def f(2,4,5) new saturating_sub_def)
  then show "dir_loop data' limit off = rec_entry data off @ \<lparr>de_ino = ino, de_name = name\<rparr> # dir_loop data limit (off + ?r)"
    using room dir_loop_agree [OF high lim(1)] by (simp add: dir_loop_step ends ent here(2) new)
qed

lemma insert_scan_entries:
  assumes "insert_scan data limit ino name ft off = Some data'" and "limit \<le> length data" "length data \<le> 65535"
    and "name \<noteq> []" "length name \<le> 255" "from_utf8 name = Some name" and "ino \<noteq> 0"
  shows "agree data data' 0 off \<and> (\<exists>xs ys. dir_loop data limit off = xs @ ys \<and> dir_loop data' limit off = xs @ \<lparr>de_ino = ino, de_name = name\<rparr> # ys)"
  using assms
proof (induction data limit ino name ft off rule: insert_scan.induct)
  case (1 data limit ino name ft off)
  have ne: "\<not> rec_ends data limit off" using 1(2) by (subst (asm) insert_scan.simps) (auto split: if_splits)
  then have r: "8 \<le> rec_len data off" "off + rec_len data off \<le> limit" by (simp_all add: rec_ends_def)
  let ?a = "align4 (8 + rec_name_len data off)"
  show ?case
  proof (cases "?a + align4 (8 + length name) \<le> rec_len data off")
    case True
    then have "data' = write_dir_record (put_u16 data (off + 4) (of_nat ?a)) (off + ?a) ino (of_nat (rec_len data off - ?a)) name ft"
      using 1(2) ne by (subst (asm) insert_scan.simps) (simp add: Let_def)
    from insert_here [OF ne 1(3,4) refl True 1(5,6,7,8) this] show ?thesis by (auto simp: dir_loop_step [OF ne])
  next
    case False
    then have "insert_scan data limit ino name ft (off + rec_len data off) = Some data'"
      using 1(2) ne by (subst (asm) insert_scan.simps) (simp add: Let_def)
    with 1 ne False have IH: "agree data data' 0 (off + rec_len data off)"
      "\<exists>xs ys. dir_loop data limit (off + rec_len data off) = xs @ ys \<and>
         dir_loop data' limit (off + rec_len data off) = xs @ \<lparr>de_ino = ino, de_name = name\<rparr> # ys" by auto
    have len: "rec_len data' off = rec_len data off"
      by (rule rec_agree(2) [OF agree_sub [OF IH(1)]]) (use r in simp_all)
    then have ne': "\<not> rec_ends data' limit off" using ne by (simp add: rec_ends_def)
    have "rec_entry data' off = rec_entry data off"
      by (rule rec_entry_agree [OF agree_sub [OF IH(1)]]) (use r 1(3) in simp_all)
    with IH(2) have "\<exists>xs ys. dir_loop data limit off = xs @ ys \<and> dir_loop data' limit off = xs @ \<lparr>de_ino = ino, de_name = name\<rparr> # ys"
      unfolding dir_loop_step [OF ne] dir_loop_step [OF ne'] len by (metis append.assoc)
    then show ?thesis using agree_sub [OF IH(1), of 0 off] by simp
  qed
qed

section \<open>Merging a record\<close>

text \<open>From \<open>off\<close> on every record in use has room for its name.\<close>

function rec_wf :: "bytes \<Rightarrow> usize \<Rightarrow> usize \<Rightarrow> bool" where
  "rec_wf data limit off =
     (if rec_ends data limit off then True
      else (rec_ino data off = 0 \<or> 8 + rec_name_len data off \<le> rec_len data off) \<and> rec_wf data limit (off + rec_len data off))"
  by pat_completeness auto
termination
  by (relation "measure (\<lambda>(data, limit, off). limit - off)") (auto simp: rec_walk)

declare rec_wf.simps [simp del]

text \<open>Where the walk is and the record before it, if any.\<close>

definition scan_start :: "usize option \<Rightarrow> usize \<Rightarrow> usize" where
  "scan_start previous off = (case previous of None \<Rightarrow> off | Some p \<Rightarrow> p)"

definition scan_from :: "bytes \<Rightarrow> usize \<Rightarrow> usize option \<Rightarrow> usize \<Rightarrow> bool" where
  "scan_from data limit previous off \<longleftrightarrow>
     (case previous of
        None \<Rightarrow> True
      | Some p \<Rightarrow> \<not> rec_ends data limit p \<and> off = p + rec_len data p \<and>
                  (rec_ino data p = 0 \<or> 8 + rec_name_len data p \<le> rec_len data p))"

lemma merge_here:
  assumes p: "\<not> rec_ends data limit p" "\<not> rec_ends data limit (p + rec_len data p)" and lim: "limit \<le> length data" "length data \<le> 65535"
    and wf: "rec_ino data p = 0 \<or> 8 + rec_name_len data p \<le> rec_len data p"
    and data': "data' = put_u16 data (p + 4) (of_nat (rec_len data p + rec_len data (p + rec_len data p)))"
  shows "dir_loop data' limit p = rec_entry data p @ dir_loop data limit (p + rec_len data p + rec_len data (p + rec_len data p))"
    "agree data data' 0 p"
proof -
  let ?off = "p + rec_len data p" and ?sum = "rec_len data p + rec_len data (p + rec_len data p)"
  have r: "8 \<le> rec_len data p" "?off + 8 \<le> limit" "p + ?sum \<le> limit"
    using p by (simp_all add: rec_ends_def)
  have nth: "data' ! i = (if p + 4 \<le> i \<and> i < p + 6 then u16_to_le (of_nat ?sum) ! (i - (p + 4)) else data ! i)" if "i < length data" for i
    using that r lim(1) by (simp add: data' put_u16_def nth_copy_into)
  have len: "length data' = length data" using r lim(1) by (simp add: data')
  show "agree data data' 0 p" using nth len r lim(1) by (auto simp: agree_def)
  have u16: "unat (of_nat ?sum :: u16) = ?sum" by (rule unat_of_nat_u16) (use r lim in linarith)
  have here: "rec_ino data' p = rec_ino data p" "rec_len data' p = ?sum" "rec_name_len data' p = rec_name_len data p"
    using nth r lim(1) u16 by (simp_all add: rec_ino_def rec_len_def rec_name_len_def le_u32_def le_u16_def u16_to_le_def)
  have nm: "rec_name data' p = rec_name data p"
    unfolding rec_name_def here(3)
  proof (rule nth_equalityI)
    fix i
    assume "i < length (take (rec_name_len data p) (drop (p + 8) data'))"
    then have "p + 8 + i < length data" "i < rec_name_len data p" using len by auto
    then show "take (rec_name_len data p) (drop (p + 8) data') ! i = take (rec_name_len data p) (drop (p + 8) data) ! i"
      using nth [of "p + 8 + i"] len by simp
  qed (simp add: len)
  have "rec_used data' p = rec_used data p" using wf by (auto simp: rec_used_def here saturating_sub_def)
  then have ent: "rec_entry data' p = rec_entry data p" by (simp add: rec_entry_def here nm cong: option.case_cong)
  have "agree data data' (p + ?sum) limit" using nth len r lim(1) by (auto simp: agree_def)
  then have rest: "dir_loop data' limit (p + ?sum) = dir_loop data limit (p + ?sum)" by (rule dir_loop_agree) (rule lim(1))
  have "\<not> rec_ends data' limit p" using r by (simp add: rec_ends_def here)
  from dir_loop_step [OF this] show "dir_loop data' limit p = rec_entry data p @ dir_loop data limit (p + rec_len data p + rec_len data (p + rec_len data p))"
    using rest by (simp add: ent here(2) add.assoc)
qed

lemma clear_here:
  assumes p: "\<not> rec_ends data limit p" and lim: "limit \<le> length data"
  shows "dir_loop (put_u32 data p 0) limit p = dir_loop data limit (p + rec_len data p)" "agree data (put_u32 data p 0) 0 p"
proof -
  have r: "8 \<le> rec_len data p" "p + rec_len data p \<le> limit" using p by (simp_all add: rec_ends_def)
  have nth: "put_u32 data p 0 ! i = (if p \<le> i \<and> i < p + 4 then u32_to_le 0 ! (i - p) else data ! i)" if "i < length data" for i
    using that r lim by (simp add: put_u32_def nth_copy_into)
  have len: "length (put_u32 data p 0) = length data" using r lim by simp
  show "agree data (put_u32 data p 0) 0 p" using nth len r lim by (auto simp: agree_def)
  have ino: "rec_ino (put_u32 data p 0) p = 0" using r lim by (simp add: rec_ino_def)
  have rl: "rec_len (put_u32 data p 0) p = rec_len data p" using r lim by (simp add: rec_len_def le_put_other)
  have "agree data (put_u32 data p 0) (p + rec_len data p) limit" using nth len r lim by (auto simp: agree_def)
  then have "dir_loop (put_u32 data p 0) limit (p + rec_len data p) = dir_loop data limit (p + rec_len data p)"
    by (rule dir_loop_agree) (rule lim)
  moreover have "\<not> rec_ends (put_u32 data p 0) limit p" using r by (simp add: rec_ends_def rl)
  ultimately show "dir_loop (put_u32 data p 0) limit p = dir_loop data limit (p + rec_len data p)"
    using dir_loop_step [of "put_u32 data p 0" limit p] by (simp add: rl rec_entry_def rec_used_def ino)
qed

lemma remove_scan_entries:
  assumes "remove_scan data limit name previous off = Some (ino, data')" and "limit \<le> length data" "length data \<le> 65535"
    and "from_utf8 name = Some name" and "rec_wf data limit off" and "scan_from data limit previous off"
  shows "agree data data' 0 (scan_start previous off) \<and>
    (\<exists>xs ys. dir_loop data limit (scan_start previous off) = xs @ \<lparr>de_ino = ino, de_name = name\<rparr> # ys \<and>
       dir_loop data' limit (scan_start previous off) = xs @ ys)"
  using assms
proof (induction data limit name previous off rule: remove_scan.induct)
  case (1 data limit name previous off)
  have ne: "\<not> rec_ends data limit off" using 1(2) by (subst (asm) remove_scan.simps) (auto split: if_splits)
  then have r: "8 \<le> rec_len data off" "off + rec_len data off \<le> limit" by (simp_all add: rec_ends_def)
  have wf: "rec_ino data off = 0 \<or> 8 + rec_name_len data off \<le> rec_len data off" "rec_wf data limit (off + rec_len data off)"
    using 1(6) ne by (subst (asm) rec_wf.simps, simp)+
  show ?case
  proof (cases "rec_used data off \<and> rec_name data off = name")
    case True
    then have ent: "rec_entry data off = [\<lparr>de_ino = rec_ino data off, de_name = name\<rparr>]" using 1(5) by (simp add: rec_entry_def)
    have res: "ino = rec_ino data off" "data' = (case previous of Some p \<Rightarrow> put_u16 data (p + 4) (of_nat (rec_len data p + rec_len data off))
        | None \<Rightarrow> put_u32 data off 0)"
      using 1(2) ne True by (subst (asm) remove_scan.simps, simp)+
    show ?thesis
    proof (cases previous)
      case None
      then show ?thesis using clear_here [OF ne 1(3)] by (auto simp: scan_start_def res dir_loop_step [OF ne] ent)
    next
      case (Some p)
      then have p: "\<not> rec_ends data limit p" "off = p + rec_len data p"
          "rec_ino data p = 0 \<or> 8 + rec_name_len data p \<le> rec_len data p"
        using 1(7) by (simp_all add: scan_from_def)
      have d: "data' = put_u16 data (p + 4) (of_nat (rec_len data p + rec_len data (p + rec_len data p)))" using res(2) Some p(2) by simp
      from merge_here [OF p(1) ne [unfolded p(2)] 1(3,4) p(3) d] show ?thesis
        using dir_loop_step [OF p(1)] dir_loop_step [OF ne] ent by (auto simp: scan_start_def Some res(1) p(2))
    qed
  next
    case False
    then have rs: "remove_scan data limit name (Some off) (off + rec_len data off) = Some (ino, data')"
      using 1(2) ne by (subst (asm) remove_scan.simps) (simp split: if_splits)
    have IH: "agree data data' 0 off" "\<exists>xs ys. dir_loop data limit off = xs @ \<lparr>de_ino = ino, de_name = name\<rparr> # ys \<and> dir_loop data' limit off = xs @ ys"
      using 1(1) [OF ne False rs 1(3,4,5) wf(2)] ne wf(1) by (simp_all add: scan_from_def scan_start_def)
    show ?thesis
    proof (cases previous)
      case None
      then show ?thesis using IH by (simp add: scan_start_def)
    next
      case (Some p)
      then have p: "\<not> rec_ends data limit p" "off = p + rec_len data p" using 1(7) by (simp_all add: scan_from_def)
      then have rp: "8 \<le> rec_len data p" "off \<le> length data" using r 1(3) by (simp_all add: rec_ends_def)
      have len: "rec_len data' p = rec_len data p" by (rule rec_agree(2) [OF agree_sub [OF IH(1)]]) (use p(2) rp in simp_all)
      have ent: "rec_entry data' p = rec_entry data p"
        by (rule rec_entry_agree [OF agree_sub [OF IH(1)]]) (use p(2) rp in simp_all)
      have ne': "\<not> rec_ends data' limit p" using p(1) len by (simp add: rec_ends_def)
      have "dir_loop data limit p = rec_entry data p @ dir_loop data limit off" "dir_loop data' limit p = rec_entry data p @ dir_loop data' limit off"
        using dir_loop_step [OF p(1)] dir_loop_step [OF ne'] by (simp_all add: p(2) len ent)
      with IH(2) have "\<exists>xs ys. dir_loop data limit p = xs @ \<lparr>de_ino = ino, de_name = name\<rparr> # ys \<and> dir_loop data' limit p = xs @ ys"
        by (metis append.assoc)
      then show ?thesis using agree_sub [OF IH(1), of 0 p] p(2) by (simp add: scan_start_def Some)
    qed
  qed
qed

lemma remove_scan_None:
  "remove_scan data limit name previous off = None \<Longrightarrow> list_all (\<lambda>e. de_name e \<noteq> name) (dir_loop data limit off)"
proof (induction data limit name previous off rule: remove_scan.induct)
  case (1 data limit name previous off)
  show ?case
  proof (cases "rec_ends data limit off")
    case True
    then show ?thesis by (simp add: dir_loop_end)
  next
    case False
    then have used: "\<not> (rec_used data off \<and> rec_name data off = name)"
      using 1(2) by (subst (asm) remove_scan.simps) (auto split: if_splits)
    then have "remove_scan data limit name (Some off) (off + rec_len data off) = None"
      using 1(2) False by (subst (asm) remove_scan.simps) (auto split: if_splits)
    then have "list_all (\<lambda>e. de_name e \<noteq> name) (dir_loop data limit (off + rec_len data off))" by (rule 1(1) [OF False used])
    moreover have "list_all (\<lambda>e. de_name e \<noteq> name) (rec_entry data off)"
      using used by (auto simp: rec_entry_def from_utf8_def)
    ultimately show ?thesis by (simp add: dir_loop_step [OF False])
  qed
qed

end
