(* ===== verification/Ext2_Properties.thy ===== *)
theory Ext2_Properties
  imports Ext2_Demo Ext2_Records
begin

text \<open>
  What the ext2 file system of \<open>kernel/src/fs/ext2.rs\<close> promises its callers: files by path,
  and the bitmaps, the inode table and the directories below them.  Each theorem is
  stated over the interface \<open>ext2_device\<close> and applied to the example disk.
\<close>

section \<open>Directories of one block\<close>

definition one_block_dir :: "Ext2Fs \<Rightarrow> Inode \<Rightarrow> u32 \<Rightarrow> bool" where
  "one_block_dir fs parent b \<longleftrightarrow>
     i_blocks parent = b # replicate 14 0 \<and> b \<noteq> 0 \<and> unat b < nblocks fs \<and> i_size parent = 1024"

lemma one_block_entries:
  assumes "one_block_dir fs parent b" and "length (blkv fs st (unat b)) = 1024"
  shows "entries fs st parent = Ok (dir_loop (blkv fs st (unat b)) 1024 0)"
proof -
  have "direct_blocks parent = [b]" "i_blocks parent ! 12 = 0" "i_blocks parent ! 13 = 0" "i_blocks parent ! 14 = 0"
    using assms(1) by (simp_all add: one_block_dir_def direct_blocks_def)
  then show ?thesis using assms by (simp add: entries_def file_data_def file_leaves_def one_block_dir_def)
qed

context ext2_device
begin

lemma wp_dir_block:
  assumes ok: "blocks_ok fs cap" and dir: "one_block_dir fs parent b"
    and read: "length (blkv fs st (unat b)) = 1024 \<Longrightarrow> wp (f b (blkv fs st (unat b))) st (upon E P)"
  shows "wp (let block = i_blocks parent ! 0 in if block = 0 then xfail X_Unsupported
             else xbind (fs_read_block ops fs (unat block) 1024) (f block)) st (upon E P)"
proof -
  have "i_blocks parent ! 0 = b" "b \<noteq> 0" "unat b < nblocks fs" using dir by (simp_all add: one_block_dir_def)
  then show ?thesis
    using ok read by (auto simp: Let_def blocks_ok_def intro!: wpx_bind wp_read_block)
qed

lemma wp_insert_dir_entry:
  assumes ok: "blocks_ok fs cap" and dir: "one_block_dir fs parent b"
    and name: "name \<noteq> []" "length name \<le> 255" "utf8_valid name" and child: "child \<noteq> 0"
  shows "wp (insert_dir_entry ops fs parent child name ft) st (upon
     (\<lambda>e st'. e = X_DirectoryFull \<and> st' = st)
     (\<lambda>_ st'. (\<forall>n. n \<noteq> unat b \<longrightarrow> blkv fs st' n = blkv fs st n) \<and>
        (\<exists>xs ys. entries fs st parent = Ok (xs @ ys) \<and> entries fs st' parent = Ok (xs @ \<lparr>de_ino = child, de_name = name\<rparr> # ys))))"
    (is "wp _ _ (upon ?E ?P)")
proof -
  have g: "geom fs cap" "fs_block_size fs = 1024" "unat b < nblocks fs" "i_blocks parent ! 0 = b"
    using ok dir by (simp_all add: blocks_ok_def geom_def one_block_dir_def)
  have nm: "\<not> (name = [] \<or> 255 < length name)" using name by simp
  show ?thesis
    unfolding insert_dir_entry_def if_not_P [OF nm]
  proof (rule wp_dir_block [OF ok dir], unfold g(2,4))
    assume L: "length (blkv fs st (unat b)) = 1024"
    show "wp (case insert_scan (blkv fs st (unat b)) 1024 child name ft 0 of None \<Rightarrow> xfail X_DirectoryFull
        | Some data' \<Rightarrow> fs_write_block ops fs (unat b) data') st (upon ?E ?P)"
    proof (cases "insert_scan (blkv fs st (unat b)) 1024 child name ft 0")
      case None
      then show ?thesis by (simp add: wpx_fail)
    next
      case (Some data')
      have new: "length data' = 1024" "\<exists>xs ys. dir_loop (blkv fs st (unat b)) 1024 0 = xs @ ys \<and>
          dir_loop data' 1024 0 = xs @ \<lparr>de_ino = child, de_name = name\<rparr> # ys"
        using insert_scan_entries [OF Some] L name child by (simp_all add: agree_def from_utf8_def)
      then show ?thesis
        using L by (auto simp: Some one_block_entries [OF dir] blkv_bput intro!: wp_write_block [OF g(1,3)]) blast
    qed
  qed
qed

lemma wp_remove_dir_entry:
  assumes ok: "blocks_ok fs cap" and dir: "one_block_dir fs parent b" and wf: "rec_wf (blkv fs st (unat b)) 1024 0"
    and name: "name \<noteq> []" "name \<notin> set DOT_NAMES" "utf8_valid name"
  shows "wp (remove_dir_entry ops fs parent name) st (upon
     (\<lambda>e st'. e = X_NotFound \<and> st' = st \<and> (\<exists>es. entries fs st parent = Ok es \<and> list_all (\<lambda>e. de_name e \<noteq> name) es))
     (\<lambda>ino st'. (\<forall>n. n \<noteq> unat b \<longrightarrow> blkv fs st' n = blkv fs st n) \<and>
        (\<exists>xs ys. entries fs st parent = Ok (xs @ \<lparr>de_ino = ino, de_name = name\<rparr> # ys) \<and> entries fs st' parent = Ok (xs @ ys))))"
    (is "wp _ _ (upon ?E ?P)")
proof -
  have g: "geom fs cap" "fs_block_size fs = 1024" "unat b < nblocks fs" "i_blocks parent ! 0 = b"
    using ok dir by (simp_all add: blocks_ok_def geom_def one_block_dir_def)
  have nm: "\<not> (name = [] \<or> name \<in> set DOT_NAMES)" using name by simp
  show ?thesis
    unfolding remove_dir_entry_def if_not_P [OF nm]
  proof (rule wp_dir_block [OF ok dir], unfold g(2,4))
    assume L: "length (blkv fs st (unat b)) = 1024"
    show "wp (case remove_scan (blkv fs st (unat b)) 1024 name None 0 of None \<Rightarrow> xfail X_NotFound
        | Some (ino, data') \<Rightarrow> xbind (fs_write_block ops fs (unat b) data') (\<lambda>_. xok ino)) st (upon ?E ?P)"
    proof (cases "remove_scan (blkv fs st (unat b)) 1024 name None 0")
      case None
      then show ?thesis using remove_scan_None [OF None] L by (auto simp: one_block_entries [OF dir] intro!: wpx_fail)
    next
      case (Some r)
      obtain ino data' where r: "r = (ino, data')" by (cases r)
      have new: "length data' = 1024" "\<exists>xs ys. dir_loop (blkv fs st (unat b)) 1024 0 = xs @ \<lparr>de_ino = ino, de_name = name\<rparr> # ys \<and>
          dir_loop data' 1024 0 = xs @ ys"
        using remove_scan_entries [OF Some [unfolded r]] L name wf
        by (simp_all add: agree_def from_utf8_def scan_from_def scan_start_def)
      then show ?thesis
        using L by (auto simp: Some r one_block_entries [OF dir] blkv_bput intro!: wpx_bind wpx_ok wp_write_block [OF g(1,3)]) blast
    qed
  qed
qed

end

section \<open>Contents that cannot be addressed\<close>

context ext2_device
begin

lemma wp_write_too_large:
  assumes ok: "blocks_ok fs cap" and plain: "list_all (plain fs) (file_nodes fs st inode)" and large: "max_file_blocks < blocks_for data"
  shows "wp (write_inode_data ops fs inode data) st
     (upon (\<lambda>e st'. e = X_Unsupported \<and> freed fs st (set (file_nodes fs st inode)) st') P)"
proof -
  have "fs_block_size fs = 1024" using ok by (simp add: blocks_ok_def geom_def)
  then show ?thesis
    using large unfolding write_inode_data_def ext2_consts
    by (intro wpx_bindI [OF wp_free_inode_blocks [OF ok plain]]) (simp add: Let_def max_file_blocks_def blocks_for_def wpx_fail)
qed

end

section \<open>Mounting\<close>

text \<open>\<open>anyway m E P\<close>: whatever the device does, the method returns an error in \<open>E\<close> or a result in \<open>P\<close>.\<close>

definition anyway :: "('d, 'a) xio \<Rightarrow> (Ext2Error \<Rightarrow> bool) \<Rightarrow> ('a \<Rightarrow> bool) \<Rightarrow> bool" where
  "anyway m E P \<longleftrightarrow> (\<forall>d. \<exists>r d'. m d = Some (r, d') \<and> (case r of Inl e \<Rightarrow> E e | Inr x \<Rightarrow> P x))"

lemma anyway_return: "P x \<Longrightarrow> anyway (xok x) E P" "E e \<Longrightarrow> anyway (xfail e) E P"
  by (simp_all add: anyway_def xok_def xfail_def)

lemma anyway_bind:
  assumes "anyway m E P" and "\<And>x. P x \<Longrightarrow> anyway (f x) E R"
  shows "anyway (xbind m f) E R"
  unfolding anyway_def
proof
  fix d
  obtain r d' where r: "m d = Some (r, d')" "case r of Inl e \<Rightarrow> E e | Inr x \<Rightarrow> P x" using assms(1) unfolding anyway_def by blast
  show "\<exists>r d'. xbind m f d = Some (r, d') \<and> (case r of Inl e \<Rightarrow> E e | Inr x \<Rightarrow> R x)"
  proof (cases r)
    case (Inr x)
    with r have "anyway (f x) E R" by (intro assms(2)) simp
    with Inr r(1) show ?thesis unfolding anyway_def by (simp add: xbind_def)
  qed (use r in \<open>simp add: xbind_def\<close>)
qed

lemma anyway_if: "(c \<Longrightarrow> anyway m E P) \<Longrightarrow> (\<not> c \<Longrightarrow> anyway m' E P) \<Longrightarrow> anyway (if c then m else m') E P"
  by simp

text \<open>A block read ends with data or an I/O error, and with data only for blocks of 1024 bytes.\<close>

lemma anyway_read_block:
  assumes "E X_IoError"
  shows "anyway (read_block_sized ops start block sz len) E (\<lambda>_. sz = 1024)"
proof (cases "len < sz \<or> sz \<noteq> 1024")
  case False
  have rd: "anyway (read_sector ops n) E (\<lambda>_. True)" for n
    using assms by (auto simp: anyway_def read_sector_def split: prod.splits option.splits)
  have "\<not> (len < sz \<or> sz \<noteq> 1024)" "sz = 1024" using False by simp_all
  then show ?thesis
    unfolding read_block_sized_def Let_def by (simp only: if_False) (rule anyway_bind [OF rd], rule anyway_bind [OF rd], rule anyway_return, rule refl)
qed (use assms in \<open>auto simp: read_block_sized_def intro!: anyway_return\<close>)

lemma anyway_xmap:
  assumes "\<And>x. anyway (f x) E (\<lambda>_. P)"
  shows "anyway (xmap f xs) E (\<lambda>_. xs = [] \<or> P)"
proof (induction xs)
  case (Cons x xs)
  show ?case
    unfolding xmap.simps by (rule anyway_bind [OF assms], rule anyway_bind [OF Cons.IH], rule anyway_return) simp
qed (simp add: anyway_return)

definition mounted_ok :: "nat \<Rightarrow> Ext2Fs \<Rightarrow> bool" where
  "mounted_ok start fs \<longleftrightarrow>
     fs_start_sector fs = start \<and> fs_root_ino fs = 2 \<and> fs_block_size fs \<in> {1024, 2048, 4096} \<and>
     0 < bpg fs \<and> 0 < ipg fs \<and> 128 \<le> fs_inode_size fs \<and>
     length (fs_groups fs) = (nblocks fs + bpg fs - 1) div bpg fs \<and> nblocks fs \<le> length (fs_groups fs) * bpg fs \<and>
     (fs_groups fs = [] \<or> fs_block_size fs = 1024)"

lemma mounted_okI:
  assumes "k \<le> 2" and "0 < unat b" and "0 < unat i" and "128 \<le> z" and "length gs = (unat n + unat b - 1) div unat b"
    and "gs = [] \<or> 1024 * 2 ^ k = (1024 :: nat)"
  shows "mounted_ok start \<lparr>fs_start_sector = start, fs_block_size = 1024 * 2 ^ k, fs_blocks_count = n, fs_inodes_count = m,
     fs_blocks_per_group = b, fs_inodes_per_group = i, fs_inode_size = z, fs_groups = gs, fs_root_ino = 2\<rparr>"
proof -
  have "k = 0 \<or> k = 1 \<or> k = 2" using assms(1) by linarith
  moreover have "unat n \<le> length gs * unat b" using div_ceil_le [OF assms(2), of "unat n" "length gs"] assms(5) by simp
  ultimately show ?thesis using assms by (auto simp: mounted_ok_def)
qed

lemma no_descriptors: "(g * 32 + 1024 * 2 ^ k - Suc 0) div (1024 * 2 ^ k) = 0 \<Longrightarrow> g = (0 :: nat)"
  using div_ceil_le [of "1024 * 2 ^ k" "g * 32" 0] by simp

section \<open>Properties\<close>

text \<open>
  C1: writing and reading files by path.  On a consistent disk \<open>write_file\<close> returns; it
  fails only when the path names no file, when the disk is full, or when the contents
  need more blocks than an inode can address.  When it succeeds the disk is consistent
  again, and every path reads the new contents if it names the file written, through
  whatever directories and symbolic links, and what it read before if it does not.
\<close>

theorem write_file_read_file:
  assumes "ext2_device ops sect good cap" and "blocks_ok fs cap" and "tables_ok fs" and "consistent fs (sect d) L" and "good d"
  shows "\<exists>r d'. write_file ops fs path data d = Some (r, d') \<and> good d' \<and>
    (case r of
       Inl e \<Rightarrow> sect d' = sect d \<and> (\<forall>f. \<not> names_file fs (sect d) path f) \<or>
                e = X_NoSpace \<and> disk_full fs (sect d') \<or> e = X_Unsupported \<and> max_file_blocks < blocks_for data
     | Inr _ \<Rightarrow> consistent fs (sect d') L \<and>
         (\<exists>f. names_file fs (sect d) path f \<and>
            (\<forall>p. \<exists>x e e'. read_file ops fs p d = Some (x, e) \<and>
               read_file ops fs p d' = Some (if names_file fs (sect d) p f then Ok data else x, e'))))"
proof -
  note dev = ext2_device.wp_write_file [OF assms(1-4)] and rd = ext2_device.exact_read_file [OF assms(1-3)]
  obtain r d' where r: "write_file ops fs path data d = Some (r, d')" "good d'"
      "upon (\<lambda>e st'. st' = sect d \<and> (\<forall>f. \<not> names_file fs (sect d) path f) \<or> e = X_NoSpace \<and> disk_full fs st' \<or>
              e = X_Unsupported \<and> max_file_blocks < blocks_for data)
        (\<lambda>_ st'. \<exists>f inode st1. names_file fs (sect d) path f \<and> written fs L f (sect d) data inode st1 st') r (sect d')"
    using wpxD [OF dev assms(5)] by blast
  show ?thesis
  proof (cases r)
    case (Inl e)
    then show ?thesis using r by auto
  next
    case (Inr u)
    then obtain f inode st1 where f: "names_file fs (sect d) path f" and wr: "written fs L f (sect d) data inode st1 (sect d')"
      using r(3) by auto
    have con: "consistent fs (sect d') L" by (rule written_consistent(2) [OF wr assms(2)])
    have "\<exists>x e e'. read_file ops fs p d = Some (x, e) \<and>
        read_file ops fs p d' = Some (if names_file fs (sect d) p f then Ok data else x, e')" for p
    proof -
      obtain e where "read_file ops fs p d = Some (read_path fs (sect d) p, e)" using exactD [OF rd [OF assms(4)] assms(5)] by blast
      moreover obtain e' where "read_file ops fs p d' = Some (read_path fs (sect d') p, e')" using exactD [OF rd [OF con] r(2)] by blast
      ultimately show ?thesis unfolding written_read_path [OF wr assms(2)] by blast
    qed
    then have "\<exists>f. names_file fs (sect d) path f \<and> (\<forall>p. \<exists>x e e'. read_file ops fs p d = Some (x, e) \<and>
        read_file ops fs p d' = Some (if names_file fs (sect d) p f then Ok data else x, e'))"
      using f by blast
    then show ?thesis unfolding r(1) Inr using r(2) con by simp
  qed
qed

theorem write_file_read_file_witness:
  "\<exists>r d'. write_file demo_ops demo_fs [47, 97] [104, 105] demo_kernel = Some (r, d') \<and>
     (case r of
        Inl e \<Rightarrow> e = X_NoSpace \<and> disk_full demo_fs (demo_sect d')
      | Inr _ \<Rightarrow> \<exists>e. read_file demo_ops demo_fs [47, 97] d' = Some (Ok [104, 105], e))"
proof -
  have con: "consistent demo_fs (demo_sect demo_kernel) {2, 11}" using demo_consistent by (simp add: demo_store_def)
  have path: "names_file demo_fs (demo_sect demo_kernel) [47, 97] 11" using demo_path by (simp add: demo_store_def)
  have small: "\<not> max_file_blocks < blocks_for [104, 105]" by (simp add: max_file_blocks_def blocks_for_def)
  obtain r d' where r: "write_file demo_ops demo_fs [47, 97] [104, 105] demo_kernel = Some (r, d')"
      "case r of
         Inl e \<Rightarrow> demo_sect d' = demo_sect demo_kernel \<and> (\<forall>f. \<not> names_file demo_fs (demo_sect demo_kernel) [47, 97] f) \<or>
                  e = X_NoSpace \<and> disk_full demo_fs (demo_sect d') \<or> e = X_Unsupported \<and> max_file_blocks < blocks_for [104, 105]
       | Inr _ \<Rightarrow> consistent demo_fs (demo_sect d') {2, 11} \<and>
           (\<exists>f. names_file demo_fs (demo_sect demo_kernel) [47, 97] f \<and>
              (\<forall>p. \<exists>x e e'. read_file demo_ops demo_fs p demo_kernel = Some (x, e) \<and>
                 read_file demo_ops demo_fs p d' =
                   Some (if names_file demo_fs (demo_sect demo_kernel) p f then Ok [104, 105] else x, e')))"
    using write_file_read_file [OF demo_device demo_blocks_ok demo_tables_ok con demo_good] by blast
  show ?thesis
  proof (cases r)
    case (Inl e)
    then show ?thesis using r path small by auto
  next
    case (Inr u)
    then obtain f where f: "names_file demo_fs (demo_sect demo_kernel) [47, 97] f"
        "\<forall>p. \<exists>x e e'. read_file demo_ops demo_fs p demo_kernel = Some (x, e) \<and>
           read_file demo_ops demo_fs p d' =
             Some (if names_file demo_fs (demo_sect demo_kernel) p f then Ok [104, 105] else x, e')"
      using r(2) by (simp only: sum.case) blast
    then obtain e where "read_file demo_ops demo_fs [47, 97] d' = Some (Ok [104, 105], e)"
      using spec [OF f(2), of "[47, 97]"] by (simp only: if_True) blast
    then show ?thesis using r(1) Inr by auto
  qed
qed

text \<open>
  C8: allocating a block.  The allocator returns the lowest block whose mark is clear and
  sets that mark and no other; it reports \<open>NoSpace\<close> only when every mark is set, and then
  changes nothing.  Freeing the block restores every mark.  No block other than a bitmap
  is touched.
\<close>

theorem allocate_block_lowest:
  assumes "ext2_device ops sect good cap" and "blocks_ok fs cap" and "good d"
  shows "\<exists>r d'. allocate_block ops fs d = Some (r, d') \<and> good d' \<and>
    (case r of
       Inl e \<Rightarrow> e = X_NoSpace \<and> disk_full fs (sect d) \<and> sect d' = sect d
     | Inr b \<Rightarrow> unat b < nblocks fs \<and> \<not> busy fs (sect d) (unat b) \<and> (\<forall>n < unat b. busy fs (sect d) n) \<and>
         (\<forall>n < nblocks fs. busy fs (sect d') n \<longleftrightarrow> n = unat b \<or> busy fs (sect d) n) \<and>
         (\<forall>n. n \<notin> bitmap_blocks fs \<longrightarrow> blkv fs (sect d') n = blkv fs (sect d) n) \<and>
         (\<exists>d''. free_block ops fs b d' = Some (Ok (), d'') \<and> good d'' \<and>
            (\<forall>n < nblocks fs. busy fs (sect d'') n = busy fs (sect d) n)))"
proof -
  have len: "length (sect e n) = 512" if "good e" for e n
    using assms(1) that unfolding ext2_device_def sector_device_def by blast
  obtain r d' where r: "allocate_block ops fs d = Some (r, d')" "good d'"
      "upon (\<lambda>e st'. e = X_NoSpace \<and> st' = sect d \<and> disk_full fs (sect d))
        (\<lambda>b st'. unat b < nblocks fs \<and> \<not> busy fs (sect d) (unat b) \<and> (\<forall>n < unat b. busy fs (sect d) n) \<and>
           st' = set_busy fs (sect d) (unat b) True) r (sect d')"
    using wpxD [OF ext2_device.wp_allocate_block [OF assms(1,2)] assms(3)] by blast
  show ?thesis
  proof (cases r)
    case (Inl e)
    then show ?thesis using r by simp
  next
    case (Inr b)
    then have b: "unat b < nblocks fs" "\<not> busy fs (sect d) (unat b)" "\<forall>n < unat b. busy fs (sect d) n"
        "sect d' = set_busy fs (sect d) (unat b) True"
      using r(3) by simp_all
    obtain d'' where d'': "free_block ops fs b d' = Some (Ok (), d'')" "good d''" "sect d'' = set_busy fs (sect d') (unat b) False"
      using wpx_okD [OF ext2_device.wp_free_block [OF assms(1,2) b(1), of "\<lambda>_ st. st = set_busy fs (sect d') (unat b) False", OF refl] r(2)]
      by auto
    note marks = busy_set_busy [OF assms(2) b(1) _ len [OF assms(3)]] busy_set_busy [OF assms(2) b(1) _ len [OF r(2)]]
    have "busy fs (sect d') n \<longleftrightarrow> n = unat b \<or> busy fs (sect d) n" "busy fs (sect d'') n = busy fs (sect d) n" if "n < nblocks fs" for n
      using marks that b(2) by (auto simp: b(4) d''(3))
    moreover have "blkv fs (sect d') n = blkv fs (sect d) n" if "n \<notin> bitmap_blocks fs" for n
      using blkv_set_busy [OF assms(2) b(1) that] by (simp add: b(4))
    ultimately show ?thesis using r(1,2) Inr b(1-3) d''(1,2) by auto
  qed
qed

theorem allocate_block_lowest_witness:
  "\<exists>r d'. allocate_block demo_ops demo_fs demo_kernel = Some (r, d') \<and> demo_good d' \<and>
    (case r of Inl e \<Rightarrow> disk_full demo_fs demo_store | Inr b \<Rightarrow> unat b < 16 \<and> \<not> unat b < 9)"
proof -
  obtain r d' where r: "allocate_block demo_ops demo_fs demo_kernel = Some (r, d')" "demo_good d'"
      "case r of Inl e \<Rightarrow> disk_full demo_fs demo_store | Inr b \<Rightarrow> unat b < nblocks demo_fs \<and> \<not> busy demo_fs demo_store (unat b)"
    using allocate_block_lowest [OF demo_device demo_blocks_ok demo_good] unfolding demo_store_def
    by (elim exE conjE) (rename_tac r d', case_tac r; simp)
  moreover have "nblocks demo_fs = 16" by (simp add: demo_fs_def)
  ultimately show ?thesis using demo_busy by (intro exI [of _ r] exI [of _ d']) (cases r; auto)
qed

text \<open>
  C9: the inode table.  Reading an inode that has been written returns it unchanged, with
  all its fields, and every other inode reads as before.
\<close>

theorem write_inode_read_inode:
  assumes "ext2_device ops sect good cap" and "geom fs cap" and "tables_ok fs" and "good d" and "valid_ino fs ino"
    and "list_all (\<lambda>n. unat n < nblocks fs) (file_nodes fs (sect d) inode)"
    and "length (i_blocks inode) = 15" and "is_file inode \<or> drop_bit 32 (i_size inode) = 0"
  shows "\<exists>d'. write_inode ops fs ino inode d = Some (Ok (), d') \<and> good d' \<and>
    (\<exists>e. read_inode ops fs ino d' = Some (Ok inode, e)) \<and>
    (\<forall>other. other \<noteq> ino \<longrightarrow> (\<exists>x e e'. read_inode ops fs other d = Some (x, e) \<and> read_inode ops fs other d' = Some (x, e')))"
proof -
  have len: "length (sect d n) = 512" for n
    using assms(1,4) unfolding ext2_device_def sector_device_def by blast
  note rd = ext2_device.exact_read_inode [OF assms(1-3)]
  have "wpx good sect (write_inode ops fs ino inode) (sect d) (upon (\<lambda>_ _. False) (\<lambda>_ st'. \<exists>s. st' = put_inode fs (sect d) ino s inode))"
    by (rule ext2_device.wp_write_inode [OF assms(1-3,5-8)]) blast
  then obtain d' s where d': "write_inode ops fs ino inode d = Some (Ok (), d')" "good d'" "sect d' = put_inode fs (sect d) ino s inode"
    using wpx_okD [of good sect "write_inode ops fs ino inode" d "\<lambda>_ st'. \<exists>s. st' = put_inode fs (sect d) ino s inode"] assms(4) by auto
  note at = inode_at_put [where st = "sect d", OF assms(3,5) len assms(7,8), where sectors = s, folded d'(3)]
  have "\<exists>e. read_inode ops fs ino d' = Some (Ok inode, e)"
    using exactD [OF rd [of ino] d'(2)] assms(5) at(1) by (auto simp: find_inode_def)
  moreover have "\<exists>x e e'. read_inode ops fs other d = Some (x, e) \<and> read_inode ops fs other d' = Some (x, e')" if "other \<noteq> ino" for other
  proof -
    have "find_inode fs (sect d') other = find_inode fs (sect d) other" using at(2) [OF _ that] by (simp add: find_inode_def)
    then show ?thesis using exactD [OF rd [of other] d'(2)] exactD [OF rd [of other] assms(4)] by auto
  qed
  ultimately show ?thesis using d'(1,2) by blast
qed

theorem write_inode_read_inode_witness:
  "\<exists>d'. write_inode demo_ops demo_fs 12 demo_file demo_kernel = Some (Ok (), d') \<and>
     (\<exists>e. read_inode demo_ops demo_fs 12 d' = Some (Ok demo_file, e))"
proof -
  have "file_nodes demo_fs (demo_sect demo_kernel) demo_file = [8]" by (simp add: file_nodes_def demo_blocks)
  then have "list_all (\<lambda>n. unat n < nblocks demo_fs) (file_nodes demo_fs (demo_sect demo_kernel) demo_file)" by (simp add: demo_fs_def)
  moreover have "valid_ino demo_fs 12" by (simp add: valid_ino_def demo_fs_def)
  moreover have "geom demo_fs 32" using demo_blocks_ok by (simp add: blocks_ok_def)
  moreover have "length (i_blocks demo_file) = 15" by (simp add: demo_file_def empty_inode_def)
  ultimately show ?thesis
    using write_inode_read_inode [OF demo_device _ demo_tables_ok demo_good, of 12 demo_file] demo_kinds(2) by blast
qed



text \<open>
  C14: removing a name from a directory.  In a directory of one block whose records have
  room for their names, the entry with the name is removed, the others keep their order
  and their inodes, and its inode is returned; when no entry has the name, nothing
  changes.  No other block is written.
\<close>

theorem remove_deletes_entry:
  assumes "ext2_device ops sect good cap" and "blocks_ok fs cap" and "good d" and "one_block_dir fs parent b"
    and "rec_wf (blkv fs (sect d) (unat b)) 1024 0" and "name \<noteq> []" and "name \<notin> set DOT_NAMES" and "utf8_valid name"
  shows "\<exists>r d'. remove_dir_entry ops fs parent name d = Some (r, d') \<and> good d' \<and>
    (case r of
       Inl e \<Rightarrow> e = X_NotFound \<and> sect d' = sect d \<and>
         (\<exists>es. entries fs (sect d) parent = Ok es \<and> list_all (\<lambda>e. de_name e \<noteq> name) es)
     | Inr ino \<Rightarrow> (\<forall>n. n \<noteq> unat b \<longrightarrow> blkv fs (sect d') n = blkv fs (sect d) n) \<and>
         (\<exists>xs ys. entries fs (sect d) parent = Ok (xs @ \<lparr>de_ino = ino, de_name = name\<rparr> # ys) \<and>
            entries fs (sect d') parent = Ok (xs @ ys)))"
  using wpxD [OF ext2_device.wp_remove_dir_entry [OF assms(1,2,4-8)] assms(3)] by (simp add: upon_def)

lemma demo_rec_wf: "rec_wf demo_dir 1024 0"
proof -
  have "rec_wf demo_dir 1024 1024" by (subst rec_wf.simps) (simp add: rec_ends_def)
  then have "rec_wf demo_dir 1024 24" by (subst rec_wf.simps) (simp add: demo_recs)
  then have "rec_wf demo_dir 1024 12" by (subst rec_wf.simps) (simp add: demo_recs)
  then show ?thesis by (subst rec_wf.simps) (simp add: demo_recs)
qed

theorem remove_deletes_entry_witness:
  "\<exists>ino d'. remove_dir_entry demo_ops demo_fs demo_root [97] demo_kernel = Some (Ok ino, d') \<and>
    (\<exists>xs ys. entries demo_fs (demo_sect d') demo_root = Ok (xs @ ys))"
proof -
  have dir: "one_block_dir demo_fs demo_root 7" "[97] \<noteq> ([] :: bytes)" "[97] \<notin> set DOT_NAMES" "utf8_valid [97]"
    by (simp_all add: one_block_dir_def demo_root_def empty_inode_def demo_fs_def in_range_def DOT_NAMES_def)
  have wf: "rec_wf (blkv demo_fs (demo_sect demo_kernel) (unat (7 :: u32))) 1024 0"
    using demo_rec_wf demo_blkv(4) by (simp add: demo_store_def)
  obtain r d' where r: "remove_dir_entry demo_ops demo_fs demo_root [97] demo_kernel = Some (r, d')"
      "case r of
         Inl e \<Rightarrow> e = X_NotFound \<and> demo_sect d' = demo_sect demo_kernel \<and>
           (\<exists>es. entries demo_fs (demo_sect demo_kernel) demo_root = Ok es \<and> list_all (\<lambda>e. de_name e \<noteq> [97]) es)
       | Inr ino \<Rightarrow> (\<forall>n. n \<noteq> unat (7 :: u32) \<longrightarrow> blkv demo_fs (demo_sect d') n = blkv demo_fs (demo_sect demo_kernel) n) \<and>
           (\<exists>xs ys. entries demo_fs (demo_sect demo_kernel) demo_root = Ok (xs @ \<lparr>de_ino = ino, de_name = [97]\<rparr> # ys) \<and>
              entries demo_fs (demo_sect d') demo_root = Ok (xs @ ys))"
    using remove_deletes_entry [OF demo_device demo_blocks_ok demo_good dir(1) wf dir(2-4)] by blast
  moreover have "entries demo_fs (demo_sect demo_kernel) demo_root = entries demo_fs demo_store demo_root" by (simp add: demo_store_def)
  ultimately show ?thesis by (cases r) (auto simp: demo_entries)
qed

text \<open>
  C24: a write that is too large still empties the file.  \<open>write_file\<close> frees the blocks of
  the file before it finds that the new contents cannot be addressed.  The error is
  returned, the inode on the disk is unchanged and still lists every block it had, and
  all of them are marked free for the next allocation.
\<close>

theorem failed_write_frees_blocks:
  assumes "ext2_device ops sect good cap" and "blocks_ok fs cap" and "tables_ok fs" and "consistent fs (sect d) L" and "good d"
    and "names_file fs (sect d) path f" and "max_file_blocks < blocks_for data"
  shows "\<exists>d'. write_file ops fs path data d = Some (Err X_Unsupported, d') \<and>
    inode_at fs (sect d') f = inode_at fs (sect d) f \<and> (\<forall>n \<in> nodes_at fs (sect d) f. \<not> busy fs (sect d') (unat n))"
proof -
  have "dir_closed fs (sect d) L" using assms(4) unfolding consistent_def by blast
  then have f: "look 8 fs (sect d) True path = Ok (f, inode_at fs (sect d) f)" "is_file (inode_at fs (sect d) f)" "f \<in> L"
    using assms(6) look_result unfolding names_file_def by fastforce+
  note table = consistent_table [OF assms(4,3) f(3)] and plain = ext2_device.consistent_range(1) [OF assms(1,4) f(3)]
  have "wpx good sect (write_file ops fs path data) (sect d)
      (upon (\<lambda>e st'. e = X_Unsupported \<and> freed fs (sect d) (nodes_at fs (sect d) f) st') (\<lambda>_ _. False))"
    unfolding write_file_def nodes_at_def
    by (rule wpx_bind, rule exact_upon [OF ext2_device.exact_lookup_path [OF assms(1-4)]],
        unfold f(1) sum.case prod.case, rule wpx_if, simp add: f(2), rule wpx_bind,
        rule ext2_device.wp_write_too_large [OF assms(1,2) plain assms(7)])
  from wpxD [OF this assms(5)] obtain r d' where r: "write_file ops fs path data d = Some (r, d')"
      "upon (\<lambda>e st'. e = X_Unsupported \<and> freed fs (sect d) (nodes_at fs (sect d) f) st') (\<lambda>_ _. False) r (sect d')"
    by blast
  then have st': "r = Err X_Unsupported" "freed fs (sect d) (nodes_at fs (sect d) f) (sect d')" by (cases r; simp)+
  have "inode_at fs (sect d') f = inode_at fs (sect d) f"
    using st'(2) table(2) by (simp add: inode_at_def freed_def table_block_def)
  moreover have "\<not> busy fs (sect d') (unat n)" if "n \<in> nodes_at fs (sect d) f" for n
    using st'(2) that plain by (auto simp: freed_def nodes_at_def list_all_iff plain_def)
  ultimately show ?thesis using r(1) st'(1) by blast
qed

theorem failed_write_frees_blocks_witness:
  "\<exists>d'. write_file demo_ops demo_fs [47, 97] (replicate (2 ^ 40) 0) demo_kernel = Some (Err X_Unsupported, d') \<and>
     inode_at demo_fs (demo_sect d') 11 = demo_file \<and> \<not> busy demo_fs (demo_sect d') 8"
proof -
  have con: "consistent demo_fs (demo_sect demo_kernel) {2, 11}" using demo_consistent by (simp add: demo_store_def)
  have path: "names_file demo_fs (demo_sect demo_kernel) [47, 97] 11" using demo_path by (simp add: demo_store_def)
  have "max_file_blocks < blocks_for (replicate (2 ^ 40) 0)" by (simp add: max_file_blocks_def blocks_for_def)
  from failed_write_frees_blocks [OF demo_device demo_blocks_ok demo_tables_ok con demo_good path this]
  show ?thesis using demo_inode_at(2) demo_nodes(2) by (simp add: demo_store_def)
qed


end
