(* ===== verification/Spec2Isabelle.thy ===== *)
theory Spec2Isabelle
  imports Security Signals Refcount Tcp Process_Table Paths Pipes Vfs_Calls Ext2_Properties
begin

text \<open>
  Verification library for the Ristux kernel: memory, TCP, processes, paths and pipes.
\<close>

end
